(* ===== verification/Jent_Prelude.thy ===== *)
theory Jent_Prelude
  imports Main "HOL-Library.Word" "HOL-Library.Monad_Syntax"
begin

text \<open>
  What every component of the model shares: the names of the C integer types, the copy and
  fill primitives of the C library on byte lists, little-endian bytes, the public constants of
  \<^verbatim>\<open>jitterentropy.h\<close> and the generic lemmas on lists, words and functions that are iterated.

  The C types are words of their width (\<^verbatim>\<open>unsigned short\<close> 16, \<^verbatim>\<open>unsigned int\<close> and \<^verbatim>\<open>uint32_t\<close> 32,
  \<^verbatim>\<open>uint64_t\<close> and, on the 64-bit targets modelled here, \<^verbatim>\<open>size_t\<close> 64), so that every wrap-around of
  the code is a wrap-around of the model. A buffer is the list of its bytes; the length of a
  buffer is the length of the list. A call that may not return has an \<open>option\<close> result, and
  \<open>None\<close> is "no result within the fuel, or an access outside the memory block".
\<close>

unbundle bit_operations_syntax

subsection \<open>Types\<close>

type_synonym u8 = "8 word"
type_synonym u16 = "16 word"
type_synonym u32 = "32 word"
type_synonym u64 = "64 word"

subsection \<open>Collections of simplification rules\<close>

named_theorems flag_defs \<open>the constants of the public header\<close>
named_theorems frame \<open>what an operation leaves unchanged\<close>

subsection \<open>Memory primitives on byte lists\<close>

text \<open>\<open>memcpy_at d off s\<close> is \<^verbatim>\<open>memcpy(d + off, s, |s|)\<close>; the components show that it stays inside
  the destination, where the length is kept.\<close>

definition memcpy_at :: "'a list \<Rightarrow> nat \<Rightarrow> 'a list \<Rightarrow> 'a list" where
  "memcpy_at d off s = take off d @ s @ drop (off + length s) d"

definition memset_at :: "'a list \<Rightarrow> nat \<Rightarrow> 'a \<Rightarrow> nat \<Rightarrow> 'a list" where
  "memset_at d off v n = memcpy_at d off (replicate n v)"

lemma length_memcpy_at [simp]:
  "off + length s \<le> length d \<Longrightarrow> length (memcpy_at d off s) = length d"
  by (simp add: memcpy_at_def)

lemma take_memcpy_at:
  "off + length s \<le> length d \<Longrightarrow> take (off + length s) (memcpy_at d off s) = take off d @ s"
  by (simp add: memcpy_at_def)

lemma memcpy_at_nil [simp]: "memcpy_at d off [] = d"
  by (simp add: memcpy_at_def)

lemma length_memset_at [simp]:
  "off + n \<le> length d \<Longrightarrow> length (memset_at d off v n) = length d"
  by (simp add: memset_at_def)

lemma memcpy_at_all: "length s = length d \<Longrightarrow> memcpy_at d 0 s = s"
  by (simp add: memcpy_at_def)

subsection \<open>Words\<close>

lemma unat_ucast_up [simp]:
  fixes x :: "'a::len word"
  assumes "LENGTH('a) \<le> LENGTH('b::len)"
  shows "unat (ucast x :: 'b word) = unat x"
proof -
  have "unat x < 2 ^ LENGTH('a)"
    by (rule unsigned_less)
  also have "\<dots> \<le> 2 ^ LENGTH('b)"
    using assms by simp
  finally show ?thesis
    by (simp add: unsigned_ucast_eq take_bit_nat_eq_self)
qed

lemma ucast_up_0_iff: "(ucast (v :: u32) :: u64) = 0 \<longleftrightarrow> v = 0"
  using unat_ucast_up [of v, where 'b = 64] by (auto simp: unat_0_iff simp flip: unat_0_iff)

lemma ucast_down_up [simp]: "(ucast (ucast (v :: u32) :: u64) :: u32) = v"
  by (rule bit_word_eqI) (auto simp: bit_simps)

lemma ucast_up_down:
  fixes g :: u64
  assumes "g < 2 ^ 32"
  shows "ucast (ucast g :: u32) = g"
proof -
  have "unat g < 2 ^ 32"
    using assms by (simp add: word_less_nat_alt)
  then have "unat (ucast (ucast g :: u32) :: u64) = unat g"
    by (simp add: unsigned_ucast_eq unsigned_take_bit_eq take_bit_nat_eq_self)
  then show ?thesis
    by (rule unsigned_word_eqI)
qed

lemma unat_mod_ucast8:
  fixes x :: u64 and r :: u8
  shows "unat (x mod ucast r) = unat x mod unat r"
  by (simp add: unat_mod)

lemma word_eq_unat: "x = y \<longleftrightarrow> unat x = unat y"
  by (auto intro: unsigned_word_eqI)

lemma unat_of_nat_small: "m < 2 ^ LENGTH('a) \<Longrightarrow> unat (of_nat m :: 'a::len word) = m"
  by (simp add: unat_of_nat take_bit_nat_eq_self)

lemma unat_inc:
  fixes x :: "'a::len word"
  assumes "Suc (unat x) < 2 ^ LENGTH('a)"
  shows "unat (x + 1) = Suc (unat x)"
  using assms by (simp add: unat_word_ariths(1) unsigned_1)

end
