(* ===== verification/Jent_Sha3.thy ===== *)
theory Jent_Sha3
  imports Jent_Prelude
begin

text \<open>
  \<^verbatim>\<open>src/jitterentropy-sha3.c\<close> and \<^verbatim>\<open>src/jitterentropy-sha3.h\<close>: the Keccak permutation, SHA3-256, SHAKE-256,
  the XDRBG-256 conditioning component built on them and their known answer tests, in the order
  of the file.

  The hash context is the record \<open>jent_sha_ctx\<close>, field by field the C struct. The 25-lane state is
  updated in place in the source; here every step is a chain of list updates in the same order.
  \<open>jent_sha3_final\<close> returns the bytes it writes through the \<^verbatim>\<open>digest\<close> pointer beside the new context.
\<close>

subsection \<open>Little-endian conversion\<close>

definition ptr_to_le32 :: "u8 list \<Rightarrow> u32" where
  "ptr_to_le32 p = ucast (p ! 0) OR push_bit 8 (ucast (p ! 1)) OR
     push_bit 16 (ucast (p ! 2)) OR push_bit 24 (ucast (p ! 3))"

definition ptr_to_le64 :: "u8 list \<Rightarrow> u64" where
  "ptr_to_le64 p = ucast (ptr_to_le32 p) OR push_bit 32 (ucast (ptr_to_le32 (drop 4 p)))"

text \<open>The stores return the bytes they write.\<close>

definition le32_to_ptr :: "u32 \<Rightarrow> u8 list" where
  "le32_to_ptr v = [ucast v, ucast (drop_bit 8 v), ucast (drop_bit 16 v), ucast (drop_bit 24 v)]"

definition le64_to_ptr :: "u64 \<Rightarrow> u8 list" where
  "le64_to_ptr v = le32_to_ptr (ucast v) @ le32_to_ptr (ucast (drop_bit 32 v))"

definition jent_rol64 :: "u64 \<Rightarrow> u32 \<Rightarrow> u64" where
  "jent_rol64 x n = push_bit (unat (n AND 63)) x OR drop_bit (unat ((64 - n) AND 63)) x"

subsection \<open>Keccak\<close>

text \<open>The macro \<^verbatim>\<open>A(x, y)\<close>: the index of a lane.\<close>

definition lane :: "nat \<Rightarrow> nat \<Rightarrow> nat" where
  "lane x y = x + 5 * y"

definition jent_keccakp_theta :: "u64 list \<Rightarrow> u64 list" where
  "jent_keccakp_theta s =
    (let c0 = s ! lane 0 0 XOR s ! lane 0 1 XOR s ! lane 0 2 XOR s ! lane 0 3 XOR s ! lane 0 4;
     c1 = s ! lane 1 0 XOR s ! lane 1 1 XOR s ! lane 1 2 XOR s ! lane 1 3 XOR s ! lane 1 4;
     c2 = s ! lane 2 0 XOR s ! lane 2 1 XOR s ! lane 2 2 XOR s ! lane 2 3 XOR s ! lane 2 4;
     c3 = s ! lane 3 0 XOR s ! lane 3 1 XOR s ! lane 3 2 XOR s ! lane 3 3 XOR s ! lane 3 4;
     c4 = s ! lane 4 0 XOR s ! lane 4 1 XOR s ! lane 4 2 XOR s ! lane 4 3 XOR s ! lane 4 4;
     d0 = c4 XOR jent_rol64 c1 1;
     d1 = c0 XOR jent_rol64 c2 1;
     d2 = c1 XOR jent_rol64 c3 1;
     d3 = c2 XOR jent_rol64 c4 1;
     d4 = c3 XOR jent_rol64 c0 1;
     s = s[lane 0 0 := s ! lane 0 0 XOR d0];
     s = s[lane 1 0 := s ! lane 1 0 XOR d1];
     s = s[lane 2 0 := s ! lane 2 0 XOR d2];
     s = s[lane 3 0 := s ! lane 3 0 XOR d3];
     s = s[lane 4 0 := s ! lane 4 0 XOR d4];
     s = s[lane 0 1 := s ! lane 0 1 XOR d0];
     s = s[lane 1 1 := s ! lane 1 1 XOR d1];
     s = s[lane 2 1 := s ! lane 2 1 XOR d2];
     s = s[lane 3 1 := s ! lane 3 1 XOR d3];
     s = s[lane 4 1 := s ! lane 4 1 XOR d4];
     s = s[lane 0 2 := s ! lane 0 2 XOR d0];
     s = s[lane 1 2 := s ! lane 1 2 XOR d1];
     s = s[lane 2 2 := s ! lane 2 2 XOR d2];
     s = s[lane 3 2 := s ! lane 3 2 XOR d3];
     s = s[lane 4 2 := s ! lane 4 2 XOR d4];
     s = s[lane 0 3 := s ! lane 0 3 XOR d0];
     s = s[lane 1 3 := s ! lane 1 3 XOR d1];
     s = s[lane 2 3 := s ! lane 2 3 XOR d2];
     s = s[lane 3 3 := s ! lane 3 3 XOR d3];
     s = s[lane 4 3 := s ! lane 4 3 XOR d4];
     s = s[lane 0 4 := s ! lane 0 4 XOR d0];
     s = s[lane 1 4 := s ! lane 1 4 XOR d1];
     s = s[lane 2 4 := s ! lane 2 4 XOR d2];
     s = s[lane 3 4 := s ! lane 3 4 XOR d3];
     s = s[lane 4 4 := s ! lane 4 4 XOR d4]
   in s)"

definition RHO_ROL :: "nat \<Rightarrow> u32" where
  "RHO_ROL t = of_nat (((t + 1) * (t + 2) div 2) mod 64)"

definition jent_keccakp_rho :: "u64 list \<Rightarrow> u64 list" where
  "jent_keccakp_rho s =
    (let s = s[lane 1 0 := jent_rol64 (s ! lane 1 0) (RHO_ROL 0)];
     s = s[lane 0 2 := jent_rol64 (s ! lane 0 2) (RHO_ROL 1)];
     s = s[lane 2 1 := jent_rol64 (s ! lane 2 1) (RHO_ROL 2)];
     s = s[lane 1 2 := jent_rol64 (s ! lane 1 2) (RHO_ROL 3)];
     s = s[lane 2 3 := jent_rol64 (s ! lane 2 3) (RHO_ROL 4)];
     s = s[lane 3 3 := jent_rol64 (s ! lane 3 3) (RHO_ROL 5)];
     s = s[lane 3 0 := jent_rol64 (s ! lane 3 0) (RHO_ROL 6)];
     s = s[lane 0 1 := jent_rol64 (s ! lane 0 1) (RHO_ROL 7)];
     s = s[lane 1 3 := jent_rol64 (s ! lane 1 3) (RHO_ROL 8)];
     s = s[lane 3 1 := jent_rol64 (s ! lane 3 1) (RHO_ROL 9)];
     s = s[lane 1 4 := jent_rol64 (s ! lane 1 4) (RHO_ROL 10)];
     s = s[lane 4 4 := jent_rol64 (s ! lane 4 4) (RHO_ROL 11)];
     s = s[lane 4 0 := jent_rol64 (s ! lane 4 0) (RHO_ROL 12)];
     s = s[lane 0 3 := jent_rol64 (s ! lane 0 3) (RHO_ROL 13)];
     s = s[lane 3 4 := jent_rol64 (s ! lane 3 4) (RHO_ROL 14)];
     s = s[lane 4 3 := jent_rol64 (s ! lane 4 3) (RHO_ROL 15)];
     s = s[lane 3 2 := jent_rol64 (s ! lane 3 2) (RHO_ROL 16)];
     s = s[lane 2 2 := jent_rol64 (s ! lane 2 2) (RHO_ROL 17)];
     s = s[lane 2 0 := jent_rol64 (s ! lane 2 0) (RHO_ROL 18)];
     s = s[lane 0 4 := jent_rol64 (s ! lane 0 4) (RHO_ROL 19)];
     s = s[lane 4 2 := jent_rol64 (s ! lane 4 2) (RHO_ROL 20)];
     s = s[lane 2 4 := jent_rol64 (s ! lane 2 4) (RHO_ROL 21)];
     s = s[lane 4 1 := jent_rol64 (s ! lane 4 1) (RHO_ROL 22)];
     s = s[lane 1 1 := jent_rol64 (s ! lane 1 1) (RHO_ROL 23)]
   in s)"

definition jent_keccakp_pi :: "u64 list \<Rightarrow> u64 list" where
  "jent_keccakp_pi s =
    (let t = s ! lane 4 4;
     s = s[lane 4 4 := s ! lane 1 4];
     s = s[lane 1 4 := s ! lane 3 1];
     s = s[lane 3 1 := s ! lane 1 3];
     s = s[lane 1 3 := s ! lane 0 1];
     s = s[lane 0 1 := s ! lane 3 0];
     s = s[lane 3 0 := s ! lane 3 3];
     s = s[lane 3 3 := s ! lane 2 3];
     s = s[lane 2 3 := s ! lane 1 2];
     s = s[lane 1 2 := s ! lane 2 1];
     s = s[lane 2 1 := s ! lane 0 2];
     s = s[lane 0 2 := s ! lane 1 0];
     s = s[lane 1 0 := s ! lane 1 1];
     s = s[lane 1 1 := s ! lane 4 1];
     s = s[lane 4 1 := s ! lane 2 4];
     s = s[lane 2 4 := s ! lane 4 2];
     s = s[lane 4 2 := s ! lane 0 4];
     s = s[lane 0 4 := s ! lane 2 0];
     s = s[lane 2 0 := s ! lane 2 2];
     s = s[lane 2 2 := s ! lane 3 2];
     s = s[lane 3 2 := s ! lane 4 3];
     s = s[lane 4 3 := s ! lane 3 4];
     s = s[lane 3 4 := s ! lane 0 3];
     s = s[lane 0 3 := s ! lane 4 0];
     s = s[lane 4 0 := t]
   in s)"

definition jent_keccakp_chi :: "u64 list \<Rightarrow> u64 list" where
  "jent_keccakp_chi s =
    (let t00 = s ! lane 0 0;
     t01 = s ! lane 0 1;
     t02 = s ! lane 0 2;
     t03 = s ! lane 0 3;
     t04 = s ! lane 0 4;
     t10 = s ! lane 1 0;
     t11 = s ! lane 1 1;
     t12 = s ! lane 1 2;
     t13 = s ! lane 1 3;
     t14 = s ! lane 1 4;
     s = s[lane 0 0 := s ! lane 0 0 XOR ((NOT (s ! lane 1 0)) AND (s ! lane 2 0))];
     s = s[lane 0 1 := s ! lane 0 1 XOR ((NOT (s ! lane 1 1)) AND (s ! lane 2 1))];
     s = s[lane 0 2 := s ! lane 0 2 XOR ((NOT (s ! lane 1 2)) AND (s ! lane 2 2))];
     s = s[lane 0 3 := s ! lane 0 3 XOR ((NOT (s ! lane 1 3)) AND (s ! lane 2 3))];
     s = s[lane 0 4 := s ! lane 0 4 XOR ((NOT (s ! lane 1 4)) AND (s ! lane 2 4))];
     s = s[lane 1 0 := s ! lane 1 0 XOR ((NOT (s ! lane 2 0)) AND (s ! lane 3 0))];
     s = s[lane 1 1 := s ! lane 1 1 XOR ((NOT (s ! lane 2 1)) AND (s ! lane 3 1))];
     s = s[lane 1 2 := s ! lane 1 2 XOR ((NOT (s ! lane 2 2)) AND (s ! lane 3 2))];
     s = s[lane 1 3 := s ! lane 1 3 XOR ((NOT (s ! lane 2 3)) AND (s ! lane 3 3))];
     s = s[lane 1 4 := s ! lane 1 4 XOR ((NOT (s ! lane 2 4)) AND (s ! lane 3 4))];
     s = s[lane 2 0 := s ! lane 2 0 XOR ((NOT (s ! lane 3 0)) AND (s ! lane 4 0))];
     s = s[lane 2 1 := s ! lane 2 1 XOR ((NOT (s ! lane 3 1)) AND (s ! lane 4 1))];
     s = s[lane 2 2 := s ! lane 2 2 XOR ((NOT (s ! lane 3 2)) AND (s ! lane 4 2))];
     s = s[lane 2 3 := s ! lane 2 3 XOR ((NOT (s ! lane 3 3)) AND (s ! lane 4 3))];
     s = s[lane 2 4 := s ! lane 2 4 XOR ((NOT (s ! lane 3 4)) AND (s ! lane 4 4))];
     s = s[lane 3 0 := s ! lane 3 0 XOR ((NOT (s ! lane 4 0)) AND t00)];
     s = s[lane 3 1 := s ! lane 3 1 XOR ((NOT (s ! lane 4 1)) AND t01)];
     s = s[lane 3 2 := s ! lane 3 2 XOR ((NOT (s ! lane 4 2)) AND t02)];
     s = s[lane 3 3 := s ! lane 3 3 XOR ((NOT (s ! lane 4 3)) AND t03)];
     s = s[lane 3 4 := s ! lane 3 4 XOR ((NOT (s ! lane 4 4)) AND t04)];
     s = s[lane 4 0 := s ! lane 4 0 XOR ((NOT t00) AND t10)];
     s = s[lane 4 1 := s ! lane 4 1 XOR ((NOT t01) AND t11)];
     s = s[lane 4 2 := s ! lane 4 2 XOR ((NOT t02) AND t12)];
     s = s[lane 4 3 := s ! lane 4 3 XOR ((NOT t03) AND t13)];
     s = s[lane 4 4 := s ! lane 4 4 XOR ((NOT t04) AND t14)]
   in s)"

definition jent_keccakp_iota_vals :: "u64 list" where
  "jent_keccakp_iota_vals =
    [0x0000000000000001, 0x0000000000008082, 0x800000000000808a,
     0x8000000080008000, 0x000000000000808b, 0x0000000080000001,
     0x8000000080008081, 0x8000000000008009, 0x000000000000008a,
     0x0000000000000088, 0x0000000080008009, 0x000000008000000a,
     0x000000008000808b, 0x800000000000008b, 0x8000000000008089,
     0x8000000000008003, 0x8000000000008002, 0x8000000000000080,
     0x000000000000800a, 0x800000008000000a, 0x8000000080008081,
     0x8000000000008080, 0x0000000080000001, 0x8000000080008008]"

definition jent_keccakp_iota :: "u64 list \<Rightarrow> nat \<Rightarrow> u64 list" where
  "jent_keccakp_iota s round = s[0 := s ! 0 XOR jent_keccakp_iota_vals ! round]"

definition jent_keccakp_1600 :: "u64 list \<Rightarrow> u64 list" where
  "jent_keccakp_1600 s =
     foldl (\<lambda>s round.
       jent_keccakp_iota (jent_keccakp_chi (jent_keccakp_pi
         (jent_keccakp_rho (jent_keccakp_theta s)))) round) s [0..<24]"

subsection \<open>The hash context\<close>

definition JENT_SHA3_256_SIZE_DIGEST_BITS :: nat where
  "JENT_SHA3_256_SIZE_DIGEST_BITS = 256"

definition JENT_SHA3_256_SIZE_DIGEST :: nat where
  "JENT_SHA3_256_SIZE_DIGEST = JENT_SHA3_256_SIZE_DIGEST_BITS div 8"

definition JENT_SHA3_SIZE_BLOCK :: "nat \<Rightarrow> nat" where
  "JENT_SHA3_SIZE_BLOCK bits = (1600 - 2 * bits) div 8"

definition JENT_SHA3_256_SIZE_BLOCK :: nat where
  "JENT_SHA3_256_SIZE_BLOCK = JENT_SHA3_SIZE_BLOCK JENT_SHA3_256_SIZE_DIGEST_BITS"

definition JENT_XDRBG_SIZE_STATE :: nat where
  "JENT_XDRBG_SIZE_STATE = 64"

lemma sha_sizes [simp]:
  "JENT_SHA3_256_SIZE_DIGEST_BITS = 256" "JENT_SHA3_256_SIZE_DIGEST = 32"
  "JENT_SHA3_256_SIZE_BLOCK = 136" "JENT_XDRBG_SIZE_STATE = 64"
  by (simp_all add: JENT_SHA3_256_SIZE_DIGEST_BITS_def JENT_SHA3_256_SIZE_DIGEST_def
      JENT_SHA3_256_SIZE_BLOCK_def JENT_SHA3_SIZE_BLOCK_def JENT_XDRBG_SIZE_STATE_def)

record jent_sha_ctx =
  sha_state :: "u64 list"
  sha_msg_len :: u64
  sha_partial :: "u8 list"
  sha_xdrbg_block :: "u8 list"
  sha_r :: u8
  sha_rword :: u8
  sha_digestsize :: u8
  sha_padding :: u8
  sha_initially_seeded :: bool

text \<open>A context in freshly zeroed memory.\<close>

definition zero_sha_ctx :: jent_sha_ctx where
  "zero_sha_ctx = \<lparr>sha_state = replicate 25 0, sha_msg_len = 0, sha_partial = replicate 136 0,
     sha_xdrbg_block = replicate 96 0, sha_r = 0, sha_rword = 0, sha_digestsize = 0,
     sha_padding = 0, sha_initially_seeded = False\<rparr>"

definition jent_sha3_rate :: "jent_sha_ctx \<Rightarrow> nat" where
  "jent_sha3_rate ctx = unat (sha_r ctx)"

subsection \<open>SHA-3\<close>

definition jent_sha3_init :: "jent_sha_ctx \<Rightarrow> jent_sha_ctx" where
  "jent_sha3_init ctx = ctx\<lparr>sha_state := replicate 25 0, sha_msg_len := 0\<rparr>"

definition jent_sha3_256_init :: "jent_sha_ctx \<Rightarrow> jent_sha_ctx" where
  "jent_sha3_256_init ctx = (jent_sha3_init ctx)\<lparr>
     sha_r := of_nat JENT_SHA3_256_SIZE_BLOCK,
     sha_rword := of_nat (JENT_SHA3_256_SIZE_BLOCK div 8),
     sha_digestsize := of_nat JENT_SHA3_256_SIZE_DIGEST,
     sha_padding := 0x06\<rparr>"

definition jent_shake256_init :: "jent_sha_ctx \<Rightarrow> jent_sha_ctx" where
  "jent_shake256_init ctx = (jent_sha3_init ctx)\<lparr>
     sha_r := of_nat JENT_SHA3_256_SIZE_BLOCK,
     sha_rword := of_nat (JENT_SHA3_256_SIZE_BLOCK div 8),
     sha_digestsize := 0,
     sha_padding := 0x1f,
     sha_initially_seeded := False\<rparr>"

definition jent_shake256_set_digestsize :: "jent_sha_ctx \<Rightarrow> nat \<Rightarrow> jent_sha_ctx" where
  "jent_shake256_set_digestsize ctx n = ctx\<lparr>sha_digestsize := of_nat n\<rparr>"

definition jent_sha3_fill_state :: "jent_sha_ctx \<Rightarrow> u8 list \<Rightarrow> jent_sha_ctx" where
  "jent_sha3_fill_state ctx inp = ctx\<lparr>sha_state :=
     foldl (\<lambda>st i. st[i := st ! i XOR ptr_to_le64 (drop (8 * i) inp)])
       (sha_state ctx) [0..<unat (sha_rword ctx)]\<rparr>"

text \<open>One absorbed block: \<^verbatim>\<open>jent_sha3_fill_state\<close> and the permutation, as the update and the
  finalization do it.\<close>

definition sha3_absorb :: "jent_sha_ctx \<Rightarrow> u8 list \<Rightarrow> jent_sha_ctx" where
  "sha3_absorb ctx inp = (let ctx = jent_sha3_fill_state ctx inp in
     ctx\<lparr>sha_state := jent_keccakp_1600 (sha_state ctx)\<rparr>)"

text \<open>The loop over full blocks of the update and the bytes it leaves. The rate is not zero
  (the remainder by it at the head of the update would have trapped before).\<close>

function sha3_absorb_loop :: "jent_sha_ctx \<Rightarrow> u8 list \<Rightarrow> jent_sha_ctx \<times> u8 list" where
  "sha3_absorb_loop ctx inp =
     (if unat (sha_r ctx) \<le> length inp \<and> sha_r ctx \<noteq> 0
      then sha3_absorb_loop (sha3_absorb ctx inp) (drop (unat (sha_r ctx)) inp)
      else (ctx, inp))"
  by pat_completeness auto
termination
  by (relation "measure (\<lambda>(ctx, inp). length inp)")
    (auto simp: unat_0_iff, metis diff_less length_greater_0_conv le_zero_eq list.size(3) neq0_conv unat_0_iff)

declare sha3_absorb_loop.simps [simp del]

definition jent_sha3_update :: "jent_sha_ctx \<Rightarrow> u8 list \<Rightarrow> jent_sha_ctx" where
  "jent_sha3_update ctx inp =
     (let part = unat (sha_msg_len ctx mod ucast (sha_r ctx));
          ctx = ctx\<lparr>sha_msg_len := sha_msg_len ctx + of_nat (length inp)\<rparr>;
          todo = unat (sha_r ctx) - part
      in if part \<noteq> 0 \<and> length inp < todo
         then ctx\<lparr>sha_partial := memcpy_at (sha_partial ctx) part inp\<rparr>
         else let (ctx, inp) =
                    (if part \<noteq> 0
                     then let ctx = ctx\<lparr>sha_partial := memcpy_at (sha_partial ctx) part (take todo inp)\<rparr>
                          in (sha3_absorb ctx (sha_partial ctx), drop todo inp)
                     else (ctx, inp));
                  (ctx, inp) = sha3_absorb_loop ctx inp
              in ctx\<lparr>sha_partial := memcpy_at (sha_partial ctx) 0 inp\<rparr>)"

definition jent_sha3_final :: "jent_sha_ctx \<Rightarrow> jent_sha_ctx \<times> u8 list" where
  "jent_sha3_final ctx =
     (let r = unat (sha_r ctx);
          part = unat (sha_msg_len ctx mod ucast (sha_r ctx));
          p = memset_at (sha_partial ctx) part 0 (r - part);
          p = p[part := sha_padding ctx];
          p = p[r - 1 := p ! (r - 1) OR 0x80];
          ctx = sha3_absorb (ctx\<lparr>sha_partial := p\<rparr>) p;
          digest = concat (map (\<lambda>i. le64_to_ptr (sha_state ctx ! i))
                     [0..<unat (sha_digestsize ctx) div 8]);
          ctx = ctx\<lparr>sha_partial := memset_at (sha_partial ctx) 0 0 r\<rparr>
      in (jent_sha3_init ctx, digest))"

subsection \<open>XDRBG-256\<close>

definition JENT_XDRBG_DRNG_ENCODE_N :: "nat \<Rightarrow> u8" where
  "JENT_XDRBG_DRNG_ENCODE_N x = of_nat (x * 85)"

text \<open>The digest pointer of both finalizations is the scratch block of the context itself.\<close>

definition sha3_final_block :: "jent_sha_ctx \<Rightarrow> jent_sha_ctx" where
  "sha3_final_block ctx = (let (ctx, digest) = jent_sha3_final ctx in
     ctx\<lparr>sha_xdrbg_block := memcpy_at (sha_xdrbg_block ctx) 0 digest\<rparr>)"

definition jent_xdrbg256_generate_block :: "jent_sha_ctx \<Rightarrow> nat \<Rightarrow> jent_sha_ctx \<times> u8 list" where
  "jent_xdrbg256_generate_block ctx dst_len =
     (let encode = JENT_XDRBG_DRNG_ENCODE_N (of_bool (sha_initially_seeded ctx));
          ctx = ctx\<lparr>sha_initially_seeded := True\<rparr>;
          ctx = jent_sha3_update ctx [encode];
          ctx = jent_shake256_set_digestsize ctx JENT_XDRBG_SIZE_STATE;
          ctx = sha3_final_block ctx;
          ctx = jent_sha3_update ctx (take JENT_XDRBG_SIZE_STATE (sha_xdrbg_block ctx));
          encode = JENT_XDRBG_DRNG_ENCODE_N 2;
          ctx = jent_sha3_update ctx [encode];
          ctx = jent_shake256_set_digestsize ctx (length (sha_xdrbg_block ctx));
          ctx = sha3_final_block ctx;
          dst_len = (if dst_len > JENT_SHA3_256_SIZE_DIGEST then JENT_SHA3_256_SIZE_DIGEST else dst_len);
          dst = take dst_len (drop JENT_XDRBG_SIZE_STATE (sha_xdrbg_block ctx));
          ctx = jent_sha3_update ctx (take JENT_XDRBG_SIZE_STATE (sha_xdrbg_block ctx));
          ctx = ctx\<lparr>sha_xdrbg_block := memset_at (sha_xdrbg_block ctx) 0 0 (length (sha_xdrbg_block ctx))\<rparr>
      in (ctx, dst))"

definition jent_drbg_generate_block :: "jent_sha_ctx \<Rightarrow> nat \<Rightarrow> jent_sha_ctx \<times> u8 list" where
  "jent_drbg_generate_block ctx dst_len = jent_xdrbg256_generate_block ctx dst_len"

subsection \<open>Known answer tests\<close>

text \<open>\<open>stk\<close> is what the stack holds where \<^verbatim>\<open>HASH_CTX_ON_STACK\<close> places the context.\<close>

definition kat_differs :: "u8 list \<Rightarrow> u8 list \<Rightarrow> bool" where
  "kat_differs expd act = list_ex (\<lambda>i. expd ! i \<noteq> act ! i) [0..<length expd]"

definition shake256_kat_msg :: "u8 list" where
  "shake256_kat_msg =
    [0x6C, 0x9E, 0xC8, 0x5C, 0xBA, 0xBA, 0x62, 0xF5, 0xBC, 0xFE,
     0xA1, 0x9E, 0xB9, 0xC9, 0x20, 0x52, 0xD8, 0xFF, 0x18, 0x81,
     0x52, 0xE9, 0x61, 0xC1, 0xEC, 0x5C, 0x75, 0xBF, 0xC3, 0xC9,
     0x1C, 0x8D]"

definition shake256_kat_exp :: "u8 list" where
  "shake256_kat_exp =
    [0x7d, 0x6a, 0x09, 0x6e, 0x13, 0x66, 0x1d, 0x9d, 0x0e, 0xca,
     0xf5, 0x38, 0x30, 0xa1, 0x92, 0x87, 0xe0, 0xb3, 0x6e, 0xce,
     0x48, 0x82, 0xeb, 0x58, 0x0b, 0x78, 0x5c, 0x1d, 0xef, 0x2d,
     0xe5, 0xaa]"

definition jent_shake256_tester :: "jent_sha_ctx \<Rightarrow> int" where
  "jent_shake256_tester stk =
     (let ctx = jent_shake256_init stk;
          ctx = jent_sha3_update ctx shake256_kat_msg;
          ctx = jent_shake256_set_digestsize ctx (length shake256_kat_exp);
          (ctx, act) = jent_sha3_final ctx
      in if kat_differs shake256_kat_exp act then 1 else 0)"

definition xdrbg256_kat_seed :: "u8 list" where
  "xdrbg256_kat_seed = [0x00, 0x01, 0x02, 0x03, 0x04, 0x05, 0x06, 0x07, 0x08]"

definition xdrbg256_kat_exp :: "u8 list" where
  "xdrbg256_kat_exp =
    [0x51, 0xe4, 0x3c, 0xf6, 0x4b, 0xa2, 0x80, 0x77, 0x33, 0x1a,
     0x47, 0xe3, 0xf8, 0xb4, 0x1a, 0x42, 0xad, 0xd3, 0xa0, 0xf2,
     0x53, 0x97, 0x10, 0xdd, 0x6e, 0xa1, 0x16, 0x1d, 0x37, 0x8a,
     0x6f, 0xb6]"

definition jent_xdrbg256_tester :: "jent_sha_ctx \<Rightarrow> int" where
  "jent_xdrbg256_tester stk =
     (let ctx = jent_shake256_init stk;
          ctx = jent_sha3_update ctx xdrbg256_kat_seed;
          (ctx, act) = jent_xdrbg256_generate_block ctx (length xdrbg256_kat_exp);
          ctx = jent_sha3_update ctx xdrbg256_kat_seed;
          (ctx, act) = jent_xdrbg256_generate_block ctx (length xdrbg256_kat_exp)
      in if kat_differs xdrbg256_kat_exp act then 1 else 0)"

text \<open>The body of this test is compiled out (\<^verbatim>\<open>#if 0\<close>).\<close>

definition jent_sha3_256_tester :: int where
  "jent_sha3_256_tester = 0"

definition sha3_256_multiblock_exp :: "u8 list" where
  "sha3_256_multiblock_exp =
    [0xC5, 0xE3, 0x16, 0x92, 0x0A, 0x0D, 0x7E, 0x5D, 0x6C, 0x84,
     0x4C, 0x52, 0x9C, 0xA8, 0x82, 0x18, 0x8A, 0xB2, 0x29, 0x9D,
     0xA5, 0xED, 0x65, 0x0D, 0xC6, 0x16, 0xF0, 0xD4, 0xA3, 0x72,
     0x2E, 0x02]"

definition jent_sha3_256_multiblock_tester :: "jent_sha_ctx \<Rightarrow> int" where
  "jent_sha3_256_multiblock_tester stk =
     (let msg = map of_nat [0..<300];
          ctx = jent_sha3_256_init stk;
          ctx = foldl (\<lambda>ctx n. jent_sha3_update ctx (take n msg)) ctx [1, 140, 300];
          (ctx, act) = jent_sha3_final ctx
      in if kat_differs sha3_256_multiblock_exp act then 1 else 0)"

definition jent_sha3_tester :: "jent_sha_ctx \<Rightarrow> int" where
  "jent_sha3_tester stk =
     (if jent_sha3_256_tester \<noteq> 0 then 1
      else if jent_sha3_256_multiblock_tester stk \<noteq> 0 then 1
      else if jent_shake256_tester stk \<noteq> 0 then 1
      else jent_xdrbg256_tester stk)"


end
