(* ===== verification/Jent_Keccak.thy ===== *)
theory Jent_Keccak
  imports Jent_Sha3
begin

text \<open>
  The Keccak permutation of \<^verbatim>\<open>src/jitterentropy-sha3.c\<close> against FIPS 202. The reference
  definitions state the five step mappings on lanes \<open>(x, y)\<close> the way the standard does: the rho
  offsets come from the walk \<open>(x, y) := (y, 2x + 3y)\<close>, the iota constants from the linear
  feedback shift register, pi from \<open>A'[x, y] = A[x + 3y, x]\<close>. The unrolled in-place code is
  shown to compute exactly these.
\<close>

subsection \<open>Reference definitions\<close>

definition theta_ref :: "u64 list \<Rightarrow> u64 list" where
  "theta_ref s =
     (let C = (\<lambda>x. s ! lane x 0 XOR s ! lane x 1 XOR s ! lane x 2 XOR s ! lane x 3 XOR s ! lane x 4)
      in map (\<lambda>i. s ! i XOR C ((i mod 5 + 4) mod 5) XOR word_rotl 1 (C ((i mod 5 + 1) mod 5))) [0..<25])"

fun rho_walk :: "nat \<Rightarrow> nat \<times> nat" where
  "rho_walk 0 = (1, 0)"
| "rho_walk (Suc t) = (let (x, y) = rho_walk t in (y, (2 * x + 3 * y) mod 5))"

definition rho_offset :: "nat \<Rightarrow> nat \<Rightarrow> nat" where
  "rho_offset x y = (case find (\<lambda>t. rho_walk t = (x, y)) [0..<24] of
     None \<Rightarrow> 0 | Some t \<Rightarrow> ((t + 1) * (t + 2) div 2) mod 64)"

definition rho_ref :: "u64 list \<Rightarrow> u64 list" where
  "rho_ref s = map (\<lambda>i. word_rotl (rho_offset (i mod 5) (i div 5)) (s ! i)) [0..<25]"

definition pi_ref :: "u64 list \<Rightarrow> u64 list" where
  "pi_ref s = map (\<lambda>i. s ! lane ((i mod 5 + 3 * (i div 5)) mod 5) (i mod 5)) [0..<25]"

definition chi_ref :: "u64 list \<Rightarrow> u64 list" where
  "chi_ref s = map (\<lambda>i. let x = i mod 5; y = i div 5 in
     s ! i XOR (NOT (s ! lane ((x + 1) mod 5) y) AND s ! lane ((x + 2) mod 5) y)) [0..<25]"

text \<open>The register of the iota constants: bit 7 is fed back into bits 0, 4, 5 and 6.\<close>

fun rc_step :: "bool list \<Rightarrow> bool list" where
  "rc_step [r0, r1, r2, r3, r4, r5, r6, r7] =
     [r7, r0, r1, r2, r3 \<noteq> r7, r4 \<noteq> r7, r5 \<noteq> r7, r6]"
| "rc_step r = r"

definition rc :: "nat \<Rightarrow> bool" where
  "rc t = ((rc_step ^^ (t mod 255)) [True, False, False, False, False, False, False, False]) ! 0"

definition RC :: "nat \<Rightarrow> u64" where
  "RC ir = foldl (\<lambda>w j. if rc (j + 7 * ir) then set_bit (2 ^ j - 1) w else w) 0 [0..<7]"

definition iota_ref :: "u64 list \<Rightarrow> nat \<Rightarrow> u64 list" where
  "iota_ref s ir = s[0 := s ! 0 XOR RC ir]"

definition keccak_round :: "u64 list \<Rightarrow> nat \<Rightarrow> u64 list" where
  "keccak_round s ir = iota_ref (chi_ref (pi_ref (rho_ref (theta_ref s)))) ir"

definition keccak_f :: "u64 list \<Rightarrow> u64 list" where
  "keccak_f s = foldl keccak_round s [0..<24]"

subsection \<open>Rotation\<close>

lemma word_rotl_0 [simp]: "word_rotl 0 x = x"
  by (rule bit_word_eqI) (simp add: bit_word_rotl_iff)

lemma unat_and_63: "unat (n AND 63 :: u32) = unat n mod 64"
proof -
  have "n AND 63 = take_bit 6 n"
    by (simp add: take_bit_eq_mask mask_eq_exp_minus_1)
  then show ?thesis
    by (simp add: take_bit_eq_mod unat_mod)
qed

lemma shifts_rotl:
  fixes x :: u64
  assumes n: "n < 64"
  shows "push_bit n x OR drop_bit ((64 - n) mod 64) x = word_rotl n x"
proof (cases "n = 0")
  case True
  then show ?thesis by simp
next
  case False
  show ?thesis
  proof (rule bit_word_eqI)
    fix k
    assume "k < LENGTH(64)"
    then have k: "k < 64" by simp
    show "bit (push_bit n x OR drop_bit ((64 - n) mod 64) x) k = bit (word_rotl n x) k"
    proof (cases "n \<le> k")
      case True
      then have "(k + (64 - n mod 64)) mod 64 = k - n"
        using k n by (simp add: mod_if)
      then show ?thesis
        using True k n False bit_imp_le_length [of x "64 + k - n"]
        by (auto simp: bit_or_iff bit_push_bit_iff bit_drop_bit_eq bit_word_rotl_iff)
    next
      case less: False
      then have "k + (64 - n) < 64"
        using n by linarith
      then have "(k + (64 - n mod 64)) mod 64 = 64 - n + k"
        using n by simp
      then show ?thesis
        using less k n False
        by (simp add: bit_or_iff bit_push_bit_iff bit_drop_bit_eq bit_word_rotl_iff)
    qed
  qed
qed

lemma jent_rol64_rotl:
  assumes "n < 64"
  shows "jent_rol64 x (of_nat n) = word_rotl n x"
proof -
  have "(64 - of_nat n :: u32) = of_nat (64 - n)"
    using assms by (simp add: of_nat_diff)
  then have "unat ((64 - of_nat n :: u32) AND 63) = (64 - n) mod 64"
    unfolding unat_and_63 using assms by (simp add: unat_of_nat del: of_nat_diff)
  moreover have "unat ((of_nat n :: u32) AND 63) = n"
    unfolding unat_and_63 using assms by (simp add: unat_of_nat)
  ultimately show ?thesis
    using shifts_rotl [OF assms] by (simp add: jent_rol64_def)
qed

subsection \<open>The step mappings\<close>

lemma upt25:
  "[0..<25] = [0, 1, 2, 3, 4, 5, 6, 7, 8, 9, 10, 11, 12, 13, 14, 15, 16, 17, 18, 19, 20, 21, 22, 23, 24]"
  by (simp add: upt_conv_Cons)

lemma cases25:
  assumes "length s = 25"
  obtains a0 a1 a2 a3 a4 a5 a6 a7 a8 a9 a10 a11 a12 a13 a14 a15 a16 a17 a18 a19 a20 a21 a22 a23 a24
  where "s = [a0, a1, a2, a3, a4, a5, a6, a7, a8, a9, a10, a11, a12, a13, a14, a15, a16, a17,
    a18, a19, a20, a21, a22, a23, a24]"
proof -
  have "s = [s!0, s!1, s!2, s!3, s!4, s!5, s!6, s!7, s!8, s!9, s!10, s!11, s!12, s!13, s!14,
    s!15, s!16, s!17, s!18, s!19, s!20, s!21, s!22, s!23, s!24]"
    using assms map_nth [of s] by (simp add: upt25)
  then show thesis by (rule that)
qed

lemma rho_offsets:
  "map (\<lambda>i. rho_offset (i mod 5) (i div 5)) [0..<25] =
     [0, 1, 62, 28, 27, 36, 44, 6, 55, 20, 3, 10, 43, 25, 39, 41, 45, 15, 21, 8, 18, 2, 61, 56, 14]"
  by code_simp

lemmas rho_offset_vals = rho_offsets [unfolded upt25, simplified]

lemma RHO_ROL_rotl:
  "t < 24 \<Longrightarrow> jent_rol64 x (RHO_ROL t) = word_rotl ((t + 1) * (t + 2) div 2 mod 64) x"
  unfolding RHO_ROL_def by (rule jent_rol64_rotl) simp

lemmas unrolled = lane_def upt25 Let_def

lemma jent_keccakp_theta_ref: "length s = 25 \<Longrightarrow> jent_keccakp_theta s = theta_ref s"
  by (erule cases25)
    (simp add: jent_keccakp_theta_def theta_ref_def jent_rol64_rotl [of 1, simplified] unrolled
      ac_simps cong: let_weak_cong)

lemma jent_keccakp_rho_ref: "length s = 25 \<Longrightarrow> jent_keccakp_rho s = rho_ref s"
  by (erule cases25)
    (simp add: jent_keccakp_rho_def rho_ref_def RHO_ROL_rotl rho_offset_vals unrolled
      cong: let_weak_cong)

lemma jent_keccakp_pi_ref: "length s = 25 \<Longrightarrow> jent_keccakp_pi s = pi_ref s"
  by (erule cases25) (simp add: jent_keccakp_pi_def pi_ref_def unrolled cong: let_weak_cong)

lemma jent_keccakp_chi_ref: "length s = 25 \<Longrightarrow> jent_keccakp_chi s = chi_ref s"
  by (erule cases25) (simp add: jent_keccakp_chi_def chi_ref_def unrolled cong: let_weak_cong)

text \<open>The register is run once for all 24 constants.\<close>

fun rc_stream :: "nat \<Rightarrow> bool list \<Rightarrow> bool list" where
  "rc_stream 0 r = []"
| "rc_stream (Suc n) r = r ! 0 # rc_stream n (rc_step r)"

lemma rc_stream_nth: "t < n \<Longrightarrow> rc_stream n r ! t = ((rc_step ^^ t) r) ! 0"
  by (induction n r arbitrary: t rule: rc_stream.induct)
    (auto simp: nth_Cons' funpow_swap1 less_Suc_eq_0_disj)

lemma rc_bits: "rc_stream 168 [True, False, False, False, False, False, False, False] = [
    True, False, False, False, False, False, False,
    False, True, False, True, True, False, False,
    False, True, True, True, True, False, True,
    False, False, False, False, True, True, True,
    True, True, True, True, True, False, False,
    True, False, False, False, False, True, False,
    True, False, False, True, True, True, True,
    True, False, True, False, True, False, True,
    False, True, True, True, False, False, False,
    False, False, True, True, False, False, False,
    True, False, True, False, True, True, False,
    False, True, True, False, False, True, False,
    True, True, True, True, True, True, False,
    True, True, True, True, False, False, True,
    True, False, True, True, True, False, True,
    True, True, False, False, True, False, True,
    False, True, False, False, True, False, True,
    False, False, False, True, False, False, True,
    False, True, True, False, True, False, False,
    False, True, True, False, False, True, True,
    True, False, False, True, True, True, True,
    False, False, False, True, True, False, True,
    True, False, False, False, False, True, False,
    False, False, True, False, True, True, True]"
  by code_simp

lemma rc_bit: "t < 168 \<Longrightarrow> rc t = rc_stream 168 [True, False, False, False, False, False, False, False] ! t"
  by (simp add: rc_def rc_stream_nth)

lemma RC_iota_vals: "map RC [0..<24] = jent_keccakp_iota_vals"
  by (simp add: RC_def rc_bit rc_bits jent_keccakp_iota_vals_def upt_conv_Cons set_bit_eq_or)

lemma jent_keccakp_iota_ref: "ir < 24 \<Longrightarrow> jent_keccakp_iota s ir = iota_ref s ir"
  by (simp add: jent_keccakp_iota_def iota_ref_def RC_iota_vals [symmetric])

lemma length_ref [simp]:
  "length (theta_ref s) = 25" "length (rho_ref s) = 25" "length (pi_ref s) = 25"
  "length (chi_ref s) = 25" "length (iota_ref s ir) = length s"
  by (simp_all add: theta_ref_def rho_ref_def pi_ref_def chi_ref_def iota_ref_def Let_def)

lemma length_keccak_round [simp]: "length (keccak_round s ir) = 25"
  by (simp add: keccak_round_def)

lemma length_keccak_f [simp]: "length s = 25 \<Longrightarrow> length (keccak_f s) = 25"
proof -
  have "length (foldl keccak_round s rs) = 25" if "length s = 25" for s rs
    using that by (induction rs arbitrary: s) simp_all
  then show "length s = 25 \<Longrightarrow> length (keccak_f s) = 25"
    by (simp add: keccak_f_def)
qed

lemma jent_keccakp_1600_ref:
  assumes "length s = 25"
  shows "jent_keccakp_1600 s = keccak_f s"
proof -
  have "foldl (\<lambda>s round. jent_keccakp_iota (jent_keccakp_chi (jent_keccakp_pi
          (jent_keccakp_rho (jent_keccakp_theta s)))) round) s rs = foldl keccak_round s rs"
    if "length s = 25" "set rs \<subseteq> {..<24}" for s rs
    using that
    by (induction rs arbitrary: s)
      (simp_all add: keccak_round_def jent_keccakp_theta_ref jent_keccakp_rho_ref
        jent_keccakp_pi_ref jent_keccakp_chi_ref jent_keccakp_iota_ref)
  from this [OF assms, of "[0..<24]"] show ?thesis
    by (simp add: jent_keccakp_1600_def keccak_f_def atLeast0LessThan)
qed

text \<open>C1: the permutation \<^verbatim>\<open>jent_keccakp_1600\<close>, five unrolled step mappings that overwrite the 25 lanes
  in place in 24 rounds, computes Keccak-f[1600] of FIPS 202 on every state of 25 lanes.\<close>

theorem jent_keccakp_1600_correct:
  assumes "length s = 25"
  shows "jent_keccakp_1600 s = keccak_f s"
  using assms by (rule jent_keccakp_1600_ref)

theorem jent_keccakp_1600_correct_witness:
  "length (replicate 25 (0 :: u64)) = 25 \<and>
   jent_keccakp_1600 (replicate 25 0) = keccak_f (replicate 25 0)"
  using jent_keccakp_1600_correct [of "replicate 25 0"] by simp

end
