(* ===== verification/Jent_Sponge.thy ===== *)
theory Jent_Sponge
  imports Jent_Keccak
begin

text \<open>
  The hash functions of \<^verbatim>\<open>src/jitterentropy-sha3.c\<close> against FIPS 202. The reference is the byte-wise
  sponge with rate 136 (SHA3-256 and SHAKE-256 share it): padding, absorbing, squeezing. The
  incremental context refines it: \<open>sha_rep ctx m\<close> says that \<open>ctx\<close> has absorbed the message \<open>m\<close>.
  XDRBG-256 is refined to its definition in terms of an extendable output function.
\<close>

subsection \<open>The reference sponge\<close>

abbreviation rate :: nat where
  "rate \<equiv> 136"

definition le_word :: "u8 list \<Rightarrow> u64" where
  "le_word bs = foldr (\<lambda>b w. ucast b OR push_bit 8 w) bs 0"

definition word_bytes :: "u64 \<Rightarrow> u8 list" where
  "word_bytes w = map (\<lambda>i. ucast (drop_bit (8 * i) w)) [0..<8]"

definition xor_block :: "u64 list \<Rightarrow> u8 list \<Rightarrow> u64 list" where
  "xor_block s b = map (\<lambda>i. if i < rate div 8 then s ! i XOR le_word (take 8 (drop (8 * i) b))
                            else s ! i) [0..<25]"

function absorb :: "u64 list \<Rightarrow> u8 list \<Rightarrow> u64 list" where
  "absorb s m = (if length m < rate then s
                 else absorb (keccak_f (xor_block s (take rate m))) (drop rate m))"
  by pat_completeness auto
termination
  by (relation "measure (\<lambda>(s, m). length m)") auto

declare absorb.simps [simp del]

text \<open>The domain separation byte \<open>p\<close> and the final bit of the padding; they may share a byte.\<close>

definition pad101 :: "u8 \<Rightarrow> nat \<Rightarrow> u8 list" where
  "pad101 p n = (let k = rate - n mod rate in
     if k = 1 then [p OR 0x80] else p # replicate (k - 2) 0 @ [0x80])"

function squeeze :: "nat \<Rightarrow> u64 list \<Rightarrow> u8 list" where
  "squeeze d s = (if d \<le> rate then take d (concat (map word_bytes s))
                  else take rate (concat (map word_bytes s)) @ squeeze (d - rate) (keccak_f s))"
  by pat_completeness auto
termination
  by (relation "measure (\<lambda>(d, s). d)") auto

declare squeeze.simps [simp del]

definition sponge :: "u8 \<Rightarrow> u8 list \<Rightarrow> nat \<Rightarrow> u8 list" where
  "sponge p m d = squeeze d (absorb (replicate 25 0) (m @ pad101 p (length m)))"

definition sha3_256 :: "u8 list \<Rightarrow> u8 list" where
  "sha3_256 m = sponge 0x06 m 32"

definition shake256 :: "u8 list \<Rightarrow> nat \<Rightarrow> u8 list" where
  "shake256 m d = sponge 0x1f m d"

subsection \<open>Bytes and lanes\<close>

lemma take8:
  assumes "8 \<le> length p"
  shows "take 8 p = [p ! 0, p ! 1, p ! 2, p ! 3, p ! 4, p ! 5, p ! 6, p ! 7]"
proof -
  have "take 8 p = map ((!) p) [0..<8]"
    using assms by (simp add: list_eq_iff_nth_eq)
  then show ?thesis
    by (simp add: upt_conv_Cons numeral_eq_Suc)
qed

lemma ucast_push_bit_byte:
  assumes "k + 8 \<le> 32"
  shows "ucast (push_bit k (ucast (b :: u8) :: u32)) = (push_bit k (ucast b) :: u64)"
  using assms by (intro bit_word_eqI) (auto simp: bit_simps dest: bit_imp_le_length)

lemma ptr_to_le64_le_word:
  assumes "8 \<le> length p"
  shows "ptr_to_le64 p = le_word (take 8 p)"
proof -
  have byte0: "ucast (ucast (b :: u8) :: u32) = (ucast b :: u64)" for b
    by (intro bit_word_eqI) (auto simp: bit_simps dest: bit_imp_le_length)
  show ?thesis
    using assms
    by (simp add: take8 le_word_def ptr_to_le64_def ptr_to_le32_def unsigned_or_eq
        ucast_push_bit_byte byte0 push_bit_or push_bit_push_bit or.assoc)
qed

lemma le64_to_ptr_word_bytes: "le64_to_ptr v = word_bytes v"
proof -
  have lo: "ucast (drop_bit k (ucast v :: u32)) = (ucast (drop_bit k v) :: u8)" if "k + 8 \<le> 32" for k
    using that by (intro bit_word_eqI) (auto simp: bit_simps)
  have hi: "ucast (drop_bit k (ucast (drop_bit 32 v) :: u32)) = (ucast (drop_bit (k + 32) v) :: u8)"
    if "k + 8 \<le> 32" for k
    using that by (intro bit_word_eqI) (auto simp: bit_simps ac_simps)
  show ?thesis
    using lo [of 0] hi [of 0]
    by (simp add: le64_to_ptr_def le32_to_ptr_def word_bytes_def upt_conv_Cons lo hi)
qed

lemma bit_le_word:
  "bit (le_word bs) n \<longleftrightarrow> n < 64 \<and> n div 8 < length bs \<and> bit (bs ! (n div 8)) (n mod 8)"
proof (induction bs arbitrary: n)
  case (Cons b bs)
  show ?case
  proof (cases "n < 8")
    case False
    then have "n div 8 = Suc ((n - 8) div 8)" "(n - 8) mod 8 = n mod 8"
      by (simp_all add: le_div_geq le_mod_geq)
    with False Cons.IH [of "n - 8"] show ?thesis
      by (auto simp: le_word_def bit_simps dest: bit_imp_le_length)
  qed (auto simp: le_word_def bit_simps)
qed (simp add: le_word_def)

lemma length_word_bytes [simp]: "length (word_bytes w) = 8"
  by (simp add: word_bytes_def)

lemma le_word_bytes: "le_word (word_bytes w) = w"
  by (rule bit_word_eqI) (auto simp: bit_le_word word_bytes_def bit_simps less_mult_imp_div_less)

lemma word_bytes_le_word: "length bs = 8 \<Longrightarrow> word_bytes (le_word bs) = bs"
  by (rule nth_equalityI) (auto intro!: bit_word_eqI simp: word_bytes_def bit_simps bit_le_word
      dest: bit_imp_le_length)

subsection \<open>Absorbing\<close>

lemma foldl_upd:
  "n \<le> length s \<Longrightarrow> foldl (\<lambda>st i. st[i := f (st ! i) i]) s [0..<n] =
     map (\<lambda>i. if i < n then f (s ! i) i else s ! i) [0..<length s]"
proof (induction n)
  case 0
  then show ?case by (simp add: map_nth)
next
  case (Suc n)
  then have "foldl (\<lambda>st i. st[i := f (st ! i) i]) s [0..<n] =
      map (\<lambda>i. if i < n then f (s ! i) i else s ! i) [0..<length s]"
    by simp
  with Suc.prems show ?case
    by (intro nth_equalityI) (auto simp: nth_list_update)
qed

lemma length_xor_block [simp]: "length (xor_block s b) = 25"
  by (simp add: xor_block_def)

lemma length_absorb [simp]: "length s = 25 \<Longrightarrow> length (absorb s m) = 25"
proof (induction s m rule: absorb.induct)
  case (1 s m)
  then show ?case
    by (cases "length m < rate") (subst absorb.simps, simp)+
qed

definition sha_ctx_ok :: "jent_sha_ctx \<Rightarrow> bool" where
  "sha_ctx_ok ctx \<longleftrightarrow> length (sha_state ctx) = 25 \<and> length (sha_partial ctx) = rate \<and>
     length (sha_xdrbg_block ctx) = 96 \<and> sha_r ctx = 136 \<and> sha_rword ctx = 17"

lemma sha3_absorb_state:
  assumes "sha_ctx_ok ctx" "rate \<le> length inp"
  shows "sha3_absorb ctx inp =
    ctx\<lparr>sha_state := keccak_f (xor_block (sha_state ctx) (take rate inp))\<rparr>"
proof -
  have "sha_state (jent_sha3_fill_state ctx inp) =
      map (\<lambda>i. if i < 17 then sha_state ctx ! i XOR ptr_to_le64 (drop (8 * i) inp)
               else sha_state ctx ! i) [0..<25]"
    using assms(1) foldl_upd [of 17 "sha_state ctx" "\<lambda>w i. w XOR ptr_to_le64 (drop (8 * i) inp)"]
    by (simp add: jent_sha3_fill_state_def sha_ctx_ok_def)
  also have "\<dots> = xor_block (sha_state ctx) (take rate inp)"
    unfolding xor_block_def
  proof (rule map_cong [OF refl])
    fix i assume "i \<in> set [0..<25]"
    show "(if i < 17 then sha_state ctx ! i XOR ptr_to_le64 (drop (8 * i) inp) else sha_state ctx ! i) =
      (if i < rate div 8 then sha_state ctx ! i XOR le_word (take 8 (drop (8 * i) (take rate inp)))
       else sha_state ctx ! i)"
      using assms(2) by (auto simp: ptr_to_le64_le_word drop_take min_def)
  qed
  finally show ?thesis
    by (simp add: sha3_absorb_def jent_keccakp_1600_ref jent_sha3_fill_state_def)
qed

text \<open>The bytes of a message behind its last full block.\<close>

definition tail_bytes :: "u8 list \<Rightarrow> u8 list" where
  "tail_bytes m = drop (rate * (length m div rate)) m"

lemma length_tail_bytes [simp]: "length (tail_bytes m) = length m mod rate"
  by (simp add: tail_bytes_def minus_mult_div_eq_mod)

lemma tail_bytes_short [simp]: "length m < rate \<Longrightarrow> tail_bytes m = m"
  by (simp add: tail_bytes_def)

lemma tail_bytes_long: "rate \<le> length m \<Longrightarrow> tail_bytes m = tail_bytes (drop rate m)"
  by (simp add: tail_bytes_def le_div_geq add.commute)

lemma absorb_short [simp]: "length m < rate \<Longrightarrow> absorb s m = s"
  by (simp add: absorb.simps)

lemma absorb_long:
  "rate \<le> length m \<Longrightarrow> absorb s m = absorb (keccak_f (xor_block s (take rate m))) (drop rate m)"
  by (subst absorb.simps) simp

lemma absorb_append: "absorb s (m @ x) = absorb (absorb s m) (tail_bytes m @ x)"
proof (induction s m rule: absorb.induct)
  case (1 s m)
  then show ?case
    by (cases "length m < rate") (simp_all add: absorb_long tail_bytes_long)
qed

lemma tail_bytes_append: "tail_bytes (m @ x) = tail_bytes (tail_bytes m @ x)"
proof (induction m rule: length_induct)
  case (1 m)
  show ?case
  proof (cases "length m < rate")
    case False
    then show ?thesis
      using 1 [rule_format, of "drop rate m"] by (simp add: tail_bytes_long [of m]
          tail_bytes_long [of "m @ x"])
  qed simp
qed

lemma sha3_absorb_loop_eq:
  "sha_ctx_ok ctx \<Longrightarrow> sha3_absorb_loop ctx inp =
     (ctx\<lparr>sha_state := absorb (sha_state ctx) inp\<rparr>, tail_bytes inp)"
proof (induction ctx inp rule: sha3_absorb_loop.induct)
  case (1 ctx inp)
  show ?case
  proof (cases "length inp < rate")
    case True
    with 1(2) show ?thesis
      by (simp add: sha_ctx_ok_def sha3_absorb_loop.simps [of ctx inp])
  next
    case False
    let ?c = "ctx\<lparr>sha_state := keccak_f (xor_block (sha_state ctx) (take rate inp))\<rparr>"
    have "sha_ctx_ok ?c"
      using 1(2) by (simp add: sha_ctx_ok_def)
    then show ?thesis
      using 1 False
      by (simp add: sha3_absorb_loop.simps [of ctx inp] sha3_absorb_state sha_ctx_ok_def
          absorb_long [of inp] tail_bytes_long [of inp])
  qed
qed

subsection \<open>The incremental context\<close>

definition sha_rep :: "jent_sha_ctx \<Rightarrow> u8 list \<Rightarrow> bool" where
  "sha_rep ctx m \<longleftrightarrow> sha_ctx_ok ctx \<and> length m < 2 ^ 64 \<and> sha_msg_len ctx = of_nat (length m) \<and>
     sha_state ctx = absorb (replicate 25 0) m \<and>
     take (length m mod rate) (sha_partial ctx) = tail_bytes m"

lemma msg_len_mod:
  "length m < 2 ^ 64 \<Longrightarrow> unat (of_nat (length m) mod (136 :: u64)) = length m mod rate"
  by (simp add: unat_mod unat_of_nat take_bit_nat_eq_self)

lemma sha_rep_step:
  assumes "sha_rep ctx m" "length (m @ x) < 2 ^ 64" "sha_ctx_ok c"
    and "sha_msg_len c = sha_msg_len ctx + of_nat (length x)"
    and "sha_state c = absorb (sha_state ctx) (tail_bytes m @ x)"
    and "take (length (tail_bytes (tail_bytes m @ x))) (sha_partial c) = tail_bytes (tail_bytes m @ x)"
  shows "sha_rep c (m @ x)"
proof -
  have "length (m @ x) mod rate = length (tail_bytes (tail_bytes m @ x))"
    by (metis length_tail_bytes tail_bytes_append)
  with assms show ?thesis
    unfolding sha_rep_def by (simp only: absorb_append [of _ m] tail_bytes_append [of m]
        length_append of_nat_add simp_thms)
qed

lemma update_fits:
  assumes "sha_rep ctx m" "length (m @ x) < 2 ^ 64"
    and part: "unat (sha_msg_len ctx mod ucast (sha_r ctx)) = length (tail_bytes m)"
    and fits: "tail_bytes m \<noteq> []" "length (tail_bytes m @ x) < rate"
  shows "sha_rep (jent_sha3_update ctx x) (m @ x)"
proof (rule sha_rep_step [OF assms(1,2)])
  have ok: "sha_ctx_ok ctx" and tl: "take (length (tail_bytes m)) (sha_partial ctx) = tail_bytes m"
    using assms(1) by (simp_all add: sha_rep_def)
  have r: "unat (sha_r ctx) = rate" "length (sha_partial ctx) = rate"
    using ok by (simp_all add: sha_ctx_ok_def)
  have eq: "jent_sha3_update ctx x = ctx\<lparr>sha_msg_len := sha_msg_len ctx + of_nat (length x),
      sha_partial := memcpy_at (sha_partial ctx) (length (tail_bytes m)) x\<rparr>"
    using fits unfolding jent_sha3_update_def part Let_def
    by (simp add: r(1) del: length_tail_bytes)
  show "sha_ctx_ok (jent_sha3_update ctx x)"
    using ok fits r(2) by (simp add: eq sha_ctx_ok_def del: length_tail_bytes)
  show "sha_msg_len (jent_sha3_update ctx x) = sha_msg_len ctx + of_nat (length x)"
    by (simp add: eq)
  show "sha_state (jent_sha3_update ctx x) = absorb (sha_state ctx) (tail_bytes m @ x)"
    by (simp add: eq absorb_short [OF fits(2)])
  show "take (length (tail_bytes (tail_bytes m @ x))) (sha_partial (jent_sha3_update ctx x)) =
      tail_bytes (tail_bytes m @ x)"
    using fits r(2) tl take_memcpy_at [of "length (tail_bytes m)" x "sha_partial ctx"]
    by (simp add: eq tail_bytes_short [OF fits(2)] del: length_tail_bytes)
qed

lemma update_blocks:
  assumes "sha_rep ctx m" "length (m @ x) < 2 ^ 64"
    and part: "unat (sha_msg_len ctx mod ucast (sha_r ctx)) = length (tail_bytes m)"
    and full: "tail_bytes m = [] \<or> rate \<le> length (tail_bytes m @ x)"
  shows "sha_rep (jent_sha3_update ctx x) (m @ x)"
proof (rule sha_rep_step [OF assms(1,2)])
  define c where "c = ctx\<lparr>sha_msg_len := sha_msg_len ctx + of_nat (length x)\<rparr>"
  define todo where "todo = rate - length (tail_bytes m)"
  define b where "b = (if tail_bytes m = [] then sha_partial ctx else tail_bytes m @ take todo x)"
  define y where "y = (if tail_bytes m = [] then x else drop todo x)"
  have ok: "sha_ctx_ok ctx" and tl: "take (length (tail_bytes m)) (sha_partial ctx) = tail_bytes m"
    using assms(1) by (simp_all add: sha_rep_def)
  have r: "unat (sha_r ctx) = rate" "length (sha_partial ctx) = rate"
    using ok by (simp_all add: sha_ctx_ok_def)
  have lt: "length (tail_bytes m) < rate"
    by simp
  have b: "length b = rate"
    using full lt r(2) by (auto simp: b_def todo_def simp del: length_tail_bytes)
  have tk: "take rate (tail_bytes m @ x) = b" "drop rate (tail_bytes m @ x) = y" if "tail_bytes m \<noteq> []"
    using that lt by (simp_all add: b_def y_def todo_def del: length_tail_bytes)
  have y: "tail_bytes (tail_bytes m @ x) = tail_bytes y"
    using full tk(2) tail_bytes_long [of "tail_bytes m @ x"]
    by (cases "tail_bytes m = []") (auto simp: y_def)
  have eq: "jent_sha3_update ctx x = c\<lparr>sha_state := absorb (sha_state ctx) (tail_bytes m @ x),
      sha_partial := memcpy_at b 0 (tail_bytes y)\<rparr>"
  proof (cases "tail_bytes m = []")
    case True
    have "sha_ctx_ok c"
      using ok by (simp add: c_def sha_ctx_ok_def)
    note loop = sha3_absorb_loop_eq [OF this, of x]
    show ?thesis
      using loop unfolding jent_sha3_update_def part Let_def
      by (simp add: True c_def b_def y_def)
  next
    case False
    have "memcpy_at (sha_partial ctx) (length (tail_bytes m)) (take todo x) = b"
      using False full lt r(2) tl by (simp add: memcpy_at_def b_def todo_def del: length_tail_bytes)
    moreover have "\<not> length x < todo"
      using False full lt by (simp add: todo_def del: length_tail_bytes)
    moreover have "sha3_absorb (c\<lparr>sha_partial := b\<rparr>) b =
        c\<lparr>sha_state := keccak_f (xor_block (sha_state ctx) b), sha_partial := b\<rparr>"
      using ok b by (subst sha3_absorb_state) (simp_all add: c_def sha_ctx_ok_def)
    moreover have "sha_ctx_ok (c\<lparr>sha_state := keccak_f (xor_block (sha_state ctx) b), sha_partial := b\<rparr>)"
      using ok b by (simp add: c_def sha_ctx_ok_def)
    note sha3_absorb_loop_eq [OF this, of y]
    moreover have "absorb (sha_state ctx) (tail_bytes m @ x) =
        absorb (keccak_f (xor_block (sha_state ctx) b)) y"
      using False full tk by (subst absorb_long) auto
    ultimately show ?thesis
      using False unfolding jent_sha3_update_def part Let_def
      by (simp add: r(1) todo_def [symmetric] c_def y_def del: length_tail_bytes)
  qed
  have "length (tail_bytes y) \<le> rate"
    by simp
  show "sha_ctx_ok (jent_sha3_update ctx x)"
    using ok b by (simp add: eq c_def sha_ctx_ok_def)
  show "sha_msg_len (jent_sha3_update ctx x) = sha_msg_len ctx + of_nat (length x)"
    by (simp add: eq c_def)
  show "sha_state (jent_sha3_update ctx x) = absorb (sha_state ctx) (tail_bytes m @ x)"
    by (simp add: eq)
  show "take (length (tail_bytes (tail_bytes m @ x))) (sha_partial (jent_sha3_update ctx x)) =
      tail_bytes (tail_bytes m @ x)"
    unfolding y using b take_memcpy_at [of 0 "tail_bytes y" b]
    by (simp add: eq)
qed

lemma update_sha_rep:
  assumes "sha_rep ctx m" "length (m @ x) < 2 ^ 64"
  shows "sha_rep (jent_sha3_update ctx x) (m @ x)"
proof -
  have "unat (sha_msg_len ctx mod ucast (sha_r ctx)) = length (tail_bytes m)"
    using assms(1) msg_len_mod [of m] by (simp add: sha_rep_def sha_ctx_ok_def)
  then show ?thesis
    using update_fits [OF assms] update_blocks [OF assms] by fastforce
qed

lemma sha3_absorb_frame [frame]:
  "sha_padding (sha3_absorb ctx x) = sha_padding ctx"
  "sha_digestsize (sha3_absorb ctx x) = sha_digestsize ctx"
  "sha_xdrbg_block (sha3_absorb ctx x) = sha_xdrbg_block ctx"
  "sha_initially_seeded (sha3_absorb ctx x) = sha_initially_seeded ctx"
  by (simp_all add: sha3_absorb_def jent_sha3_fill_state_def)

lemma sha3_absorb_loop_frame [frame]:
  "sha_padding (fst (sha3_absorb_loop ctx x)) = sha_padding ctx \<and>
   sha_digestsize (fst (sha3_absorb_loop ctx x)) = sha_digestsize ctx \<and>
   sha_xdrbg_block (fst (sha3_absorb_loop ctx x)) = sha_xdrbg_block ctx \<and>
   sha_initially_seeded (fst (sha3_absorb_loop ctx x)) = sha_initially_seeded ctx"
proof (induction ctx x rule: sha3_absorb_loop.induct)
  case (1 ctx inp)
  then show ?case
    by (subst (1 2 3 4) sha3_absorb_loop.simps) (simp add: frame)
qed

lemma update_frame [frame]:
  "sha_padding (jent_sha3_update ctx x) = sha_padding ctx"
  "sha_digestsize (jent_sha3_update ctx x) = sha_digestsize ctx"
  "sha_xdrbg_block (jent_sha3_update ctx x) = sha_xdrbg_block ctx"
  "sha_initially_seeded (jent_sha3_update ctx x) = sha_initially_seeded ctx"
  by (simp_all add: jent_sha3_update_def Let_def split_beta frame)

subsection \<open>Padding and squeezing\<close>

lemma length_pad101 [simp]: "length (pad101 p n) = rate - n mod rate"
proof -
  have "n mod rate < rate"
    by simp
  then show ?thesis
    unfolding pad101_def Let_def by auto
qed

lemma pad_zeros:
  fixes t :: "u8 list"
  shows "(t @ replicate (Suc k) 0)[length t := pd,
           length t + k := (t @ replicate (Suc k) 0)[length t := pd] ! (length t + k) OR 0x80] =
         t @ (if k = 0 then [pd OR 0x80] else pd # replicate (k - 1) 0 @ [0x80])"
proof (cases k)
  case (Suc j)
  have "replicate (Suc j) (0 :: u8) = replicate j 0 @ [0]"
    by (simp add: replicate_append_same)
  then show ?thesis
    unfolding Suc by (simp add: list_update_append nth_append del: replicate_Suc)
      (simp add: list_update_append nth_append)
qed (simp add: list_update_append)

lemma pad_block:
  assumes "length t = n mod rate"
  shows "(t @ replicate (rate - n mod rate) 0)[n mod rate := pd,
           135 := (t @ replicate (rate - n mod rate) 0)[n mod rate := pd] ! 135 OR 0x80] =
         t @ pad101 pd n"
proof -
  have "n mod rate < rate"
    by simp
  moreover have "\<exists>k. rate - q = Suc k \<and> 135 = q + k" if "q < rate" for q
    using that by (intro exI [of _ "135 - q"]) simp
  ultimately obtain k where k: "rate - n mod rate = Suc k" "135 = n mod rate + k"
    by blast
  show ?thesis
    using pad_zeros [of t k pd] unfolding assms k pad101_def Let_def by auto
qed

lemma concat_words: "take (8 * n) (concat (map word_bytes s)) = concat (map word_bytes (take n s))"
proof (induction s arbitrary: n)
  case (Cons w s)
  then show ?case
    by (cases n) simp_all
qed simp

definition digest_ok :: "u8 \<Rightarrow> bool" where
  "digest_ok d \<longleftrightarrow> unat d \<le> rate \<and> unat d mod 8 = 0"

lemma final_block:
  assumes "sha_rep ctx m"
  shows "sha3_absorb (ctx\<lparr>sha_partial := tail_bytes m @ pad101 (sha_padding ctx) (length m)\<rparr>)
      (tail_bytes m @ pad101 (sha_padding ctx) (length m)) =
    ctx\<lparr>sha_partial := tail_bytes m @ pad101 (sha_padding ctx) (length m),
        sha_state := absorb (replicate 25 0) (m @ pad101 (sha_padding ctx) (length m))\<rparr>"
proof -
  let ?b = "tail_bytes m @ pad101 (sha_padding ctx) (length m)"
  have "length m mod rate \<le> rate"
    by simp
  then have b: "length ?b = rate"
    by (simp only: length_append length_tail_bytes length_pad101 le_add_diff_inverse)
  have "sha_ctx_ok (ctx\<lparr>sha_partial := ?b\<rparr>)"
    using assms b by (simp add: sha_rep_def sha_ctx_ok_def del: length_append)
  from sha3_absorb_state [OF this, of ?b] b
  have "sha3_absorb (ctx\<lparr>sha_partial := ?b\<rparr>) ?b =
      ctx\<lparr>sha_partial := ?b, sha_state := keccak_f (xor_block (sha_state ctx) ?b)\<rparr>"
    by (simp del: length_append)
  also have "keccak_f (xor_block (sha_state ctx) ?b) =
      absorb (replicate 25 0) (m @ pad101 (sha_padding ctx) (length m))"
    using assms b absorb_long [of ?b "absorb (replicate 25 0) m"]
    by (simp add: sha_rep_def absorb_append [of _ m] del: length_append)
  finally show ?thesis .
qed

lemma final_sha_rep:
  assumes rep: "sha_rep ctx m" and d: "digest_ok (sha_digestsize ctx)"
  shows "jent_sha3_final ctx =
    (ctx\<lparr>sha_state := replicate 25 0, sha_msg_len := 0, sha_partial := replicate rate 0\<rparr>,
     sponge (sha_padding ctx) m (unat (sha_digestsize ctx)))"
proof -
  let ?b = "tail_bytes m @ pad101 (sha_padding ctx) (length m)"
  let ?st = "absorb (replicate 25 0) (m @ pad101 (sha_padding ctx) (length m))"
  have ok: "sha_ctx_ok ctx" and part: "unat (sha_msg_len ctx mod ucast (sha_r ctx)) = length m mod rate"
    using rep msg_len_mod [of m] by (simp_all add: sha_rep_def sha_ctx_ok_def)
  have r: "unat (sha_r ctx) = rate"
    using ok by (simp add: sha_ctx_ok_def)
  have "memset_at (sha_partial ctx) (length m mod rate) 0 (rate - length m mod rate) =
      tail_bytes m @ replicate (rate - length m mod rate) 0"
    using rep by (simp add: sha_rep_def sha_ctx_ok_def memset_at_def memcpy_at_def)
  then have "jent_sha3_final ctx = (let c = ctx\<lparr>sha_partial := ?b, sha_state := ?st\<rparr> in
      (jent_sha3_init (c\<lparr>sha_partial := memset_at ?b 0 0 rate\<rparr>),
       concat (map (\<lambda>i. le64_to_ptr (?st ! i)) [0..<unat (sha_digestsize ctx) div 8])))"
    using pad_block [of "tail_bytes m" "length m" "sha_padding ctx"]
    unfolding jent_sha3_final_def part r Let_def
    by (simp add: final_block [OF rep])
  moreover have "memset_at ?b 0 0 rate = replicate rate 0"
    by (simp add: memset_at_def memcpy_at_def length_pad101)
  moreover have "concat (map (\<lambda>i. le64_to_ptr (?st ! i)) [0..<unat (sha_digestsize ctx) div 8]) =
      sponge (sha_padding ctx) m (unat (sha_digestsize ctx))"
  proof -
    obtain n where n: "unat (sha_digestsize ctx) = 8 * n" "n \<le> 17"
      using d by (auto simp: digest_ok_def elim!: dvdE)
    have "map (\<lambda>i. word_bytes (?st ! i)) [0..<n] = map word_bytes (take n ?st)"
      using n(2) by (simp add: list_eq_iff_nth_eq)
    then show ?thesis
      using n by (simp add: sponge_def squeeze.simps concat_words le64_to_ptr_word_bytes)
  qed
  ultimately show ?thesis
    by (simp add: Let_def jent_sha3_init_def)
qed

lemma final_sha_rep_state:
  "sha_rep ctx m \<Longrightarrow>
   sha_rep (ctx\<lparr>sha_state := replicate 25 0, sha_msg_len := 0, sha_partial := replicate rate 0\<rparr>) []"
  by (simp add: sha_rep_def sha_ctx_ok_def)

lemma length_sponge [simp]: "d \<le> rate \<Longrightarrow> length (sponge p m d) = d"
proof -
  have "length (concat (map word_bytes s)) = 8 * length s" for s
    by (induction s) simp_all
  then show "d \<le> rate \<Longrightarrow> length (sponge p m d) = d"
    by (simp add: sponge_def squeeze.simps)
qed

lemma length_shake256 [simp]: "d \<le> rate \<Longrightarrow> length (shake256 m d) = d"
  by (simp add: shake256_def)

subsection \<open>Incremental hashing\<close>

text \<open>What a caller of an incremental hash relies on: an update appends to the message the context
  stands for, up to the capacity of the length counter.\<close>

locale incremental_hash =
  fixes upd :: "'s \<Rightarrow> 'b list \<Rightarrow> 's"
    and rep :: "'s \<Rightarrow> 'b list \<Rightarrow> bool"
    and cap :: nat
  assumes upd_rep: "rep c m \<Longrightarrow> length (m @ x) < cap \<Longrightarrow> rep (upd c x) (m @ x)"
begin

lemma upds_rep:
  "rep c m \<Longrightarrow> length (m @ concat xs) < cap \<Longrightarrow> rep (foldl upd c xs) (m @ concat xs)"
proof (induction xs arbitrary: c m)
  case (Cons x xs)
  then have "rep (upd c x) (m @ x)"
    by (intro upd_rep) simp_all
  with Cons.IH [of "upd c x" "m @ x"] Cons.prems show ?case
    by simp
qed simp

end

interpretation sha: incremental_hash jent_sha3_update sha_rep "2 ^ 64"
  by unfold_locales (rule update_sha_rep)

lemma updates_frame [frame]:
  "sha_padding (foldl jent_sha3_update ctx xs) = sha_padding ctx"
  "sha_digestsize (foldl jent_sha3_update ctx xs) = sha_digestsize ctx"
  by (induction xs arbitrary: ctx) (simp_all add: frame)

text \<open>The arrays of a context, whatever they hold.\<close>

definition sha_mem :: "jent_sha_ctx \<Rightarrow> bool" where
  "sha_mem c \<longleftrightarrow> length (sha_state c) = 25 \<and> length (sha_partial c) = rate \<and>
     length (sha_xdrbg_block c) = 96"

lemma init_sha_rep:
  "sha_mem stk \<Longrightarrow> sha_rep (jent_sha3_256_init stk) []"
  "sha_mem stk \<Longrightarrow> sha_rep (jent_shake256_init stk) []"
  by (simp_all add: sha_mem_def sha_rep_def sha_ctx_ok_def jent_sha3_256_init_def
      jent_shake256_init_def jent_sha3_init_def)

lemma sha3_256_chunks:
  assumes "sha_mem stk" "length (concat xs) < 2 ^ 64"
  shows "snd (jent_sha3_final (foldl jent_sha3_update (jent_sha3_256_init stk) xs)) =
    sha3_256 (concat xs)"
proof -
  have "sha_rep (foldl jent_sha3_update (jent_sha3_256_init stk) xs) (concat xs)"
    using sha.upds_rep [OF init_sha_rep(1) [OF assms(1)], of xs] assms(2) by simp
  from final_sha_rep [OF this] show ?thesis
    by (simp add: frame digest_ok_def jent_sha3_256_init_def sha3_256_def)
qed

subsection \<open>XDRBG-256\<close>

text \<open>The generator in terms of the extendable output function: its state is whether it has been
  seeded and the bytes \<open>V\<close> with the seed appended; a generation derives \<open>V'\<close> from them, expands it
  and keeps the first 64 bytes.\<close>

definition xdrbg_spec :: "bool \<times> u8 list \<Rightarrow> nat \<Rightarrow> (bool \<times> u8 list) \<times> u8 list" where
  "xdrbg_spec st n =
     (let (seeded, msg) = st;
          v = shake256 (msg @ [if seeded then 85 else 0]) 64;
          t = shake256 (v @ [170]) 96
      in ((True, take 64 t), take n (drop 64 t)))"

definition xdrbg_rep :: "jent_sha_ctx \<Rightarrow> bool \<times> u8 list \<Rightarrow> bool" where
  "xdrbg_rep ctx st \<longleftrightarrow> sha_rep ctx (snd st) \<and> sha_padding ctx = 0x1f \<and>
     sha_initially_seeded ctx = fst st"

lemma final_block_shake:
  assumes "sha_rep ctx m" "sha_padding ctx = 0x1f" "digest_ok (sha_digestsize ctx)"
    "unat (sha_digestsize ctx) \<le> 96"
  shows "sha3_final_block ctx =
    ctx\<lparr>sha_state := replicate 25 0, sha_msg_len := 0, sha_partial := replicate rate 0,
        sha_xdrbg_block := shake256 m (unat (sha_digestsize ctx)) @
          drop (unat (sha_digestsize ctx)) (sha_xdrbg_block ctx)\<rparr>"
  using assms(2,4) by (simp add: sha3_final_block_def final_sha_rep [OF assms(1,3)] memcpy_at_def
      shake256_def)

text \<open>One half of a generation: a suffix byte, the digest size, the finalization.\<close>

definition xof_block :: "jent_sha_ctx \<Rightarrow> u8 \<Rightarrow> nat \<Rightarrow> jent_sha_ctx" where
  "xof_block ctx e n =
     sha3_final_block (jent_shake256_set_digestsize (jent_sha3_update ctx [e]) n)"

lemma xof_block_rep:
  assumes "sha_rep ctx m" "sha_padding ctx = 0x1f" "Suc (length m) < 2 ^ 64" "n \<in> {64, 96}"
  shows "sha_rep (xof_block ctx e n) []"
    and "take n (sha_xdrbg_block (xof_block ctx e n)) = shake256 (m @ [e]) n"
    and "length (sha_xdrbg_block (xof_block ctx e n)) = 96"
    and "sha_padding (xof_block ctx e n) = 0x1f"
    and "sha_initially_seeded (xof_block ctx e n) = sha_initially_seeded ctx"
proof -
  let ?c = "jent_shake256_set_digestsize (jent_sha3_update ctx [e]) n"
  have rep: "sha_rep ?c (m @ [e])"
    using update_sha_rep [OF assms(1), of "[e]"] assms(3)
    by (simp add: jent_shake256_set_digestsize_def sha_rep_def sha_ctx_ok_def)
  have d: "unat (sha_digestsize ?c) = n" "digest_ok (sha_digestsize ?c)" "sha_padding ?c = 0x1f"
    "sha_initially_seeded ?c = sha_initially_seeded ctx" "length (sha_xdrbg_block ?c) = 96"
    using assms(1,2,4)
    by (auto simp: jent_shake256_set_digestsize_def digest_ok_def frame sha_rep_def sha_ctx_ok_def)
  have eq: "xof_block ctx e n = ?c\<lparr>sha_state := replicate 25 0, sha_msg_len := 0,
      sha_partial := replicate rate 0,
      sha_xdrbg_block := shake256 (m @ [e]) n @ drop n (sha_xdrbg_block ?c)\<rparr>"
    using final_block_shake [OF rep d(3,2)] assms(4) by (auto simp: xof_block_def d(1))
  show "sha_rep (xof_block ctx e n) []"
    using final_sha_rep_state [OF rep] assms(4) d(5)
    by (auto simp: eq sha_rep_def sha_ctx_ok_def)
  show "take n (sha_xdrbg_block (xof_block ctx e n)) = shake256 (m @ [e]) n"
    "length (sha_xdrbg_block (xof_block ctx e n)) = 96"
    using assms(4) d(5) by (auto simp: eq)
  show "sha_padding (xof_block ctx e n) = 0x1f"
    "sha_initially_seeded (xof_block ctx e n) = sha_initially_seeded ctx"
    using d by (simp_all add: eq)
qed

lemma sha_rep_seeded [simp]: "sha_rep (ctx\<lparr>sha_initially_seeded := b\<rparr>) m = sha_rep ctx m"
  by (simp add: sha_rep_def sha_ctx_ok_def)

lemma xdrbg_generate_refines:
  assumes rep: "xdrbg_rep ctx st" and len: "Suc (length (snd st)) < 2 ^ 64"
  shows "xdrbg_rep (fst (jent_xdrbg256_generate_block ctx n)) (fst (xdrbg_spec st (min n 32)))"
    and "snd (jent_xdrbg256_generate_block ctx n) = snd (xdrbg_spec st (min n 32))"
    and "sha_xdrbg_block (fst (jent_xdrbg256_generate_block ctx n)) = replicate 96 0"
proof -
  let ?e = "JENT_XDRBG_DRNG_ENCODE_N (of_bool (sha_initially_seeded ctx))"
  define c1 where "c1 = xof_block (ctx\<lparr>sha_initially_seeded := True\<rparr>) ?e 64"
  define v where "v = take 64 (sha_xdrbg_block c1)"
  define c2 where "c2 = xof_block (jent_sha3_update c1 v) (JENT_XDRBG_DRNG_ENCODE_N 2) 96"
  have e: "?e = (if fst st then 85 else 0)" "JENT_XDRBG_DRNG_ENCODE_N 2 = 170"
    using rep by (auto simp: JENT_XDRBG_DRNG_ENCODE_N_def xdrbg_rep_def)
  have c1: "sha_rep c1 []" "v = shake256 (snd st @ [if fst st then 85 else 0]) 64"
      "length (sha_xdrbg_block c1) = 96" "sha_padding c1 = 0x1f" "sha_initially_seeded c1"
    unfolding v_def c1_def e
    using xof_block_rep [of "ctx\<lparr>sha_initially_seeded := True\<rparr>" "snd st" 64
        "if fst st then 85 else 0"] rep len by (simp_all add: xdrbg_rep_def)
  have v: "length v = 64"
    by (simp add: c1(2))
  have r2: "sha_rep (jent_sha3_update c1 v) v"
    using update_sha_rep [OF c1(1), of v] v by simp
  have c2: "sha_rep c2 []" "take 96 (sha_xdrbg_block c2) = shake256 (v @ [170]) 96"
      "length (sha_xdrbg_block c2) = 96" "sha_padding c2 = 0x1f" "sha_initially_seeded c2"
    unfolding c2_def e
    using xof_block_rep [OF r2, of 96 170] v c1 by (simp_all add: frame)
  have gen: "jent_xdrbg256_generate_block ctx n =
      (let c = jent_sha3_update c2 (take 64 (sha_xdrbg_block c2)) in
       (c\<lparr>sha_xdrbg_block := replicate 96 0\<rparr>, take (min n 32) (drop 64 (sha_xdrbg_block c2))))"
    using c1(3) c2(3)
    by (simp add: jent_xdrbg256_generate_block_def c2_def v_def c1_def xof_block_def Let_def frame
        memset_at_def memcpy_at_def min_def)
  have t: "sha_xdrbg_block c2 = shake256 (v @ [170]) 96"
    using c2(2,3) by simp
  show "snd (jent_xdrbg256_generate_block ctx n) = snd (xdrbg_spec st (min n 32))"
    by (simp add: gen t c1(2) xdrbg_spec_def Let_def split_beta)
  show "sha_xdrbg_block (fst (jent_xdrbg256_generate_block ctx n)) = replicate 96 0"
    by (simp add: gen Let_def)
  show "xdrbg_rep (fst (jent_xdrbg256_generate_block ctx n)) (fst (xdrbg_spec st (min n 32)))"
    using update_sha_rep [OF c2(1), of "take 64 (sha_xdrbg_block c2)"] c2
    by (simp add: gen t c1(2) xdrbg_spec_def Let_def split_beta xdrbg_rep_def frame sha_rep_def
        sha_ctx_ok_def)
qed

text \<open>A run of the conditioning component: bytes inserted and blocks drawn in any order, with the
  outputs of the draws.\<close>

datatype drbg_op = Insert "u8 list" | Draw nat

fun drbg_run :: "jent_sha_ctx \<Rightarrow> drbg_op list \<Rightarrow> u8 list list" where
  "drbg_run ctx [] = []"
| "drbg_run ctx (Insert x # ops) = drbg_run (jent_sha3_update ctx x) ops"
| "drbg_run ctx (Draw n # ops) =
     (let (ctx, out) = jent_drbg_generate_block ctx n in out # drbg_run ctx ops)"

fun xdrbg_run :: "bool \<times> u8 list \<Rightarrow> drbg_op list \<Rightarrow> u8 list list" where
  "xdrbg_run st [] = []"
| "xdrbg_run st (Insert x # ops) = xdrbg_run (fst st, snd st @ x) ops"
| "xdrbg_run st (Draw n # ops) =
     (let (st, out) = xdrbg_spec st (min n 32) in out # xdrbg_run st ops)"

fun inserted :: "drbg_op list \<Rightarrow> nat" where
  "inserted [] = 0"
| "inserted (Insert x # ops) = length x + inserted ops"
| "inserted (Draw n # ops) = inserted ops"

lemma xdrbg_spec_state_length: "length (snd (fst (xdrbg_spec st n))) = 64"
  by (simp add: xdrbg_spec_def Let_def split_beta)

lemma drbg_run_refines:
  "xdrbg_rep ctx st \<Longrightarrow> max 64 (length (snd st)) + inserted ops + 1 < 2 ^ 64 \<Longrightarrow>
   drbg_run ctx ops = xdrbg_run st ops"
proof (induction ops arbitrary: ctx st)
  case (Cons op ops)
  show ?case
  proof (cases op)
    case (Insert x)
    then have "xdrbg_rep (jent_sha3_update ctx x) (fst st, snd st @ x)"
      using Cons.prems by (auto simp: xdrbg_rep_def frame intro: update_sha_rep)
    with Cons Insert show ?thesis
      by simp
  next
    case (Draw n)
    have len: "Suc (length (snd st)) < 2 ^ 64"
      using Cons.prems(2) by simp
    note gen = xdrbg_generate_refines [OF Cons.prems(1) len, of n]
    have "drbg_run (fst (jent_xdrbg256_generate_block ctx n)) ops =
        xdrbg_run (fst (xdrbg_spec st (min n 32))) ops"
      using Cons.prems(2) Draw by (intro Cons.IH gen(1)) (simp add: xdrbg_spec_state_length)
    with gen(2) Draw show ?thesis
      by (simp add: jent_drbg_generate_block_def split_beta)
  qed
qed simp

lemma shake256_init_xdrbg_rep: "sha_mem stk \<Longrightarrow> xdrbg_rep (jent_shake256_init stk) (False, [])"
  using init_sha_rep(2) [of stk]
  by (simp add: xdrbg_rep_def jent_shake256_init_def)

subsection \<open>The properties of the hash component\<close>

text \<open>C2: a message hashed in any number of pieces of any length, with a context initialized over
  arbitrary stack contents, gives the SHA3-256 of FIPS 202 of the concatenated pieces: the buffering
  of partial blocks, the length counter, the padding and the squeezing are all as specified.\<close>

theorem sha3_256_incremental:
  assumes "sha_mem stk" "length (concat pieces) < 2 ^ 64"
  shows "snd (jent_sha3_final (foldl jent_sha3_update (jent_sha3_256_init stk) pieces)) =
    sha3_256 (concat pieces)"
  using assms by (rule sha3_256_chunks)

lemma sha_mem_zero [simp]: "sha_mem zero_sha_ctx"
  by (simp add: sha_mem_def zero_sha_ctx_def)

theorem sha3_256_incremental_witness:
  "sha_mem zero_sha_ctx \<and> length (concat [[1], [2, 3 :: u8]]) < (2 :: nat) ^ 64 \<and>
   snd (jent_sha3_final (foldl jent_sha3_update (jent_sha3_256_init zero_sha_ctx) [[1], [2, 3]])) =
     sha3_256 [1, 2, 3]"
  using sha3_256_incremental [of zero_sha_ctx "[[1], [2, 3]]"] by simp

text \<open>C3: the conditioning component refines XDRBG-256. Starting from the initialized context, for
  every sequence of insertions and draws, each draw returns the first (at most 32) bytes of the
  output part of \<open>T = SHAKE256(V' || 170, 96)\<close>, where \<open>V' = SHAKE256(V || seed || e, 64)\<close> with \<open>e\<close> 0
  for the first draw and 85 afterwards, and the next \<open>V\<close> is the first 64 bytes of \<open>T\<close>.\<close>

theorem drbg_run_xdrbg:
  assumes "sha_mem stk" "inserted ops + 65 < 2 ^ 64"
  shows "drbg_run (jent_shake256_init stk) ops = xdrbg_run (False, []) ops"
  using assms by (intro drbg_run_refines shake256_init_xdrbg_rep) simp_all

theorem drbg_run_xdrbg_witness:
  "sha_mem zero_sha_ctx \<and> inserted [Insert [7], Draw 32, Insert [8, 9], Draw 40] + 65 < 2 ^ 64 \<and>
   drbg_run (jent_shake256_init zero_sha_ctx) [Insert [7], Draw 32, Insert [8, 9], Draw 40] =
     xdrbg_run (False, []) [Insert [7], Draw 32, Insert [8, 9], Draw 40]"
  using drbg_run_xdrbg [of zero_sha_ctx "[Insert [7], Draw 32, Insert [8, 9], Draw 40]"] by simp

text \<open>C13: a draw leaves no output behind in the context: whatever was asked for, the scratch block
  that held the next state and the output is zero afterwards, and at most 32 bytes were returned.\<close>

theorem drbg_generate_wipes:
  assumes "xdrbg_rep ctx st" "Suc (length (snd st)) < 2 ^ 64"
  shows "sha_xdrbg_block (fst (jent_drbg_generate_block ctx n)) = replicate 96 0 \<and>
    length (snd (jent_drbg_generate_block ctx n)) = min n 32 \<and>
    xdrbg_rep (fst (jent_drbg_generate_block ctx n)) (fst (xdrbg_spec st (min n 32)))"
  using xdrbg_generate_refines [OF assms, of n]
  by (simp add: jent_drbg_generate_block_def xdrbg_spec_def Let_def split_beta)

theorem drbg_generate_wipes_witness:
  "xdrbg_rep (jent_shake256_init zero_sha_ctx) (False, []) \<and> Suc (length (snd (False, [] :: u8 list))) < 2 ^ 64 \<and>
   length (snd (jent_drbg_generate_block (jent_shake256_init zero_sha_ctx) 40)) = 32"
  using drbg_generate_wipes [of "jent_shake256_init zero_sha_ctx" "(False, [])" 40]
    shake256_init_xdrbg_rep [of zero_sha_ctx] by simp

end
