(* ===== verification/Jent_Kat.thy ===== *)
theory Jent_Kat
  imports Jent_Bits
begin

text \<open>
  The known answer tests of \<^verbatim>\<open>src/jitterentropy-sha3.c\<close>, computed: the reference functions give the expected
  vectors (by the evaluator of theory \<^verbatim>\<open>Jent_Bits\<close>), and the testers, which go through the incremental
  context, agree with the reference functions.
\<close>

lemma upt8: "[0..<8] = [0, 1, 2, 3, 4, 5, 6, 7]"
  by (simp add: upt_conv_Cons)

lemma replicate_numeral_run: "replicate (numeral k) x = x # replicate (pred_numeral k) x"
  by (simp add: numeral_eq_Suc)

declare replicate_numeral_run [simp]

lemma sponge_lanes_start:
  "sponge_lanes k bs = take k (absorb_lanes (replicate 25 (replicate 64 False)) (lanes bs))"
  by (simp add: sponge_lanes_def)

lemmas sponge_lanes_run = sponge_lanes_start [simplified]

lemma shake256_bits:
  "mbits (shake256 m 32) = concat (sponge_lanes 4 (mbits m @ mbits (pad101 0x1f (length m))))"
  "mbits (shake256 m 64) = concat (sponge_lanes 8 (mbits m @ mbits (pad101 0x1f (length m))))"
  "mbits (shake256 m 96) = concat (sponge_lanes 12 (mbits m @ mbits (pad101 0x1f (length m))))"
  using sponge_bits [of 4 "0x1f" m] sponge_bits [of 8 "0x1f" m] sponge_bits [of 12 "0x1f" m]
  by (simp_all add: shake256_def)

lemmas message_bits = pad101_def bbits_def upt8 replicate_numeral_run

lemma shake256_kat: "shake256 shake256_kat_msg 32 = shake256_kat_exp"
proof -
  have "mbits (shake256 shake256_kat_msg 32) = mbits shake256_kat_exp"
    unfolding shake256_bits
    apply (simp add: shake256_kat_msg_def shake256_kat_exp_def message_bits)
    apply (simp only: sponge_lanes_run bits_run)
    apply simp
    done
  then show ?thesis
    by (subst (asm) mbits_inject) (simp_all add: shake256_kat_exp_def)
qed

definition multiblock_msg :: "u8 list" where
  "multiblock_msg = concat (map (\<lambda>n. take n (map of_nat [0..<300])) [1, 140, 300])"

lemma length_multiblock_msg [simp]: "length multiblock_msg = 441"
  by (simp add: multiblock_msg_def)

lemma sha3_256_bits:
  "mbits (sha3_256 m) = concat (sponge_lanes 4 (mbits m @ mbits (pad101 0x06 (length m))))"
  using sponge_bits [of 4 "0x06" m] by (simp add: sha3_256_def)

lemma multiblock_kat: "sha3_256 multiblock_msg = sha3_256_multiblock_exp"
proof -
  have "mbits (sha3_256 multiblock_msg) = mbits sha3_256_multiblock_exp"
    unfolding sha3_256_bits length_multiblock_msg
    apply (simp add: multiblock_msg_def sha3_256_multiblock_exp_def message_bits upt_conv_Cons)
    apply (simp only: sponge_lanes_run bits_run)
    apply simp
    done
  then show ?thesis
    by (subst (asm) mbits_inject) (simp_all add: sha3_256_multiblock_exp_def sha3_256_def)
qed

lemma mbits_take: "mbits (take n m) = take (8 * n) (mbits m)"
  by (induction m arbitrary: n) (simp_all add: take_Cons split: nat.splits)

lemma mbits_drop: "mbits (drop n m) = drop (8 * n) (mbits m)"
  by (induction m arbitrary: n) (simp_all add: drop_Cons split: nat.splits)

lemma take_shake256: "n \<le> d \<Longrightarrow> d \<le> rate \<Longrightarrow> take n (shake256 m d) = shake256 m n"
  by (simp add: shake256_def sponge_def squeeze.simps min_def)

lemma drop_shake256: "mbits (drop 64 (shake256 m 96)) =
  concat (drop 8 (sponge_lanes 12 (mbits m @ mbits (pad101 0x1f (length m)))))"
proof -
  have t: "mbits (shake256 m 64) = take 512 (mbits (shake256 m 96))"
    using take_shake256 [of 64 96 m] mbits_take [of 64 "shake256 m 96"] by simp
  have "take 8 (sponge_lanes 12 bs) = sponge_lanes 8 bs" for bs
    by (simp add: sponge_lanes_def min_def)
  then have "concat (sponge_lanes 12 bs) = concat (sponge_lanes 8 bs) @ concat (drop 8 (sponge_lanes 12 bs))" for bs
    by (metis append_take_drop_id concat_append)
  from this [of "mbits m @ mbits (pad101 0x1f (length m))"]
  have "mbits (shake256 m 96) = mbits (shake256 m 64) @ concat (drop 8 (sponge_lanes 12 (mbits m @ mbits (pad101 0x1f (length m)))))"
    by (simp add: shake256_bits)
  then show ?thesis
    by (simp add: mbits_drop)
qed

lemma xdrbg_kat:
  "xdrbg_run (False, []) [Insert xdrbg256_kat_seed, Draw 32, Insert xdrbg256_kat_seed, Draw 32] ! 1 = xdrbg256_kat_exp"
proof -
  have "mbits (drop 64 (shake256 (shake256 (shake256 (shake256 (xdrbg256_kat_seed @ [0]) 64 @ [170]) 64 @
      xdrbg256_kat_seed @ [85]) 64 @ [170]) 96)) = mbits xdrbg256_kat_exp"
    apply (simp add: drop_shake256 shake256_bits xdrbg256_kat_seed_def xdrbg256_kat_exp_def message_bits)
    apply (simp only: sponge_lanes_run bits_run)
    apply simp
    apply (simp only: sponge_lanes_run bits_run)
    apply simp
    apply (simp only: sponge_lanes_run bits_run)
    apply simp
    apply (simp only: sponge_lanes_run bits_run)
    apply simp
    done
  then have "drop 64 (shake256 (shake256 (shake256 (shake256 (xdrbg256_kat_seed @ [0]) 64 @ [170]) 64 @
      xdrbg256_kat_seed @ [85]) 64 @ [170]) 96) = xdrbg256_kat_exp"
    by (subst (asm) mbits_inject) (simp_all add: xdrbg256_kat_exp_def)
  then show ?thesis
    by (simp add: xdrbg_spec_def Let_def take_shake256)
qed

subsection \<open>The known answer tests\<close>

lemma kat_same [simp]: "\<not> kat_differs e e"
  by (simp add: kat_differs_def list_ex_iff)

lemma multiblock_passes:
  assumes "sha_mem stk"
  shows "jent_sha3_256_multiblock_tester stk = 0"
proof -
  have "foldl (\<lambda>ctx n. jent_sha3_update ctx (take n msg)) ctx ns =
      foldl jent_sha3_update ctx (map (\<lambda>n. take n msg) ns)" for ctx ns and msg :: "u8 list"
    by (induction ns arbitrary: ctx) simp_all
  moreover have "snd (jent_sha3_final (foldl jent_sha3_update (jent_sha3_256_init stk)
      (map (\<lambda>n. take n (map of_nat [0..<300])) [1, 140, 300]))) = sha3_256_multiblock_exp"
    using sha3_256_chunks [OF assms, of "map (\<lambda>n. take n (map of_nat [0..<300])) [1, 140, 300]"]
      length_multiblock_msg multiblock_kat by (simp add: multiblock_msg_def)
  ultimately show ?thesis
    unfolding jent_sha3_256_multiblock_tester_def Let_def split_beta by (simp only: kat_same if_False)
qed

lemma shake256_passes:
  assumes "sha_mem stk"
  shows "jent_shake256_tester stk = 0"
proof -
  let ?c = "jent_shake256_set_digestsize (jent_sha3_update (jent_shake256_init stk) shake256_kat_msg) 32"
  have "sha_rep ?c shake256_kat_msg"
    using update_sha_rep [OF init_sha_rep(2) [OF assms], of shake256_kat_msg]
    by (simp add: jent_shake256_set_digestsize_def sha_rep_def sha_ctx_ok_def shake256_kat_msg_def)
  from final_sha_rep [OF this] have "snd (jent_sha3_final ?c) = shake256_kat_exp"
    by (simp add: jent_shake256_set_digestsize_def digest_ok_def frame jent_shake256_init_def flip: shake256_kat shake256_def)
  moreover have "length shake256_kat_exp = 32"
    by (simp add: shake256_kat_exp_def)
  ultimately show ?thesis
    by (simp add: jent_shake256_tester_def Let_def split_beta)
qed

lemma xdrbg256_passes:
  assumes "sha_mem stk"
  shows "jent_xdrbg256_tester stk = 0"
proof -
  have l: "length xdrbg256_kat_exp = 32"
    by (simp add: xdrbg256_kat_exp_def)
  have "drbg_run (jent_shake256_init stk) [Insert xdrbg256_kat_seed, Draw 32, Insert xdrbg256_kat_seed, Draw 32] ! 1 =
      xdrbg256_kat_exp"
    unfolding xdrbg_kat [symmetric]
    by (subst drbg_run_refines [OF shake256_init_xdrbg_rep [OF assms]]) (simp_all add: xdrbg256_kat_seed_def)
  then show ?thesis
    by (simp add: jent_xdrbg256_tester_def l Let_def split_beta jent_drbg_generate_block_def)
qed

text \<open>C4: the library passes its own known answer tests for SHA3-256, SHAKE256 and XDRBG-256, whatever the stack
  memory of their contexts held before: the permutation, the sponge and the generator give exactly the
  test vectors of the source.\<close>

theorem sha3_tester_passes:
  assumes "sha_mem stk"
  shows "jent_sha3_tester stk = 0"
  by (simp add: jent_sha3_tester_def jent_sha3_256_tester_def multiblock_passes [OF assms] shake256_passes [OF assms]
      xdrbg256_passes [OF assms])

theorem sha3_tester_passes_witness: "jent_sha3_tester zero_sha_ctx = 0"
  by (rule sha3_tester_passes) simp
end
