(* ===== verification/Jent_Header.thy ===== *)
theory Jent_Header
  imports Jent_Prelude
begin

text \<open>
  The public header \<^verbatim>\<open>jitterentropy.h\<close>: the flags of the allocation, the bounds of the oversampling
  rate, the error codes of the initialization and of the read functions, the failure masks of the
  health tests. The two bit fields of the flags are read with the macros of the header.
\<close>

subsection \<open>Flags\<close>

definition JENT_DISABLE_MEMORY_ACCESS :: u32 where "JENT_DISABLE_MEMORY_ACCESS = 0x4"
definition JENT_FORCE_INTERNAL_TIMER :: u32 where "JENT_FORCE_INTERNAL_TIMER = 0x8"
definition JENT_DISABLE_INTERNAL_TIMER :: u32 where "JENT_DISABLE_INTERNAL_TIMER = 0x10"
definition JENT_FORCE_FIPS :: u32 where "JENT_FORCE_FIPS = 0x20"
definition JENT_NTG1 :: u32 where "JENT_NTG1 = 0x40"
definition JENT_CACHE_ALL :: u32 where "JENT_CACHE_ALL = 0x80"
definition JENT_FORCE_SECURE_MEM :: u32 where "JENT_FORCE_SECURE_MEM = 0x100"

text \<open>Internal: an instance that measures a clock rather than generating entropy from it
  (\<^verbatim>\<open>jitterentropy-internal.h\<close>).\<close>

definition JENT_INT_MEASURE_CLOCK :: u32 where "JENT_INT_MEASURE_CLOCK = 0x400000"

definition JENT_FLAGS_TO_MAX_MEMSIZE :: "u32 \<Rightarrow> u32" where
  "JENT_FLAGS_TO_MAX_MEMSIZE val = drop_bit 27 val"

definition JENT_MAX_MEMSIZE_TO_FLAGS :: "u32 \<Rightarrow> u32" where
  "JENT_MAX_MEMSIZE_TO_FLAGS val = push_bit 27 val"

definition JENT_MAX_MEMSIZE_MAX :: u32 where
  "JENT_MAX_MEMSIZE_MAX = JENT_MAX_MEMSIZE_TO_FLAGS 20"

definition JENT_MAX_MEMSIZE_MASK :: u32 where
  "JENT_MAX_MEMSIZE_MASK = JENT_MAX_MEMSIZE_TO_FLAGS 0xffffffff"

definition JENT_MAX_MEMSIZE_OFFSET :: u32 where "JENT_MAX_MEMSIZE_OFFSET = 9"

definition JENT_FLAGS_TO_HASHLOOP :: "u32 \<Rightarrow> u32" where
  "JENT_FLAGS_TO_HASHLOOP val = drop_bit 23 val AND 0xf"

definition JENT_HASHLOOP_TO_FLAGS :: "u32 \<Rightarrow> u32" where
  "JENT_HASHLOOP_TO_FLAGS val = push_bit 23 val"

definition JENT_MAX_HASHLOOP :: u32 where
  "JENT_MAX_HASHLOOP = JENT_HASHLOOP_TO_FLAGS 8"

definition JENT_MAX_HASHLOOP_MASK :: u32 where
  "JENT_MAX_HASHLOOP_MASK = JENT_HASHLOOP_TO_FLAGS 0xf"

definition JENT_MIN_OSR :: u32 where "JENT_MIN_OSR = 3"
definition JENT_MAX_OSR :: u32 where "JENT_MAX_OSR = 20"

text \<open>\<open>has flags f\<close> is the C condition \<^verbatim>\<open>flags & f\<close>.\<close>

definition has :: "u32 \<Rightarrow> u32 \<Rightarrow> bool" where
  "has flags f \<longleftrightarrow> flags AND f \<noteq> 0"

subsection \<open>Error codes of the initialization\<close>

definition ENOTIME :: int where "ENOTIME = 1"
definition ECOARSETIME :: int where "ECOARSETIME = 2"
definition ENOMONOTONIC :: int where "ENOMONOTONIC = 3"
definition EMINVARVAR :: int where "EMINVARVAR = 6"
definition EPROGERR :: int where "EPROGERR = 7"
definition ESTUCK :: int where "ESTUCK = 8"
definition EHEALTH :: int where "EHEALTH = 9"
definition ERCT :: int where "ERCT = 10"
definition EHASH :: int where "EHASH = 11"
definition EMEM :: int where "EMEM = 12"
definition EGCD :: int where "EGCD = 13"

text \<open>The \<^verbatim>\<open>errno\<close> value of Linux that the code uses internally.\<close>

definition EAGAIN :: int where "EAGAIN = 11"

lemmas init_errors = ENOTIME_def ECOARSETIME_def ENOMONOTONIC_def EMINVARVAR_def EPROGERR_def
  ESTUCK_def EHEALTH_def ERCT_def EHASH_def EMEM_def EGCD_def

subsection \<open>Error codes of the read functions\<close>

definition JENT_ERR_EINVAL :: int where "JENT_ERR_EINVAL = - 1"
definition JENT_ERR_RCT :: int where "JENT_ERR_RCT = - 2"
definition JENT_ERR_APT :: int where "JENT_ERR_APT = - 3"
definition JENT_ERR_NOTIME :: int where "JENT_ERR_NOTIME = - 4"
definition JENT_ERR_LAG :: int where "JENT_ERR_LAG = - 5"
definition JENT_ERR_RCT_PERMANENT :: int where "JENT_ERR_RCT_PERMANENT = - 6"
definition JENT_ERR_APT_PERMANENT :: int where "JENT_ERR_APT_PERMANENT = - 7"
definition JENT_ERR_LAG_PERMANENT :: int where "JENT_ERR_LAG_PERMANENT = - 8"
definition JENT_ERR_RCT_MEM :: int where "JENT_ERR_RCT_MEM = - 9"
definition JENT_ERR_RCT_MEM_PERMANENT :: int where "JENT_ERR_RCT_MEM_PERMANENT = - 10"
definition JENT_ERR_SELFTEST :: int where "JENT_ERR_SELFTEST = - 11"

lemmas read_errors = JENT_ERR_EINVAL_def JENT_ERR_RCT_def JENT_ERR_APT_def JENT_ERR_NOTIME_def
  JENT_ERR_LAG_def JENT_ERR_RCT_PERMANENT_def JENT_ERR_APT_PERMANENT_def
  JENT_ERR_LAG_PERMANENT_def JENT_ERR_RCT_MEM_def JENT_ERR_RCT_MEM_PERMANENT_def
  JENT_ERR_SELFTEST_def

subsection \<open>Failure masks of the health tests\<close>

definition JENT_RCT_FAILURE :: u32 where "JENT_RCT_FAILURE = 1"
definition JENT_APT_FAILURE :: u32 where "JENT_APT_FAILURE = 2"
definition JENT_LAG_FAILURE :: u32 where "JENT_LAG_FAILURE = 4"
definition JENT_RCT_MEM_FAILURE :: u32 where "JENT_RCT_MEM_FAILURE = 8"

definition JENT_PERMANENT_FAILURE :: "u32 \<Rightarrow> u32" where
  "JENT_PERMANENT_FAILURE x = push_bit 16 x"

definition JENT_RCT_FAILURE_PERMANENT :: u32 where
  "JENT_RCT_FAILURE_PERMANENT = JENT_PERMANENT_FAILURE JENT_RCT_FAILURE"
definition JENT_APT_FAILURE_PERMANENT :: u32 where
  "JENT_APT_FAILURE_PERMANENT = JENT_PERMANENT_FAILURE JENT_APT_FAILURE"
definition JENT_LAG_FAILURE_PERMANENT :: u32 where
  "JENT_LAG_FAILURE_PERMANENT = JENT_PERMANENT_FAILURE JENT_LAG_FAILURE"
definition JENT_RCT_MEM_FAILURE_PERMANENT :: u32 where
  "JENT_RCT_MEM_FAILURE_PERMANENT = JENT_PERMANENT_FAILURE JENT_RCT_MEM_FAILURE"

lemmas failure_masks = JENT_RCT_FAILURE_def JENT_APT_FAILURE_def JENT_LAG_FAILURE_def
  JENT_RCT_MEM_FAILURE_def JENT_RCT_FAILURE_PERMANENT_def JENT_APT_FAILURE_PERMANENT_def
  JENT_LAG_FAILURE_PERMANENT_def JENT_RCT_MEM_FAILURE_PERMANENT_def JENT_PERMANENT_FAILURE_def

declare JENT_DISABLE_MEMORY_ACCESS_def [flag_defs] JENT_FORCE_INTERNAL_TIMER_def [flag_defs]
  JENT_DISABLE_INTERNAL_TIMER_def [flag_defs] JENT_FORCE_FIPS_def [flag_defs]
  JENT_NTG1_def [flag_defs] JENT_CACHE_ALL_def [flag_defs] JENT_FORCE_SECURE_MEM_def [flag_defs]
  JENT_INT_MEASURE_CLOCK_def [flag_defs]

end
