(* ===== verification/Jent_Rand_Data.thy ===== *)
theory Jent_Rand_Data
  imports Jent_Sha3 Jent_Header "HOL-Library.Multiset"
begin

text \<open>
  The entropy collector \<^verbatim>\<open>struct rand_data\<close> of \<^verbatim>\<open>src/jitterentropy-internal.h\<close>, field by field, in the
  build with the lag predictor and the internal timer, and the world a collector runs in.

  The world is one record. Its first part is what the code reads from outside: the successive
  readings of the platform clock (\<^verbatim>\<open>jent_get_nstime\<close>), the successive values the counting thread has
  put into \<^verbatim>\<open>notime_timer\<close> when it is polled, which allocations succeed, the results of the operating
  system interfaces. These are streams indexed by a position, so that nothing is assumed about them;
  a property that needs something of the clock states it as a hypothesis. Then comes the memory the
  library has allocated and not freed. The last part is the static variables of the library.
\<close>

subsection \<open>The entropy collector\<close>

datatype jent_startup_state = jent_startup_completed | jent_startup_sha3 | jent_startup_memory

record rand_data =
  ec_hash_state :: jent_sha_ctx
  ec_prev_time :: u64
  ec_flags :: u32
  ec_osr :: u32
  ec_uuid :: string
  ec_reinit_count :: u32
  ec_read_invocations :: u64
  ec_bytes_output :: u64
  ec_startup_state :: jent_startup_state
  ec_mem :: "u8 list option"
  ec_memmask :: u32
  ec_memlocation :: u32
  ec_memaccessloops :: u32
  ec_hashloopcnt :: u32
  ec_rct_count :: u32
  ec_rct_cutoff :: u16
  ec_rct_cutoff_permanent :: u16
  ec_apt_cutoff :: u32
  ec_apt_cutoff_permanent :: u32
  ec_apt_observations :: u32
  ec_apt_count :: u32
  ec_apt_base :: u64
  ec_health_failure :: u32
  ec_rct_mem_ctr :: u16
  ec_rct_mem_nosr :: u16
  ec_rct_mem_count :: u16
  ec_rct_mem_cutoff :: u16
  ec_rct_mem_cutoff_permanent :: u16
  ec_selftest_failed :: bool
  ec_apt_base_set :: bool
  ec_is_fips_enabled :: bool
  ec_enable_notime :: bool
  ec_max_mem_set :: bool
  ec_in_recovery :: bool
  ec_stuck_prime :: "2 word"
  ec_notime_running :: bool
  ec_notime_interrupt :: bool
  ec_notime_prev_timer :: u64
  ec_notime_thread_ctx :: "u64 option"
  ec_common_timer_gcd :: u64
  ec_lag_global_cutoff :: u32
  ec_lag_global_cutoff_permanent :: u32
  ec_lag_local_cutoff :: u32
  ec_lag_local_cutoff_permanent :: u32
  ec_lag_prediction_success_count :: u32
  ec_lag_prediction_success_run :: u32
  ec_lag_best_predictor :: u32
  ec_lag_observations :: u32
  ec_lag_delta_history :: "u64 list"
  ec_lag_scoreboard :: "u32 list"

definition JENT_APT_WINDOW_SIZE :: u32 where "JENT_APT_WINDOW_SIZE = 512"
definition JENT_LAG_WINDOW_SIZE :: u32 where "JENT_LAG_WINDOW_SIZE = 0x20000"
definition JENT_LAG_HISTORY_SIZE :: u32 where "JENT_LAG_HISTORY_SIZE = 8"
definition JENT_LAG_MASK :: u32 where "JENT_LAG_MASK = JENT_LAG_HISTORY_SIZE - 1"
definition JENT_MEMORY_BLOCKSIZE :: u32 where "JENT_MEMORY_BLOCKSIZE = 128"
definition JENT_APT_MASK :: u64 where "JENT_APT_MASK = 0xffffffffffffffff"
definition DATA_SIZE_BITS :: nat where "DATA_SIZE_BITS = JENT_SHA3_256_SIZE_DIGEST_BITS"
definition ENTROPY_SAFETY_FACTOR :: u32 where "ENTROPY_SAFETY_FACTOR = 64 + 1"

text \<open>What \<^verbatim>\<open>jent_zalloc(sizeof(struct rand_data))\<close> returns: every field zero.\<close>

definition zero_rand_data :: rand_data where
  "zero_rand_data = \<lparr>ec_hash_state = zero_sha_ctx, ec_prev_time = 0, ec_flags = 0, ec_osr = 0,
     ec_uuid = replicate 37 (CHR 0x00), ec_reinit_count = 0, ec_read_invocations = 0,
     ec_bytes_output = 0, ec_startup_state = jent_startup_completed, ec_mem = None,
     ec_memmask = 0, ec_memlocation = 0, ec_memaccessloops = 0, ec_hashloopcnt = 0,
     ec_rct_count = 0, ec_rct_cutoff = 0, ec_rct_cutoff_permanent = 0, ec_apt_cutoff = 0,
     ec_apt_cutoff_permanent = 0, ec_apt_observations = 0, ec_apt_count = 0, ec_apt_base = 0,
     ec_health_failure = 0, ec_rct_mem_ctr = 0, ec_rct_mem_nosr = 0, ec_rct_mem_count = 0,
     ec_rct_mem_cutoff = 0, ec_rct_mem_cutoff_permanent = 0, ec_selftest_failed = False,
     ec_apt_base_set = False, ec_is_fips_enabled = False, ec_enable_notime = False,
     ec_max_mem_set = False, ec_in_recovery = False, ec_stuck_prime = 0,
     ec_notime_running = False, ec_notime_interrupt = False, ec_notime_prev_timer = 0,
     ec_notime_thread_ctx = None, ec_common_timer_gcd = 0, ec_lag_global_cutoff = 0,
     ec_lag_global_cutoff_permanent = 0, ec_lag_local_cutoff = 0,
     ec_lag_local_cutoff_permanent = 0, ec_lag_prediction_success_count = 0,
     ec_lag_prediction_success_run = 0, ec_lag_best_predictor = 0, ec_lag_observations = 0,
     ec_lag_delta_history = replicate 8 0, ec_lag_scoreboard = replicate 8 0\<rparr>"

lemma zero_rand_data_simps [simp]:
  "ec_hash_state zero_rand_data = zero_sha_ctx"
  "ec_prev_time zero_rand_data = 0"
  "ec_flags zero_rand_data = 0"
  "ec_osr zero_rand_data = 0"
  "ec_uuid zero_rand_data = replicate 37 (CHR 0x00)"
  "ec_reinit_count zero_rand_data = 0"
  "ec_read_invocations zero_rand_data = 0"
  "ec_bytes_output zero_rand_data = 0"
  "ec_startup_state zero_rand_data = jent_startup_completed"
  "ec_mem zero_rand_data = None"
  "ec_memmask zero_rand_data = 0"
  "ec_memlocation zero_rand_data = 0"
  "ec_memaccessloops zero_rand_data = 0"
  "ec_hashloopcnt zero_rand_data = 0"
  "ec_rct_count zero_rand_data = 0"
  "ec_rct_cutoff zero_rand_data = 0"
  "ec_rct_cutoff_permanent zero_rand_data = 0"
  "ec_apt_cutoff zero_rand_data = 0"
  "ec_apt_cutoff_permanent zero_rand_data = 0"
  "ec_apt_observations zero_rand_data = 0"
  "ec_apt_count zero_rand_data = 0"
  "ec_apt_base zero_rand_data = 0"
  "ec_health_failure zero_rand_data = 0"
  "ec_rct_mem_ctr zero_rand_data = 0"
  "ec_rct_mem_nosr zero_rand_data = 0"
  "ec_rct_mem_count zero_rand_data = 0"
  "ec_rct_mem_cutoff zero_rand_data = 0"
  "ec_rct_mem_cutoff_permanent zero_rand_data = 0"
  "ec_selftest_failed zero_rand_data = False"
  "ec_apt_base_set zero_rand_data = False"
  "ec_is_fips_enabled zero_rand_data = False"
  "ec_enable_notime zero_rand_data = False"
  "ec_max_mem_set zero_rand_data = False"
  "ec_in_recovery zero_rand_data = False"
  "ec_stuck_prime zero_rand_data = 0"
  "ec_notime_running zero_rand_data = False"
  "ec_notime_interrupt zero_rand_data = False"
  "ec_notime_prev_timer zero_rand_data = 0"
  "ec_notime_thread_ctx zero_rand_data = None"
  "ec_common_timer_gcd zero_rand_data = 0"
  "ec_lag_global_cutoff zero_rand_data = 0"
  "ec_lag_global_cutoff_permanent zero_rand_data = 0"
  "ec_lag_local_cutoff zero_rand_data = 0"
  "ec_lag_local_cutoff_permanent zero_rand_data = 0"
  "ec_lag_prediction_success_count zero_rand_data = 0"
  "ec_lag_prediction_success_run zero_rand_data = 0"
  "ec_lag_best_predictor zero_rand_data = 0"
  "ec_lag_observations zero_rand_data = 0"
  "ec_lag_delta_history zero_rand_data = replicate 8 0"
  "ec_lag_scoreboard zero_rand_data = replicate 8 0"
  by (simp_all add: zero_rand_data_def)

subsection \<open>The world\<close>

text \<open>The registered handler of the counting thread: the builtin one, recognized by its address, or
  one the application registered.\<close>

datatype notime_handler = Notime_Builtin | Notime_External nat

text \<open>The size of an allocated block: that of one of the two structures, or a number of bytes.\<close>

datatype mem_size = Sizeof_rand_data | Sizeof_notime_ctx | Bytes nat

record jent_env =
  env_clock :: "nat \<Rightarrow> u64"
  env_clock_pos :: nat
  env_ticks :: "nat \<Rightarrow> u64"
  env_tick_pos :: nat
  env_stk :: jent_sha_ctx
  env_zalloc :: "nat \<Rightarrow> u32 \<Rightarrow> bool"
  env_zalloc_pos :: nat
  env_zalloc_unlocked :: "nat \<Rightarrow> u32 \<Rightarrow> bool"
  env_ncpu :: int
  env_cpu_highest :: int
  env_thread_start :: "nat \<Rightarrow> int"
  env_thread_pos :: nat
  env_external_init :: "nat \<Rightarrow> int \<times> u64 option"
  env_fips :: bool
  env_cache :: "bool \<Rightarrow> u64"
  env_random :: "nat \<Rightarrow> u8 list option"
  env_random_pos :: nat
  env_heap :: "mem_size multiset"
  env_bad_free :: bool
  g_timer_gcd :: "u32 list"
  g_selftest_run :: bool
  g_force_internal_timer :: bool
  g_notime_switch_blocked :: bool
  g_notime_cpu :: "u64 option"
  g_notime_thread :: notime_handler
  g_health_cb_switch_blocked :: bool
  g_fips_cb :: "nat option"
  g_fips_cb_calls :: "(nat \<times> u32) list"
  g_uuid_counter :: u32

text \<open>One reading of the platform clock.\<close>

definition jent_get_nstime :: "jent_env \<Rightarrow> u64 \<times> jent_env" where
  "jent_get_nstime env =
     (env_clock env (env_clock_pos env), env\<lparr>env_clock_pos := Suc (env_clock_pos env)\<rparr>)"

text \<open>One allocation of the secure allocator with the flags of the collector, and one of the
  unlocked allocator for a memory region of the given size: whether it succeeds. A block that was
  allocated is live.\<close>

definition alloc_block :: "bool \<Rightarrow> mem_size \<Rightarrow> jent_env \<Rightarrow> jent_env" where
  "alloc_block ok len env = env\<lparr>env_zalloc_pos := Suc (env_zalloc_pos env),
     env_heap := (if ok then add_mset len (env_heap env) else env_heap env)\<rparr>"

definition jent_zalloc :: "mem_size \<Rightarrow> u32 \<Rightarrow> jent_env \<Rightarrow> bool \<times> jent_env" where
  "jent_zalloc len flags env =
     (let ok = env_zalloc env (env_zalloc_pos env) flags in (ok, alloc_block ok len env))"

definition jent_zalloc_unlocked :: "u32 \<Rightarrow> jent_env \<Rightarrow> bool \<times> jent_env" where
  "jent_zalloc_unlocked len env =
     (let ok = env_zalloc_unlocked env (env_zalloc_pos env) len in (ok, alloc_block ok (Bytes (unat len)) env))"

text \<open>The wiping deallocator, on a block of size \<open>blk\<close> and told to wipe and free \<open>len\<close> bytes. A call
  with a wrong size, or for a block that is not live, is recorded as an error of the program.\<close>

definition jent_zfree :: "mem_size \<Rightarrow> mem_size \<Rightarrow> jent_env \<Rightarrow> jent_env" where
  "jent_zfree blk len env =
     (if blk = len \<and> blk \<in># env_heap env then env\<lparr>env_heap := env_heap env - {#blk#}\<rparr>
      else env\<lparr>env_bad_free := True\<rparr>)"

text \<open>A world to evaluate the model in: the static variables as the program starts, every allocation
  succeeding, nothing allocated yet, a clock that stands still, no CSPRNG.\<close>

definition start_env :: jent_env where
  "start_env = \<lparr>env_clock = (\<lambda>_. 0), env_clock_pos = 0, env_ticks = (\<lambda>_. 0), env_tick_pos = 0,
     env_stk = zero_sha_ctx, env_zalloc = (\<lambda>_ _. True), env_zalloc_pos = 0,
     env_zalloc_unlocked = (\<lambda>_ _. True), env_ncpu = 1, env_cpu_highest = 0,
     env_thread_start = (\<lambda>_. 0), env_thread_pos = 0, env_external_init = (\<lambda>_. (0, None)),
     env_fips = False, env_cache = (\<lambda>_. 0), env_random = (\<lambda>_. None), env_random_pos = 0,
     env_heap = {#}, env_bad_free = False, g_timer_gcd = [0, 0], g_selftest_run = False, g_force_internal_timer = False,
     g_notime_switch_blocked = False, g_notime_cpu = None, g_notime_thread = Notime_Builtin,
     g_health_cb_switch_blocked = False, g_fips_cb = None, g_fips_cb_calls = [],
     g_uuid_counter = 0\<rparr>"

end
