(* ===== verification/Jent_Gcd.thy ===== *)
theory Jent_Gcd
  imports Jent_Rand_Data
begin

text \<open>
  \<^verbatim>\<open>src/jitterentropy-gcd.c\<close>: the common divisor of the deltas of a clock, which the startup
  measures and every collector on that clock divides by. The divisors of the two clocks are the
  process-wide array \<open>jent_common_timer_gcd\<close>, here a list of two words that the operations take and
  return. A delta history is \<open>None\<close> for the null pointer, and its first \<open>nelem\<close> elements are read.
\<close>

subsection \<open>Definitions\<close>

definition JENT_GCD_CLOCK_PLATFORM :: nat where "JENT_GCD_CLOCK_PLATFORM = 0"
definition JENT_GCD_CLOCK_NOTIME :: nat where "JENT_GCD_CLOCK_NOTIME = 1"
definition JENT_GCD_CLOCKS :: nat where "JENT_GCD_CLOCKS = 2"

text \<open>The initial value of \<^verbatim>\<open>jent_common_timer_gcd\<close>.\<close>

definition jent_common_timer_gcd_init :: "u32 list" where
  "jent_common_timer_gcd_init = replicate JENT_GCD_CLOCKS 0"

definition jent_udiv64 :: "u64 \<Rightarrow> u64 \<Rightarrow> u64" where
  "jent_udiv64 dividend divisor = dividend div divisor"

definition jent_umod64 :: "u64 \<Rightarrow> u64 \<Rightarrow> u64" where
  "jent_umod64 dividend divisor = dividend mod divisor"

definition jent_gcd_clock :: "bool \<Rightarrow> nat" where
  "jent_gcd_clock notime = (if notime then JENT_GCD_CLOCK_NOTIME else JENT_GCD_CLOCK_PLATFORM)"

definition jent_gcd_tested :: "u32 list \<Rightarrow> nat \<Rightarrow> bool" where
  "jent_gcd_tested tbl clock \<longleftrightarrow> tbl ! clock \<noteq> 0"

text \<open>The inner loop of the Euclidean algorithm.\<close>

function gcd64_loop :: "u64 \<Rightarrow> u64 \<Rightarrow> u64" where
  "gcd64_loop a b = (if b \<noteq> 0 then gcd64_loop b (jent_umod64 a b) else a)"
  by pat_completeness auto
termination
  by (relation "measure (\<lambda>(a, b). unat b)")
    (auto simp: jent_umod64_def unat_mod unat_gt_0)

declare gcd64_loop.simps [simp del]

definition jent_gcd64 :: "u64 \<Rightarrow> u64 \<Rightarrow> u64" where
  "jent_gcd64 a b = (if a < b then gcd64_loop b a else gcd64_loop a b)"

definition gcd_analyze_step :: "u64 list \<Rightarrow> u64 \<times> u64 \<Rightarrow> nat \<Rightarrow> u64 \<times> u64" where
  "gcd_analyze_step h acc i =
     (let (running_gcd, delta_sum) = acc;
          delta_sum = (if h ! i \<ge> h ! (i - 1) then delta_sum + (h ! i - h ! (i - 1))
                       else delta_sum + (h ! (i - 1) - h ! i))
      in (jent_gcd64 (h ! i) running_gcd, delta_sum))"

definition jent_gcd_analyze_internal :: "u64 list option \<Rightarrow> nat \<Rightarrow> int + (u64 \<times> u64)" where
  "jent_gcd_analyze_internal delta_history nelem =
     (case delta_history of
        None \<Rightarrow> Inl (- EAGAIN)
      | Some h \<Rightarrow> if nelem = 0 then Inl (- EAGAIN)
                  else Inr (foldl (gcd_analyze_step h) (h ! 0, 0) [1..<nelem]))"

text \<open>The outcome is an error code or the divisor written through the \<^verbatim>\<open>gcd\<close> pointer.\<close>

definition jent_gcd_verdict :: "u64 list option \<Rightarrow> nat \<Rightarrow> u64 \<Rightarrow> int + u64" where
  "jent_gcd_verdict delta_history nelem osr =
     (case jent_gcd_analyze_internal delta_history nelem of
        Inl e \<Rightarrow> Inl ENOMONOTONIC
      | Inr (running_gcd, delta_sum) \<Rightarrow>
          let delta_sum = (if running_gcd \<noteq> 0 then jent_udiv64 delta_sum running_gcd else delta_sum)
          in if delta_sum * osr < of_nat nelem then Inl EMINVARVAR
             else if running_gcd \<ge> 0xffffffff div 2 then Inl ECOARSETIME
             else Inr running_gcd)"

text \<open>The compare-and-swap of the atomics header: the new value goes in only over the expected one.\<close>

definition jent_atomic_cmpxchg_u32 :: "u32 list \<Rightarrow> nat \<Rightarrow> u32 \<Rightarrow> u32 \<Rightarrow> u32 list" where
  "jent_atomic_cmpxchg_u32 tbl i old new = (if tbl ! i = old then tbl[i := new] else tbl)"

definition jent_gcd_store :: "u32 list \<Rightarrow> u64 \<Rightarrow> bool \<Rightarrow> u32 list" where
  "jent_gcd_store tbl g notime =
     (if g \<noteq> 0 then jent_atomic_cmpxchg_u32 tbl (jent_gcd_clock notime) 0 (ucast g) else tbl)"

definition jent_gcd_analyze :: "u32 list \<Rightarrow> u64 list option \<Rightarrow> nat \<Rightarrow> u64 \<Rightarrow> bool \<Rightarrow> u32 list \<times> int" where
  "jent_gcd_analyze tbl delta_history nelem osr notime =
     (case jent_gcd_verdict delta_history nelem osr of
        Inl ret \<Rightarrow> (tbl, ret)
      | Inr g \<Rightarrow> (jent_gcd_store tbl g notime, 0))"

definition jent_gcd_init :: "nat \<Rightarrow> u32 \<Rightarrow> jent_env \<Rightarrow> u64 list option \<times> jent_env" where
  "jent_gcd_init nelem flags env =
     (let (ok, env) = jent_zalloc (Bytes (nelem * 8)) flags env
      in (if ok then Some (replicate nelem 0) else None, env))"

definition jent_gcd_fini :: "u64 list option \<Rightarrow> nat \<Rightarrow> jent_env \<Rightarrow> jent_env" where
  "jent_gcd_fini delta_history nelem env =
     (case delta_history of
        None \<Rightarrow> env
      | Some h \<Rightarrow> jent_zfree (Bytes (length h * 8)) (Bytes (nelem * 8)) env)"

text \<open>The answer is the return value and what is written through the pointer.\<close>

definition jent_gcd_get :: "u32 list \<Rightarrow> bool \<Rightarrow> int \<times> u64 option" where
  "jent_gcd_get tbl notime =
     (if \<not> jent_gcd_tested tbl (jent_gcd_clock notime) then (1, None)
      else (0, Some (ucast (tbl ! jent_gcd_clock notime))))"

definition jent_gcd_add_value :: "u64 list \<Rightarrow> u64 \<Rightarrow> nat \<Rightarrow> u64 list" where
  "jent_gcd_add_value delta_history delta idx = delta_history[idx := delta]"

definition jent_gcd_selftest :: "u32 \<Rightarrow> jent_env \<Rightarrow> int \<times> jent_env" where
  "jent_gcd_selftest flags env =
     (let (h, env) = jent_gcd_init 10 flags env
      in case h of
           None \<Rightarrow> (EMEM, env)
         | Some h \<Rightarrow>
             let h = foldl (\<lambda>h i. jent_gcd_add_value h (of_nat i * 3) i) h [0..<10];
                 ret = (case jent_gcd_analyze_internal (Some h) 10 of
                          Inl e \<Rightarrow> EGCD
                        | Inr (running_gcd, delta_sum) \<Rightarrow> if running_gcd \<noteq> 3 then EGCD else 0)
             in (ret, jent_gcd_fini (Some h) 10 env))"

subsection \<open>The Euclidean algorithm\<close>

lemma gcd64_loop_gcd: "unat (gcd64_loop a b) = gcd (unat a) (unat b)"
proof (induction a b rule: gcd64_loop.induct)
  case (1 a b)
  then show ?case
    by (subst gcd64_loop.simps)
      (auto simp: jent_umod64_def unat_mod gcd_red_nat [of "unat a"])
qed

lemma gcd64_loop_0: "gcd64_loop a 0 = a"
  by (simp add: gcd64_loop.simps)

lemma gcd64_loop_numeral:
  "(numeral b :: u64) \<noteq> 0 \<Longrightarrow>
   gcd64_loop a (numeral b) = gcd64_loop (numeral b) (jent_umod64 a (numeral b))"
  by (simp add: gcd64_loop.simps [of a])

lemma jent_gcd64_gcd [simp]: "unat (jent_gcd64 a b) = gcd (unat a) (unat b)"
  by (simp add: jent_gcd64_def gcd64_loop_gcd gcd.commute)

text \<open>The two accumulators over the first elements of a history.\<close>

definition distance :: "nat \<Rightarrow> nat \<Rightarrow> nat" where
  "distance m n = (if n \<le> m then m - n else n - m)"

definition variation :: "u64 list \<Rightarrow> nat \<Rightarrow> nat" where
  "variation h n = (\<Sum>i = 1..<n. distance (unat (h ! i)) (unat (h ! (i - 1))))"

lemma abs_diff_word:
  fixes a b :: u64
  shows "(if a \<ge> b then a - b else b - a) = of_nat (distance (unat a) (unat b))"
  by (simp add: distance_def word_le_nat_alt)

lemma analyze_foldl:
  "foldl (gcd_analyze_step h) (h ! 0, 0) [1..<Suc n] = (g, s) \<Longrightarrow>
   unat g = Gcd ((\<lambda>i. unat (h ! i)) ` {..n}) \<and> s = of_nat (variation h (Suc n))"
proof (induction n arbitrary: g s)
  case 0
  then show ?case
    by (simp add: variation_def)
next
  case (Suc n)
  obtain g' s' where p: "foldl (gcd_analyze_step h) (h ! 0, 0) [1..<Suc n] = (g', s')"
    by (metis surj_pair)
  note IH = Suc.IH [OF p]
  have "gcd_analyze_step h (g', s') (Suc n) = (g, s)"
    using Suc.prems p by simp
  then have gs: "g = jent_gcd64 (h ! Suc n) g'"
    "s = s' + (if h ! Suc n \<ge> h ! n then h ! Suc n - h ! n else h ! n - h ! Suc n)"
    by (auto simp: gcd_analyze_step_def Let_def split: if_splits)
  have "s = of_nat (variation h (Suc (Suc n)))"
    unfolding gs(2) abs_diff_word using IH by (simp add: variation_def)
  moreover have "unat g = Gcd ((\<lambda>i. unat (h ! i)) ` {..Suc n})"
    using IH by (simp add: gs(1) atMost_Suc)
  ultimately show ?case
    by simp
qed

lemma analyze_internal_eq:
  assumes "0 < n"
  obtains g s where "jent_gcd_analyze_internal (Some h) n = Inr (g, s)"
    "unat g = Gcd ((\<lambda>i. unat (h ! i)) ` {..<n})" "s = of_nat (variation h n)"
proof -
  obtain m where m: "n = Suc m"
    using assms gr0_implies_Suc by blast
  obtain g s where p: "foldl (gcd_analyze_step h) (h ! 0, 0) [1..<Suc m] = (g, s)"
    by (metis surj_pair)
  from analyze_foldl [OF p] that [of g s] p show thesis
    by (simp add: m jent_gcd_analyze_internal_def lessThan_Suc_atMost)
qed

abbreviation hist_gcd :: "u64 list \<Rightarrow> nat \<Rightarrow> nat" where
  "hist_gcd h n \<equiv> Gcd ((\<lambda>i. unat (h ! i)) ` {..<n})"

lemma variation_zero: "hist_gcd h n = 0 \<Longrightarrow> variation h n = 0"
proof -
  assume "hist_gcd h n = 0"
  then have z: "h ! i = 0" if "i < n" for i
    using that by (auto simp: Gcd_0_iff unat_0_iff)
  show ?thesis
    unfolding variation_def distance_def by (auto simp: z less_imp_diff_less)
qed

text \<open>The decision of the verdict in terms of natural numbers.\<close>

definition enough_variation :: "u64 list \<Rightarrow> nat \<Rightarrow> u64 \<Rightarrow> bool" where
  "enough_variation h n osr \<longleftrightarrow>
     n \<le> (variation h n mod 2 ^ 64 div hist_gcd h n * unat osr) mod 2 ^ 64"

lemma verdict_eq:
  assumes n: "0 < n" "n < 2 ^ 64"
  shows "jent_gcd_verdict (Some h) n osr =
    (if \<not> enough_variation h n osr then Inl EMINVARVAR
     else if hist_gcd h n \<ge> 2147483647 then Inl ECOARSETIME
     else Inr (of_nat (hist_gcd h n)))"
proof -
  obtain g s where gs: "jent_gcd_analyze_internal (Some h) n = Inr (g, s)"
      "unat g = hist_gcd h n" "s = of_nat (variation h n)"
    by (rule analyze_internal_eq [OF n(1)])
  define q where "q = (if g \<noteq> 0 then jent_udiv64 s g else s)"
  have "unat q = variation h n mod 2 ^ 64 div hist_gcd h n"
    using variation_zero [of h n] gs(2,3)
    by (auto simp: q_def jent_udiv64_def unat_div unat_of_nat)
  then have "unat (q * osr) = (variation h n mod 2 ^ 64 div hist_gcd h n * unat osr) mod 2 ^ 64"
    by (simp add: unat_word_ariths)
  then have "q * osr < of_nat n \<longleftrightarrow> \<not> enough_variation h n osr"
    using n(2) by (simp add: word_less_nat_alt unat_of_nat enough_variation_def not_le
        take_bit_nat_eq_self)
  note vary = this
  have coarse: "g \<ge> 0xffffffff div 2 \<longleftrightarrow> hist_gcd h n \<ge> 2147483647"
    using gs(2) by (simp add: word_le_nat_alt)
  have g: "of_nat (hist_gcd h n) = g"
    by (simp add: gs(2) [symmetric])
  have "jent_gcd_verdict (Some h) n osr = (if q * osr < of_nat n then Inl EMINVARVAR
      else if g \<ge> 0xffffffff div 2 then Inl ECOARSETIME else Inr g)"
    using gs(1) by (simp add: jent_gcd_verdict_def Let_def q_def)
  then show ?thesis
    by (simp only: vary coarse g)
qed

lemma enough_variation_pos: "0 < n \<Longrightarrow> enough_variation h n osr \<Longrightarrow> 0 < hist_gcd h n"
  by (metis bot_nat_0.not_eq_extremum div_by_0 enough_variation_def le_zero_eq mod_0 mult_0 not_gr_zero)

subsection \<open>The divisor of a clock is set once\<close>

text \<open>What the collectors rely on: a cell that is set keeps its value, and a store over an unset
  cell sets it.\<close>

locale once_cell =
  fixes valid :: "'s \<Rightarrow> bool"
    and get :: "'s \<Rightarrow> 'k \<Rightarrow> 'v"
    and put :: "'s \<Rightarrow> 'v \<Rightarrow> 'k \<Rightarrow> 's"
    and unset :: 'v
  assumes put_valid: "valid s \<Longrightarrow> valid (put s v k)"
    and put_unset: "valid s \<Longrightarrow> get s k = unset \<Longrightarrow> get (put s v k) k = v"
    and put_set: "valid s \<Longrightarrow> get s k \<noteq> unset \<Longrightarrow> get (put s v k) k = get s k"
    and put_other: "valid s \<Longrightarrow> k \<noteq> k' \<Longrightarrow> get (put s v k') k = get s k"
begin

lemma puts_set:
  "valid s \<Longrightarrow> get s k \<noteq> unset \<Longrightarrow> get (foldl (\<lambda>s (v, k). put s v k) s ws) k = get s k"
proof (induction ws arbitrary: s)
  case (Cons w ws)
  obtain v k' where w: "w = (v, k')"
    by (cases w)
  have "get (put s v k') k = get s k"
    using Cons.prems by (cases "k = k'") (simp_all add: put_set put_other)
  with Cons.IH [OF put_valid [OF Cons.prems(1)], of v k'] Cons.prems(2) w show ?case
    by simp
qed simp

lemma first_wins:
  "valid s \<Longrightarrow> get s k = unset \<Longrightarrow>
   get (foldl (\<lambda>s (v, k). put s v k) s ws) k =
     (case filter (\<lambda>(v, k'). k' = k \<and> v \<noteq> unset) ws of [] \<Rightarrow> unset | w # _ \<Rightarrow> fst w)"
proof (induction ws arbitrary: s)
  case (Cons w ws)
  obtain v k' where w: "w = (v, k')"
    by (cases w)
  note val = put_valid [OF Cons.prems(1), of v k']
  show ?case
  proof (cases "k' = k \<and> v \<noteq> unset")
    case True
    then have "get (put s v k') k = v"
      using Cons.prems by (simp add: put_unset)
    with True w puts_set [OF val, of k ws] show ?thesis
      by simp
  next
    case False
    then have "get (put s v k') k = unset"
      using Cons.prems by (cases "k = k'") (simp_all add: put_unset put_other)
    from Cons.IH [OF val this] False w show ?thesis
      by auto
  qed
qed simp

end

definition gcd_entry :: "u32 list \<Rightarrow> bool \<Rightarrow> u32" where
  "gcd_entry tbl notime = tbl ! jent_gcd_clock notime"

lemmas gcd_clock_defs = jent_gcd_clock_def JENT_GCD_CLOCK_NOTIME_def JENT_GCD_CLOCK_PLATFORM_def
  JENT_GCD_CLOCKS_def

interpretation gcd_cell: once_cell "\<lambda>tbl. length tbl = JENT_GCD_CLOCKS" gcd_entry
  "\<lambda>tbl v notime. jent_gcd_store tbl (ucast v) notime" 0
  by unfold_locales
    (auto simp: gcd_entry_def jent_gcd_store_def jent_atomic_cmpxchg_u32_def gcd_clock_defs
      ucast_up_0_iff split: if_splits)

lemma foldl_store_ucast:
  assumes "\<forall>w\<in>set ws. fst w < 2 ^ 32"
  shows "foldl (\<lambda>t (g, k). jent_gcd_store t g k) tbl ws =
    foldl (\<lambda>t (v, k). jent_gcd_store t (ucast v) k) tbl (map (\<lambda>(g, k). (ucast g :: u32, k)) ws)"
  using assms
proof (induction ws arbitrary: tbl)
  case (Cons w ws)
  then have "ucast (ucast (fst w) :: u32) = fst w"
    by (simp add: ucast_up_down)
  with Cons show ?case
    by (cases w) simp
qed simp

subsection \<open>The properties of the divisor\<close>

text \<open>C19: the verdict on a clock. On a history of \<open>n\<close> deltas it succeeds exactly when the greatest
  common divisor of all the deltas is below 2147483647 and the sum of the differences of neighbouring
  deltas, counted in units of that divisor and multiplied by the oversampling rate (in 64-bit
  arithmetic), reaches \<open>n\<close>; the divisor returned is that greatest common divisor, it is not zero and
  it divides every delta. Otherwise the error is EMINVARVAR or ECOARSETIME, in this order.\<close>

theorem gcd_verdict_spec:
  assumes "0 < n" "n < 2 ^ 64"
  shows "jent_gcd_verdict (Some h) n osr =
      (if \<not> enough_variation h n osr then Inl EMINVARVAR
       else if hist_gcd h n \<ge> 2147483647 then Inl ECOARSETIME
       else Inr (of_nat (hist_gcd h n))) \<and>
    (\<forall>g. jent_gcd_verdict (Some h) n osr = Inr g \<longrightarrow>
       g \<noteq> 0 \<and> unat g = hist_gcd h n \<and> (\<forall>i < n. unat g dvd unat (h ! i)))"
proof -
  have "g \<noteq> 0 \<and> unat g = hist_gcd h n \<and> (\<forall>i < n. unat g dvd unat (h ! i))"
    if "jent_gcd_verdict (Some h) n osr = Inr g" for g
  proof -
    have g: "g = of_nat (hist_gcd h n)" "hist_gcd h n < 2147483647" "0 < hist_gcd h n"
      using that enough_variation_pos [OF assms(1)]
      by (auto simp: verdict_eq [OF assms] not_le split: if_splits)
    then have u: "unat g = hist_gcd h n"
      by (simp add: unat_of_nat)
    then have "unat g dvd unat (h ! i)" if "i < n" for i
      using that by (simp add: Gcd_dvd)
    with g(3) u show ?thesis
      by (metis neq0_conv unat_0_iff)
  qed
  with verdict_eq [OF assms] show ?thesis
    by simp
qed

theorem gcd_verdict_spec_witness:
  "(0 :: nat) < 3 \<and> (3 :: nat) < 2 ^ 64 \<and>
   jent_gcd_verdict (Some [4, 10, 6]) 3 3 = Inr 2"
proof -
  have "{..<3} = {0, 1, 2 :: nat}"
    by (simp add: lessThan_nat_numeral lessThan_Suc insert_commute)
  moreover have "gcd 10 6 = (2 :: nat)" "gcd 4 2 = (2 :: nat)"
    by (simp_all add: gcd_non_0_nat)
  ultimately have g: "hist_gcd [4, 10, 6] 3 = 2"
    by simp
  have "{Suc 0..<3} = {1, 2}"
    by auto
  then have "variation [4, 10, 6] 3 = 10"
    by (simp add: variation_def distance_def)
  then have "enough_variation [4, 10, 6] 3 3"
    by (simp only: enough_variation_def g) simp
  then show ?thesis
    using gcd_verdict_spec [of 3 "[4, 10, 6]" 3] by (simp only: g) simp
qed

text \<open>C20: the divisor of a clock is fixed by the first store of a non-zero divisor for that clock,
  whatever startups store afterwards on it or on the other clock; until then the divisor is reported
  as not established.\<close>

theorem gcd_store_first_wins:
  assumes "\<forall>w\<in>set ws. fst w < 2 ^ 32"
  shows "jent_gcd_get (foldl (\<lambda>t (g, k). jent_gcd_store t g k) jent_common_timer_gcd_init ws) notime =
    (case filter (\<lambda>(g, k). k = notime \<and> g \<noteq> 0) ws of [] \<Rightarrow> (1, None) | w # _ \<Rightarrow> (0, Some (fst w)))"
proof -
  let ?put = "\<lambda>t (g, k). jent_gcd_store t g k"
  let ?ws = "map (\<lambda>(g, k). (ucast g :: u32, k)) ws"
  have entry: "gcd_entry (foldl ?put jent_common_timer_gcd_init ws) notime =
      (case filter (\<lambda>(v, k). k = notime \<and> v \<noteq> 0) ?ws of [] \<Rightarrow> 0 | w # _ \<Rightarrow> fst w)"
    unfolding foldl_store_ucast [OF assms]
    by (rule gcd_cell.first_wins)
      (simp_all add: jent_common_timer_gcd_init_def gcd_entry_def gcd_clock_defs)
  have up: "ucast (ucast g :: u32) = g" if "(g, k) \<in> set ws" for g k
    using bspec [OF assms that] by (intro ucast_up_down) simp
  then have nz: "(ucast g :: u32) = 0 \<longleftrightarrow> g = 0" if "(g, k) \<in> set ws" for g k
    using that ucast_up_0_iff [of "ucast g"] by metis
  have "filter (\<lambda>(v, k). k = notime \<and> v \<noteq> 0) ?ws =
      map (\<lambda>(g, k). (ucast g, k)) (filter (\<lambda>(g, k). k = notime \<and> g \<noteq> 0) ws)"
    unfolding filter_map by (rule arg_cong [OF filter_cong]) (auto simp: nz)
  note entry = entry [unfolded this]
  show ?thesis
  proof (cases "filter (\<lambda>(g, k). k = notime \<and> g \<noteq> 0) ws")
    case Nil
    with entry show ?thesis
      by (simp add: jent_gcd_get_def jent_gcd_tested_def gcd_entry_def)
  next
    case (Cons w r)
    obtain g k where w: "w = (g, k)"
      by (cases w)
    have "(g, k) \<in> set (filter (\<lambda>(g, k). k = notime \<and> g \<noteq> 0) ws)"
      by (simp add: Cons w)
    then have g: "(ucast g :: u32) \<noteq> 0" "ucast (ucast g :: u32) = g"
      using nz [of g k] up [of g k] by auto
    from entry Cons w g show ?thesis
      by (simp add: jent_gcd_get_def jent_gcd_tested_def gcd_entry_def)
  qed
qed

theorem gcd_store_first_wins_witness:
  "jent_gcd_get (foldl (\<lambda>t (g, k). jent_gcd_store t g k) jent_common_timer_gcd_init
     [(0, False), (5, True), (10, False), (7, False)]) False = (0, Some 10)"
  using gcd_store_first_wins [of "[(0, False), (5, True), (10, False), (7, False)]" False] by simp

text \<open>The self test passes whenever its memory can be allocated.\<close>

lemma gcd_selftest_passes:
  "fst (jent_gcd_selftest flags env) = (if env_zalloc env (env_zalloc_pos env) flags then 0 else EMEM)"
proof -
  have "[0..<10] = [0, 1, 2, 3, 4, 5, 6, 7, 8, 9]" "[1..<10] = [1, 2, 3, 4, 5, 6, 7, 8, 9]"
    by (simp_all add: upt_conv_Cons)
  moreover have "replicate 10 (0 :: u64) = [0, 0, 0, 0, 0, 0, 0, 0, 0, 0]"
    by (simp add: numeral_eq_Suc)
  ultimately show ?thesis
    by (simp add: jent_gcd_selftest_def jent_gcd_init_def jent_zalloc_def jent_gcd_add_value_def
        jent_gcd_analyze_internal_def gcd_analyze_step_def jent_gcd64_def gcd64_loop_0
        gcd64_loop_numeral jent_umod64_def Let_def)
qed

end
