(* ===== verification/Jent_Health.thy ===== *)
theory Jent_Health
  imports Jent_Rand_Data Jent_Gcd
begin

text \<open>
  \<^verbatim>\<open>src/jitterentropy-health.c\<close>: the lag predictor, the adaptive proportion test (APT), the
  repetition count test (RCT), the RCT with memory, the stuck test that feeds them, and their
  initialization, duplication and reporting, in the order of the file.

  The RCT with memory calls \<^verbatim>\<open>jent_random_data\<close>, which is defined on top of this theory: it is the
  parameter \<open>random_data\<close> of the operations that reach it. Those operations return \<open>None\<close> when the
  parameter does.
\<close>

subsection \<open>Failure callback\<close>

definition jent_health_cb_block_switch :: "jent_env \<Rightarrow> jent_env" where
  "jent_health_cb_block_switch env = env\<lparr>g_health_cb_switch_blocked := True\<rparr>"

definition jent_set_fips_failure_callback_internal :: "nat option \<Rightarrow> jent_env \<Rightarrow> int \<times> jent_env" where
  "jent_set_fips_failure_callback_internal cb env =
     (if g_health_cb_switch_blocked env then (- EAGAIN, env)
      else (0, env\<lparr>g_fips_cb := cb\<rparr>))"

subsection \<open>Lag predictor\<close>

definition jent_lag_global_cutoff_lookup :: "u32 list" where
  "jent_lag_global_cutoff_lookup =
     [66444, 93505, 104762, 110876, 114708, 117331, 119238, 120687, 121824, 122740,
      123494, 124125, 124661, 125121, 125521, 125872, 126182, 126458, 126705, 126927]"

definition jent_lag_global_cutoff_permanent_lookup :: "u32 list" where
  "jent_lag_global_cutoff_permanent_lookup =
     [66877, 93897, 105109, 111189, 114994, 117597, 119487, 120921, 122046, 122952,
      123697, 124319, 124848, 125302, 125696, 126042, 126347, 126618, 126861, 127080]"

definition jent_lag_local_cutoff_lookup :: "u32 list" where
  "jent_lag_local_cutoff_lookup =
     [38, 75, 111, 146, 181, 215, 250, 284, 318, 351,
      385, 419, 452, 485, 518, 551, 584, 617, 650, 683]"

definition jent_lag_local_cutoff_permanent_lookup :: "u32 list" where
  "jent_lag_local_cutoff_permanent_lookup =
     [60, 119, 177, 234, 291, 347, 404, 460, 516, 571,
      627, 683, 738, 793, 848, 903, 958, 1013, 1068, 1123]"

definition jent_lag_init :: "rand_data \<Rightarrow> u32 \<Rightarrow> rand_data" where
  "jent_lag_init ec osr = ec\<lparr>
     ec_lag_global_cutoff := jent_lag_global_cutoff_lookup ! unat (osr - 1),
     ec_lag_global_cutoff_permanent := jent_lag_global_cutoff_permanent_lookup ! unat (osr - 1),
     ec_lag_local_cutoff := jent_lag_local_cutoff_lookup ! unat (osr - 1),
     ec_lag_local_cutoff_permanent := jent_lag_local_cutoff_permanent_lookup ! unat (osr - 1)\<rparr>"

definition jent_lag_reset :: "rand_data \<Rightarrow> rand_data" where
  "jent_lag_reset ec = ec\<lparr>
     ec_lag_prediction_success_count := 0,
     ec_lag_prediction_success_run := 0,
     ec_lag_best_predictor := 0,
     ec_lag_observations := 0,
     ec_lag_scoreboard := replicate (unat JENT_LAG_HISTORY_SIZE) 0,
     ec_lag_delta_history := replicate (unat JENT_LAG_HISTORY_SIZE) 0\<rparr>"

definition JENT_LAG_HISTORY :: "rand_data \<Rightarrow> u32 \<Rightarrow> u64" where
  "JENT_LAG_HISTORY ec loc =
     ec_lag_delta_history ec ! unat ((ec_lag_observations ec - loc - 1) AND JENT_LAG_MASK)"

text \<open>The guess of the current best predictor and its effect on the counters and the verdict.\<close>

definition lag_judge :: "rand_data \<Rightarrow> u64 \<Rightarrow> rand_data" where
  "lag_judge ec current_delta =
     (if JENT_LAG_HISTORY ec (ec_lag_best_predictor ec) = current_delta
      then let ec = ec\<lparr>ec_lag_prediction_success_count := ec_lag_prediction_success_count ec + 1,
                       ec_lag_prediction_success_run := ec_lag_prediction_success_run ec + 1\<rparr>
           in if ec_lag_prediction_success_run ec \<ge> ec_lag_local_cutoff_permanent ec \<or>
                 ec_lag_prediction_success_count ec \<ge> ec_lag_global_cutoff_permanent ec
              then ec\<lparr>ec_health_failure := ec_health_failure ec OR JENT_LAG_FAILURE_PERMANENT\<rparr>
              else if ec_lag_prediction_success_run ec \<ge> ec_lag_local_cutoff ec \<or>
                      ec_lag_prediction_success_count ec \<ge> ec_lag_global_cutoff ec
              then ec\<lparr>ec_health_failure := ec_health_failure ec OR JENT_LAG_FAILURE\<rparr>
              else ec
      else ec\<lparr>ec_lag_prediction_success_run := 0\<rparr>)"

text \<open>One iteration of the loop that scores the predictors.\<close>

definition lag_score :: "u64 \<Rightarrow> rand_data \<Rightarrow> nat \<Rightarrow> rand_data" where
  "lag_score current_delta ec i =
     (if JENT_LAG_HISTORY ec (of_nat i) = current_delta
      then let ec = ec\<lparr>ec_lag_scoreboard := (ec_lag_scoreboard ec)[i := ec_lag_scoreboard ec ! i + 1]\<rparr>
           in if ec_lag_scoreboard ec ! i > ec_lag_scoreboard ec ! unat (ec_lag_best_predictor ec)
              then ec\<lparr>ec_lag_best_predictor := of_nat i\<rparr> else ec
      else ec)"

definition jent_lag_insert :: "rand_data \<Rightarrow> u64 \<Rightarrow> rand_data" where
  "jent_lag_insert ec current_delta =
     (if ec_lag_observations ec < JENT_LAG_HISTORY_SIZE
      then ec\<lparr>ec_lag_delta_history :=
                (ec_lag_delta_history ec)[unat (ec_lag_observations ec) := current_delta],
              ec_lag_observations := ec_lag_observations ec + 1\<rparr>
      else let ec = lag_judge ec current_delta;
               ec = foldl (lag_score current_delta) ec [0..<unat JENT_LAG_HISTORY_SIZE];
               ec = ec\<lparr>ec_lag_delta_history := (ec_lag_delta_history ec)
                         [unat (ec_lag_observations ec AND JENT_LAG_MASK) := current_delta],
                       ec_lag_observations := ec_lag_observations ec + 1\<rparr>
           in if ec_lag_observations ec \<ge> JENT_LAG_WINDOW_SIZE then jent_lag_reset ec else ec)"

definition jent_delta :: "u64 \<Rightarrow> u64 \<Rightarrow> u64" where
  "jent_delta prev nxt = nxt - prev"

definition jent_delta2 :: "rand_data \<Rightarrow> u64 \<Rightarrow> u64" where
  "jent_delta2 ec current_delta = jent_delta (JENT_LAG_HISTORY ec 0) current_delta"

definition jent_delta3 :: "rand_data \<Rightarrow> u64 \<Rightarrow> u64" where
  "jent_delta3 ec delta2 =
     jent_delta (jent_delta (JENT_LAG_HISTORY ec 1) (JENT_LAG_HISTORY ec 0)) delta2"

definition jent_lag_duplicate :: "rand_data \<Rightarrow> rand_data \<Rightarrow> rand_data" where
  "jent_lag_duplicate new_ec old_ec = new_ec\<lparr>
     ec_lag_prediction_success_run := ec_lag_prediction_success_run old_ec,
     ec_lag_prediction_success_count := ec_lag_prediction_success_count old_ec,
     ec_lag_best_predictor := ec_lag_best_predictor old_ec,
     ec_lag_observations := ec_lag_observations old_ec,
     ec_lag_scoreboard := ec_lag_scoreboard old_ec,
     ec_lag_delta_history := ec_lag_delta_history old_ec\<rparr>"

subsection \<open>Adaptive proportion test\<close>

definition jent_apt_cutoff_lookup :: "u32 list" where
  "jent_apt_cutoff_lookup =
     [325, 422, 459, 477, 488, 494, 499, 502, 505, 507,
      508, 509, 510, 511, 512, 512, 512, 512, 512, 512]"

definition jent_apt_cutoff_permanent_lookup :: "u32 list" where
  "jent_apt_cutoff_permanent_lookup =
     [355, 447, 479, 494, 502, 507, 510, 512, 512, 512,
      512, 512, 512, 512, 512, 512, 512, 512, 512, 512]"

definition jent_apt_init :: "rand_data \<Rightarrow> rand_data" where
  "jent_apt_init ec = ec\<lparr>
     ec_apt_cutoff := jent_apt_cutoff_lookup ! unat (ec_osr ec - 1),
     ec_apt_cutoff_permanent := jent_apt_cutoff_permanent_lookup ! unat (ec_osr ec - 1)\<rparr>"

definition jent_apt_cutoff_lookup_ntg1 :: "u32 list" where
  "jent_apt_cutoff_lookup_ntg1 =
     [17, 71, 136, 191, 236, 272, 301, 325, 345, 361,
      375, 388, 398, 407, 415, 422, 429, 434, 439, 444]"

definition jent_apt_cutoff_permanent_lookup_ntg1 :: "u32 list" where
  "jent_apt_cutoff_permanent_lookup_ntg1 =
     [26, 92, 162, 221, 267, 303, 332, 355, 375, 390,
      404, 415, 425, 433, 440, 447, 453, 458, 462, 466]"

definition jent_apt_init_ntg1 :: "rand_data \<Rightarrow> rand_data" where
  "jent_apt_init_ntg1 ec = ec\<lparr>
     ec_apt_cutoff := jent_apt_cutoff_lookup_ntg1 ! unat (ec_osr ec - 1),
     ec_apt_cutoff_permanent := jent_apt_cutoff_permanent_lookup_ntg1 ! unat (ec_osr ec - 1)\<rparr>"

definition jent_apt_reinit :: "rand_data \<Rightarrow> u64 \<Rightarrow> u32 \<Rightarrow> u32 \<Rightarrow> rand_data" where
  "jent_apt_reinit ec current_delta apt_count apt_observations = ec\<lparr>
     ec_apt_base := current_delta,
     ec_apt_base_set := True,
     ec_apt_count := (if apt_count \<noteq> 0 then apt_count else ec_apt_cutoff ec),
     ec_apt_observations := apt_observations\<rparr>"

definition jent_apt_duplicate :: "rand_data \<Rightarrow> rand_data \<Rightarrow> rand_data" where
  "jent_apt_duplicate new_ec old_ec =
     (if ec_apt_observations old_ec \<noteq> 0
      then jent_apt_reinit new_ec (ec_apt_base old_ec) 0 (ec_apt_observations old_ec)
      else new_ec)"

definition jent_apt_reset :: "rand_data \<Rightarrow> rand_data" where
  "jent_apt_reset ec = ec\<lparr>ec_apt_base_set := False\<rparr>"

definition jent_apt_insert :: "rand_data \<Rightarrow> u64 \<Rightarrow> rand_data" where
  "jent_apt_insert ec delta =
     (let current_delta = delta AND JENT_APT_MASK
      in if \<not> ec_apt_base_set ec then jent_apt_reinit ec current_delta 1 1
         else let ec = (if current_delta = ec_apt_base ec
                        then let ec = ec\<lparr>ec_apt_count := ec_apt_count ec + 1\<rparr>
                             in if ec_apt_count ec \<ge> ec_apt_cutoff_permanent ec
                                then ec\<lparr>ec_health_failure :=
                                          ec_health_failure ec OR JENT_APT_FAILURE_PERMANENT\<rparr>
                                else if ec_apt_count ec = ec_apt_cutoff ec
                                then ec\<lparr>ec_health_failure := ec_health_failure ec OR JENT_APT_FAILURE\<rparr>
                                else ec
                        else ec);
                  ec = ec\<lparr>ec_apt_observations := ec_apt_observations ec + 1\<rparr>
              in if ec_apt_observations ec \<ge> JENT_APT_WINDOW_SIZE then jent_apt_reset ec else ec)"

subsection \<open>Repetition count test with memory\<close>

definition JENT_RCT_MEM_RECOVERY_LOOP_CNT :: nat where
  "JENT_RCT_MEM_RECOVERY_LOOP_CNT = 10"

definition jent_rct_mem_cutoff_lookup :: "u16 list" where
  "jent_rct_mem_cutoff_lookup =
     [107, 214, 321, 428, 535, 642, 749, 856, 963, 1070,
      1177, 1284, 1391, 1498, 1605, 1712, 1819, 1926, 2033, 2140]"

definition jent_rct_mem_cutoff_permanent_lookup :: "u16 list" where
  "jent_rct_mem_cutoff_permanent_lookup =
     [108, 215, 322, 429, 536, 643, 750, 857, 964, 1071,
      1178, 1285, 1392, 1499, 1606, 1713, 1820, 1927, 2034, 2141]"

definition jent_rct_mem_init :: "rand_data \<Rightarrow> rand_data" where
  "jent_rct_mem_init ec = ec\<lparr>
     ec_rct_mem_cutoff := jent_rct_mem_cutoff_lookup ! unat (ec_osr ec - 1),
     ec_rct_mem_cutoff_permanent := jent_rct_mem_cutoff_permanent_lookup ! unat (ec_osr ec - 1)\<rparr>"

definition jent_rct_mem_cutoff_lookup_ntg1 :: "u16 list" where
  "jent_rct_mem_cutoff_lookup_ntg1 =
     [4, 46, 134, 255, 399, 560, 733, 856, 963, 1070,
      1177, 1284, 1391, 1498, 1605, 1712, 1819, 1926, 2033, 2140]"

definition jent_rct_mem_cutoff_permanent_lookup_ntg1 :: "u16 list" where
  "jent_rct_mem_cutoff_permanent_lookup_ntg1 =
     [5, 50, 142, 265, 410, 572, 746, 857, 964, 1071,
      1178, 1285, 1392, 1499, 1606, 1713, 1820, 1927, 2034, 2141]"

definition jent_rct_mem_init_ntg1 :: "rand_data \<Rightarrow> rand_data" where
  "jent_rct_mem_init_ntg1 ec = ec\<lparr>
     ec_rct_mem_cutoff := jent_rct_mem_cutoff_lookup_ntg1 ! unat (ec_osr ec - 1),
     ec_rct_mem_cutoff_permanent := jent_rct_mem_cutoff_permanent_lookup_ntg1 ! unat (ec_osr ec - 1)\<rparr>"

definition JENT_RCT_MEM_IN_WINDOW :: "rand_data \<Rightarrow> bool" where
  "JENT_RCT_MEM_IN_WINDOW ec \<longleftrightarrow> ec_rct_mem_ctr ec < ec_rct_mem_nosr ec"

definition JENT_RCT_MEM_SKIP_STUCK :: "rand_data \<Rightarrow> bool" where
  "JENT_RCT_MEM_SKIP_STUCK ec \<longleftrightarrow> ec_rct_mem_ctr ec mod 3 \<noteq> 0"

text \<open>\<open>n\<close> blocks of random data in a row.\<close>

fun random_data_times ::
  "(rand_data \<Rightarrow> jent_env \<Rightarrow> (rand_data \<times> jent_env) option) \<Rightarrow> nat \<Rightarrow> rand_data \<Rightarrow> jent_env \<Rightarrow>
   (rand_data \<times> jent_env) option" where
  "random_data_times random_data 0 ec env = Some (ec, env)"
| "random_data_times random_data (Suc n) ec env = do {
     (ec, env) \<leftarrow> random_data ec env;
     random_data_times random_data n ec env
   }"

text \<open>The recovery loop.\<close>

definition rct_mem_recover ::
  "(rand_data \<Rightarrow> jent_env \<Rightarrow> (rand_data \<times> jent_env) option) \<Rightarrow> rand_data \<Rightarrow> jent_env \<Rightarrow>
   (rand_data \<times> jent_env) option" where
  "rct_mem_recover random_data ec env = do {
     let saved_state = ec_startup_state ec;
     let ec = ec\<lparr>ec_rct_mem_count := 0, ec_in_recovery := True,
                 ec_startup_state := jent_startup_completed\<rparr>;
     (ec, env) \<leftarrow> random_data_times random_data JENT_RCT_MEM_RECOVERY_LOOP_CNT ec env;
     Some (ec\<lparr>ec_startup_state := saved_state, ec_in_recovery := False\<rparr>, env)
   }"

text \<open>The counting of the window before the cutoffs are applied.\<close>

definition rct_mem_tally :: "rand_data \<Rightarrow> bool \<Rightarrow> rand_data" where
  "rct_mem_tally ec stuck =
     (let ec = (if ec_rct_mem_ctr ec = 0 then ec\<lparr>ec_rct_mem_count := 0\<rparr> else ec)
      in if stuck \<and> JENT_RCT_MEM_IN_WINDOW ec \<and> \<not> JENT_RCT_MEM_SKIP_STUCK ec
         then ec\<lparr>ec_rct_mem_count := ec_rct_mem_count ec + 1\<rparr> else ec)"

definition jent_rct_mem_insert ::
  "(rand_data \<Rightarrow> jent_env \<Rightarrow> (rand_data \<times> jent_env) option) \<Rightarrow> rand_data \<Rightarrow> jent_env \<Rightarrow> bool \<Rightarrow>
   (rand_data \<times> jent_env) option" where
  "jent_rct_mem_insert random_data ec env stuck = do {
     let ec = rct_mem_tally ec stuck;
     (ec, env) \<leftarrow>
       (if ec_rct_mem_count ec \<ge> ec_rct_mem_cutoff_permanent ec
        then Some (if JENT_RCT_MEM_IN_WINDOW ec
                   then ec\<lparr>ec_health_failure := ec_health_failure ec OR JENT_RCT_MEM_FAILURE_PERMANENT\<rparr>
                   else ec, env)
        else if ec_rct_mem_count ec = ec_rct_mem_cutoff ec
        then if \<not> ec_in_recovery ec then rct_mem_recover random_data ec env
             else Some (if JENT_RCT_MEM_IN_WINDOW ec
                        then ec\<lparr>ec_health_failure := ec_health_failure ec OR JENT_RCT_MEM_FAILURE\<rparr>
                        else ec, env)
        else Some (ec, env));
     Some (if JENT_RCT_MEM_IN_WINDOW ec then ec\<lparr>ec_rct_mem_ctr := ec_rct_mem_ctr ec + 1\<rparr> else ec, env)
   }"

definition jent_rct_mem_duplicate :: "rand_data \<Rightarrow> rand_data \<Rightarrow> rand_data" where
  "jent_rct_mem_duplicate new_ec old_ec = new_ec\<lparr>ec_rct_mem_count := ec_rct_mem_cutoff old_ec\<rparr>"

subsection \<open>Repetition count test\<close>

definition JENT_HEALTH_RCT_INTERMITTENT_CUTOFF :: "u16 \<Rightarrow> u16" where
  "JENT_HEALTH_RCT_INTERMITTENT_CUTOFF x = x * 30"

definition JENT_HEALTH_RCT_PERMANENT_CUTOFF :: "u16 \<Rightarrow> u16" where
  "JENT_HEALTH_RCT_PERMANENT_CUTOFF x = x * 60"

text \<open>The rounded-up division is done in \<^verbatim>\<open>int\<close> and cast back to \<^verbatim>\<open>unsigned short\<close>.\<close>

definition jent_rct_init :: "rand_data \<Rightarrow> u16 \<Rightarrow> rand_data" where
  "jent_rct_init ec safety =
     (let osr = ucast (ec_osr ec);
          ec = ec\<lparr>ec_rct_cutoff := JENT_HEALTH_RCT_INTERMITTENT_CUTOFF osr,
                  ec_rct_cutoff_permanent := JENT_HEALTH_RCT_PERMANENT_CUTOFF osr\<rparr>
      in if safety \<noteq> 0
         then ec\<lparr>ec_rct_cutoff :=
                   of_nat ((unat (ec_rct_cutoff ec) + unat safety - 1) div unat safety),
                 ec_rct_cutoff_permanent :=
                   of_nat ((unat (ec_rct_cutoff_permanent ec) + unat safety - 1) div unat safety)\<rparr>
         else ec)"

definition jent_rct_duplicate :: "rand_data \<Rightarrow> rand_data" where
  "jent_rct_duplicate new_ec = new_ec\<lparr>ec_rct_count := ucast (ec_rct_cutoff new_ec)\<rparr>"

definition jent_health_duplicate :: "rand_data \<Rightarrow> rand_data \<Rightarrow> rand_data" where
  "jent_health_duplicate new_ec old_ec =
     (let new_ec = jent_rct_duplicate new_ec;
          new_ec = jent_rct_mem_duplicate new_ec old_ec
      in if ec_enable_notime new_ec \<noteq> ec_enable_notime old_ec then new_ec
         else let new_ec = jent_apt_duplicate new_ec old_ec
              in jent_lag_duplicate new_ec old_ec)"

definition jent_rct_insert :: "rand_data \<Rightarrow> bool \<Rightarrow> rand_data" where
  "jent_rct_insert ec stuck =
     (if stuck
      then let ec = ec\<lparr>ec_rct_count := ec_rct_count ec + 1\<rparr>
           in if ec_rct_count ec \<ge> ucast (ec_rct_cutoff_permanent ec)
              then ec\<lparr>ec_health_failure := ec_health_failure ec OR JENT_RCT_FAILURE_PERMANENT\<rparr>
              else if ec_rct_count ec = ucast (ec_rct_cutoff ec)
              then ec\<lparr>ec_health_failure := ec_health_failure ec OR JENT_RCT_FAILURE\<rparr>
              else ec
      else ec\<lparr>ec_rct_count := 0\<rparr>)"

subsection \<open>Stuck test\<close>

definition JENT_STUCK_PRIME :: "2 word" where
  "JENT_STUCK_PRIME = 2"

definition jent_stuck ::
  "(rand_data \<Rightarrow> jent_env \<Rightarrow> (rand_data \<times> jent_env) option) \<Rightarrow> rand_data \<Rightarrow> jent_env \<Rightarrow> u64 \<Rightarrow>
   (bool \<times> rand_data \<times> jent_env) option" where
  "jent_stuck random_data ec env current_delta = do {
     let delta2 = jent_delta2 ec current_delta;
     let delta3 = jent_delta3 ec delta2;
     let stuck = (current_delta = 0 \<or> delta2 = 0 \<or> delta3 = 0);
     if ec_stuck_prime ec \<noteq> 0
     then Some (True, jent_lag_insert (ec\<lparr>ec_stuck_prime := ec_stuck_prime ec - 1\<rparr>) current_delta, env)
     else do {
       let ec = jent_apt_insert ec current_delta;
       let ec = jent_lag_insert ec current_delta;
       let ec = jent_rct_insert ec stuck;
       (ec, env) \<leftarrow> jent_rct_mem_insert random_data ec env stuck;
       Some (stuck, ec, env)
     }
   }"

definition jent_health_insert_timestamp ::
  "(rand_data \<Rightarrow> jent_env \<Rightarrow> (rand_data \<times> jent_env) option) \<Rightarrow> rand_data \<Rightarrow> jent_env \<Rightarrow> u64 \<Rightarrow>
   (bool \<times> rand_data \<times> jent_env) option" where
  "jent_health_insert_timestamp random_data ec env timestamp =
     (let divisor = (if ec_common_timer_gcd ec \<noteq> 0 then ec_common_timer_gcd ec else 1);
          current_delta = jent_udiv64 (jent_delta (ec_prev_time ec) timestamp) divisor
      in jent_stuck random_data (ec\<lparr>ec_prev_time := timestamp\<rparr>) env current_delta)"

subsection \<open>Reporting\<close>

definition jent_health_failure_query :: "rand_data \<Rightarrow> u32" where
  "jent_health_failure_query ec = (if \<not> ec_is_fips_enabled ec then 0 else ec_health_failure ec)"

text \<open>A call of the registered callback is recorded in the world.\<close>

definition jent_health_failure :: "rand_data \<Rightarrow> jent_env \<Rightarrow> u32 \<times> jent_env" where
  "jent_health_failure ec env =
     (let health_failure = jent_health_failure_query ec
      in if health_failure = 0 then (0, env)
         else (health_failure,
               case g_fips_cb env of
                 None \<Rightarrow> env
               | Some cb \<Rightarrow> env\<lparr>g_fips_cb_calls := g_fips_cb_calls env @ [(cb, health_failure)]\<rparr>))"

datatype jent_health_init_type = jent_health_init_type_common | jent_health_init_type_ntg1

definition jent_health_init :: "rand_data \<Rightarrow> jent_health_init_type \<Rightarrow> int \<times> rand_data" where
  "jent_health_init ec inittype =
     (let ec = ec\<lparr>ec_rct_count := 0\<rparr>
      in if ec_osr ec = 0 \<or> ec_osr ec > JENT_MAX_OSR then (1, ec)
         else let ec = jent_apt_reset ec;
                  ec = jent_lag_reset ec;
                  ec = ec\<lparr>ec_stuck_prime := JENT_STUCK_PRIME\<rparr>;
                  ec = jent_lag_init ec (ec_osr ec)
              in (0, case inittype of
                       jent_health_init_type_ntg1 \<Rightarrow>
                         jent_rct_mem_init_ntg1 (jent_rct_init (jent_apt_init_ntg1 ec) 8)
                     | jent_health_init_type_common \<Rightarrow>
                         jent_rct_mem_init (jent_rct_init (jent_apt_init ec) 0)))"

end
