(* ===== verification/Jent_Health_Laws.thy ===== *)
theory Jent_Health_Laws
  imports Jent_Health
begin

text \<open>
  What the health tests of \<^verbatim>\<open>src/jitterentropy-health.c\<close> detect: the repetition count test finds runs of
  stuck measurements, the adaptive proportion test counts the first symbol of each window, the lag
  history is the ring of the last eight deltas, the RCT with memory counts every third measurement
  of a block; the failure bits are sticky; the cutoff tables are consistent.
\<close>

subsection \<open>Failure bits are sticky\<close>

definition fail_le :: "u32 \<Rightarrow> u32 \<Rightarrow> bool" where
  "fail_le f g \<longleftrightarrow> f AND g = f"

lemma fail_le_refl [simp]: "fail_le f f"
  by (simp add: fail_le_def)

lemma fail_le_bit: "fail_le f g \<longleftrightarrow> (\<forall>n. bit f n \<longrightarrow> bit g n)"
  unfolding fail_le_def bit_eq_iff bit_and_iff using bit_imp_possible_bit by blast

lemma fail_le_or [simp]: "fail_le f (f OR m)"
  by (simp add: fail_le_bit bit_or_iff)

lemma fail_le_trans [trans]: "fail_le f g \<Longrightarrow> fail_le g h \<Longrightarrow> fail_le f h"
  by (auto simp: fail_le_bit)

lemma fail_le_nonzero: "fail_le f g \<Longrightarrow> f \<noteq> 0 \<Longrightarrow> g \<noteq> 0"
  by (auto simp: fail_le_def)

text \<open>The contract of a health test towards the stuck test: inserting a measurement never clears a
  failure and does not touch what decides whether it is reported.\<close>

locale sticky_test =
  fixes ins :: "rand_data \<Rightarrow> 'i \<Rightarrow> rand_data"
  assumes ins_sticky: "fail_le (ec_health_failure ec) (ec_health_failure (ins ec x))"
    and ins_fips: "ec_is_fips_enabled (ins ec x) = ec_is_fips_enabled ec"
begin

lemma ins_many_sticky: "fail_le (ec_health_failure ec) (ec_health_failure (foldl ins ec xs))"
  by (induction xs arbitrary: ec) (auto intro: fail_le_trans ins_sticky)

lemma ins_reported:
  "jent_health_failure_query ec \<noteq> 0 \<Longrightarrow> jent_health_failure_query (foldl ins ec xs) \<noteq> 0"
proof -
  have "ec_is_fips_enabled (foldl ins ec xs) = ec_is_fips_enabled ec"
    by (induction xs arbitrary: ec) (simp_all add: ins_fips)
  then show "jent_health_failure_query ec \<noteq> 0 \<Longrightarrow> jent_health_failure_query (foldl ins ec xs) \<noteq> 0"
    using fail_le_nonzero [OF ins_many_sticky] by (auto simp: jent_health_failure_query_def)
qed

end

lemma lag_judge_frame [frame]:
  "fail_le (ec_health_failure ec) (ec_health_failure (lag_judge ec d))"
  "ec_is_fips_enabled (lag_judge ec d) = ec_is_fips_enabled ec"
  "ec_lag_delta_history (lag_judge ec d) = ec_lag_delta_history ec"
  "ec_lag_observations (lag_judge ec d) = ec_lag_observations ec"
  "ec_lag_scoreboard (lag_judge ec d) = ec_lag_scoreboard ec"
  "ec_lag_best_predictor (lag_judge ec d) = ec_lag_best_predictor ec"
  by (simp_all add: lag_judge_def Let_def)

lemma lag_score_frame [frame]:
  "ec_health_failure (lag_score d ec i) = ec_health_failure ec"
  "ec_is_fips_enabled (lag_score d ec i) = ec_is_fips_enabled ec"
  "ec_lag_delta_history (lag_score d ec i) = ec_lag_delta_history ec"
  "ec_lag_observations (lag_score d ec i) = ec_lag_observations ec"
  "length (ec_lag_scoreboard (lag_score d ec i)) = length (ec_lag_scoreboard ec)"
  by (simp_all add: lag_score_def Let_def)

lemma lag_scores_frame [frame]:
  "ec_health_failure (foldl (lag_score d) ec is) = ec_health_failure ec"
  "ec_is_fips_enabled (foldl (lag_score d) ec is) = ec_is_fips_enabled ec"
  "ec_lag_delta_history (foldl (lag_score d) ec is) = ec_lag_delta_history ec"
  "ec_lag_observations (foldl (lag_score d) ec is) = ec_lag_observations ec"
  "length (ec_lag_scoreboard (foldl (lag_score d) ec is)) = length (ec_lag_scoreboard ec)"
  by (induction "is" arbitrary: ec) (simp_all add: frame)

interpretation rct_test: sticky_test jent_rct_insert
  by unfold_locales (simp_all add: jent_rct_insert_def Let_def)

interpretation apt_test: sticky_test jent_apt_insert
  by unfold_locales
    (simp_all add: jent_apt_insert_def jent_apt_reinit_def jent_apt_reset_def Let_def)

interpretation lag_test: sticky_test jent_lag_insert
  by unfold_locales
    (auto simp: jent_lag_insert_def jent_lag_reset_def Let_def frame intro: lag_judge_frame(1))

subsection \<open>Repetition count test\<close>

text \<open>\<open>k\<close> stuck measurements in a row.\<close>

definition stuck_run :: "nat \<Rightarrow> bool list \<Rightarrow> bool" where
  "stuck_run k bs \<longleftrightarrow> (\<exists>i. i + k \<le> length bs \<and> (\<forall>j < k. bs ! (i + j)))"

text \<open>The length of the run a sequence ends in.\<close>

definition end_run :: "bool list \<Rightarrow> nat" where
  "end_run bs = length (takeWhile id (rev bs))"

lemma end_run_snoc [simp]: "end_run (bs @ [b]) = (if b then Suc (end_run bs) else 0)"
  by (simp add: end_run_def)

lemma end_run_nil [simp]: "end_run [] = 0"
  by (simp add: end_run_def)

lemma end_run_le: "end_run bs \<le> length bs"
  unfolding end_run_def by (metis length_rev length_takeWhile_le)

lemma end_run_iff: "k \<le> end_run bs \<longleftrightarrow> k \<le> length bs \<and> (\<forall>j < k. bs ! (length bs - k + j))"
proof (induction bs arbitrary: k rule: rev_induct)
  case (snoc b bs)
  show ?case
  proof (cases k)
    case (Suc m)
    have "(\<forall>j < Suc m. (bs @ [b]) ! (length bs - m + j)) \<longleftrightarrow> b \<and> (\<forall>j < m. bs ! (length bs - m + j))"
      if "m \<le> length bs"
      using that by (auto simp: less_Suc_eq nth_append)
    with snoc.IH [of m] Suc show ?thesis
      by auto
  qed simp
qed auto

lemma stuck_run_snoc: "stuck_run k (bs @ [b]) \<longleftrightarrow> stuck_run k bs \<or> k \<le> end_run (bs @ [b])"
proof
  assume "stuck_run k (bs @ [b])"
  then obtain i where i: "i + k \<le> Suc (length bs)" "\<forall>j < k. (bs @ [b]) ! (i + j)"
    by (auto simp: stuck_run_def)
  show "stuck_run k bs \<or> k \<le> end_run (bs @ [b])"
  proof (cases "i + k = Suc (length bs)")
    case True
    then have "i = Suc (length bs) - k"
      by simp
    with i have "k \<le> end_run (bs @ [b])"
      unfolding end_run_iff by simp
    then show ?thesis ..
  next
    case False
    with i have "stuck_run k bs"
      by (auto simp: stuck_run_def nth_append intro!: exI [of _ i])
    then show ?thesis ..
  qed
next
  assume "stuck_run k bs \<or> k \<le> end_run (bs @ [b])"
  then show "stuck_run k (bs @ [b])"
  proof
    assume "stuck_run k bs"
    then obtain i where "i + k \<le> length bs" "\<forall>j < k. bs ! (i + j)"
      by (auto simp: stuck_run_def)
    then show ?thesis
      by (auto simp: stuck_run_def nth_append intro!: exI [of _ i])
  next
    assume "k \<le> end_run (bs @ [b])"
    then show ?thesis
      unfolding end_run_iff stuck_run_def by (intro exI [of _ "length (bs @ [b]) - k"]) auto
  qed
qed

lemma end_run_stuck_run: "k \<le> end_run bs \<Longrightarrow> stuck_run k bs"
  unfolding end_run_iff stuck_run_def by (intro exI [of _ "length bs - k"]) auto

lemma rct_insert_cutoffs [frame]:
  "ec_rct_cutoff (jent_rct_insert ec b) = ec_rct_cutoff ec"
  "ec_rct_cutoff_permanent (jent_rct_insert ec b) = ec_rct_cutoff_permanent ec"
  by (simp_all add: jent_rct_insert_def Let_def)

lemma rct_inserts_cutoffs [frame]:
  "ec_rct_cutoff (foldl jent_rct_insert ec bs) = ec_rct_cutoff ec"
  "ec_rct_cutoff_permanent (foldl jent_rct_insert ec bs) = ec_rct_cutoff_permanent ec"
  by (induction bs arbitrary: ec) (simp_all add: frame)

lemma rct_inserts:
  fixes bs :: "bool list"
  assumes "ec_rct_count ec = 0" "ec_rct_cutoff ec \<noteq> 0" "ec_rct_cutoff ec < ec_rct_cutoff_permanent ec"
    and "length bs < 2 ^ 32"
  shows "ec_rct_count (foldl jent_rct_insert ec bs) = of_nat (end_run bs) \<and>
    ec_health_failure (foldl jent_rct_insert ec bs) = ec_health_failure ec OR
      (if stuck_run (unat (ec_rct_cutoff_permanent ec)) bs then JENT_RCT_FAILURE_PERMANENT else 0) OR
      (if stuck_run (unat (ec_rct_cutoff ec)) bs then JENT_RCT_FAILURE else 0)"
  using assms(4)
proof (induction bs rule: rev_induct)
  case Nil
  have "0 < unat (ec_rct_cutoff ec)" "unat (ec_rct_cutoff ec) < unat (ec_rct_cutoff_permanent ec)"
    using assms(2,3) by (simp_all add: unat_gt_0 word_less_nat_alt)
  with assms(1) show ?case
    by (simp add: stuck_run_def)
next
  case (snoc b bs)
  define e where "e = foldl jent_rct_insert ec bs"
  let ?c = "unat (ec_rct_cutoff ec)" and ?p = "unat (ec_rct_cutoff_permanent ec)"
  let ?r = "end_run bs"
  have cp: "0 < ?c" "?c < ?p"
    using assms(2,3) by (simp_all add: unat_gt_0 word_less_nat_alt)
  have IH: "ec_rct_count e = of_nat ?r"
    "ec_health_failure e = ec_health_failure ec OR
      (if stuck_run ?p bs then JENT_RCT_FAILURE_PERMANENT else 0) OR
      (if stuck_run ?c bs then JENT_RCT_FAILURE else 0)"
    "ec_rct_cutoff e = ec_rct_cutoff ec" "ec_rct_cutoff_permanent e = ec_rct_cutoff_permanent ec"
    using snoc by (simp_all add: e_def frame)
  have step: "foldl jent_rct_insert ec (bs @ [b]) = jent_rct_insert e b"
    by (simp add: e_def)
  show ?case
  proof (cases b)
    case False
    then show ?thesis
      using cp unfolding step by (simp add: jent_rct_insert_def IH(2) stuck_run_snoc)
  next
    case True
    have "Suc ?r < 2 ^ 32"
      using snoc.prems end_run_le [of bs] by simp
    then have u: "unat (of_nat ?r + 1 :: u32) = Suc ?r"
      by (simp add: unat_word_ariths unat_of_nat take_bit_nat_eq_self)
    have "(of_nat ?r + 1 :: u32) \<ge> ucast (ec_rct_cutoff_permanent ec) \<longleftrightarrow> ?p \<le> Suc ?r"
      "(of_nat ?r + 1 :: u32) = ucast (ec_rct_cutoff ec) \<longleftrightarrow> Suc ?r = ?c"
      using u unfolding word_eq_unat word_le_nat_alt by simp_all
    then show ?thesis
      using cp True end_run_stuck_run [of ?c bs] unfolding step
      by (auto simp: jent_rct_insert_def IH Let_def stuck_run_snoc le_Suc_eq ac_simps)
  qed
qed

subsection \<open>Adaptive proportion test\<close>

text \<open>Window \<open>j\<close> of a sequence of deltas, and whether the first symbol of some window occurs at least
  \<open>k\<close> times in it.\<close>

definition apt_window :: "u64 list \<Rightarrow> nat \<Rightarrow> u64 list" where
  "apt_window ds j = take 512 (drop (512 * j) ds)"

definition apt_hits :: "nat \<Rightarrow> u64 list \<Rightarrow> bool" where
  "apt_hits k ds \<longleftrightarrow> (\<exists>j. apt_window ds j \<noteq> [] \<and>
     k \<le> count_list (apt_window ds j) (hd (apt_window ds j)))"

text \<open>The window that is open after the sequence.\<close>

definition apt_open :: "u64 list \<Rightarrow> u64 list" where
  "apt_open ds = drop (512 * (length ds div 512)) ds"

lemma length_apt_open [simp]: "length (apt_open ds) = length ds mod 512"
  by (simp add: apt_open_def minus_mult_div_eq_mod)

lemma apt_window_open: "apt_window ds (length ds div 512) = apt_open ds"
proof -
  have "length ds mod 512 \<le> 512"
    by simp
  then show ?thesis
    using length_apt_open [of ds] by (simp add: apt_window_def apt_open_def del: length_apt_open)
qed

lemma apt_window_snoc:
  "apt_window (ds @ [d]) j =
    (if j = length ds div 512 then apt_open ds @ [d] else apt_window ds j)"
proof -
  consider (before) "j < length ds div 512" | (same) "j = length ds div 512" | (after) "length ds div 512 < j"
    by linarith
  then show ?thesis
  proof cases
    case before
    then have "512 * Suc j \<le> length ds"
      by (metis Suc_leI div_times_less_eq_dividend mult.commute mult_le_mono1 le_trans)
    with before show ?thesis
      by (simp add: apt_window_def)
  next
    case same
    then have "512 * j \<le> length ds"
      by simp
    moreover have "length ds mod 512 < 512"
      by simp
    then have "length (apt_open ds @ [d]) \<le> 512"
      by simp
    ultimately show ?thesis
      using same by (simp add: apt_window_def apt_open_def)
  next
    case after
    then have "length ds < 512 * j"
      by (metis div_less_iff_less_mult mult.commute zero_less_numeral)
    with after show ?thesis
      by (simp add: apt_window_def)
  qed
qed

lemma apt_hits_snoc:
  "apt_hits k (ds @ [d]) \<longleftrightarrow>
   apt_hits k ds \<or> k \<le> count_list (apt_open ds @ [d]) (hd (apt_open ds @ [d]))"
proof -
  define hit where "hit w \<longleftrightarrow> w \<noteq> [] \<and> k \<le> count_list w (hd w)" for w :: "u64 list"
  let ?n = "length ds div 512"
  have open_hit: "hit (apt_open ds) \<Longrightarrow> hit (apt_open ds @ [d])"
    by (simp add: hit_def hd_append)
  have "(\<exists>j. hit (apt_window (ds @ [d]) j)) \<longleftrightarrow>
      (\<exists>j. j \<noteq> ?n \<and> hit (apt_window ds j)) \<or> hit (apt_open ds @ [d])"
    by (auto simp: apt_window_snoc split: if_splits)
  also have "\<dots> \<longleftrightarrow> (\<exists>j. hit (apt_window ds j)) \<or> hit (apt_open ds @ [d])"
    using open_hit apt_window_open [of ds] by metis
  finally show ?thesis
    by (simp add: apt_hits_def hit_def)
qed

definition apt_inv :: "rand_data \<Rightarrow> u64 list \<Rightarrow> bool" where
  "apt_inv ec ds \<longleftrightarrow>
     (if apt_open ds = [] then \<not> ec_apt_base_set ec
      else ec_apt_base_set ec \<and> ec_apt_base ec = hd (apt_open ds) \<and>
           ec_apt_count ec = of_nat (count_list (apt_open ds) (hd (apt_open ds))) \<and>
           ec_apt_observations ec = of_nat (length (apt_open ds)))"

lemma apt_open_snoc:
  "apt_open (ds @ [d]) = (if Suc (length (apt_open ds)) = 512 then [] else apt_open ds @ [d])"
proof (cases "Suc (length ds mod 512) = 512")
  case True
  then have "length (ds @ [d]) mod 512 = 0"
    by (simp add: mod_Suc)
  then have "apt_open (ds @ [d]) = []"
    using length_apt_open [of "ds @ [d]"] by (metis length_0_conv)
  with True show ?thesis
    by simp
next
  case False
  then have "length (ds @ [d]) div 512 = length ds div 512"
    by (simp add: div_Suc mod_Suc)
  with False show ?thesis
    by (simp add: apt_open_def minus_mult_div_eq_mod)
qed

lemma apt_insert_cutoffs [frame]:
  "ec_apt_cutoff (jent_apt_insert ec d) = ec_apt_cutoff ec"
  "ec_apt_cutoff_permanent (jent_apt_insert ec d) = ec_apt_cutoff_permanent ec"
  by (simp_all add: jent_apt_insert_def jent_apt_reinit_def jent_apt_reset_def Let_def)

lemma and_apt_mask [simp]: "d AND JENT_APT_MASK = d"
proof -
  have mask: "JENT_APT_MASK = - 1"
    by (simp add: JENT_APT_MASK_def)
  show ?thesis
    unfolding mask by (rule and.right_neutral)
qed

lemma apt_open_hits:
  "apt_open ds \<noteq> [] \<Longrightarrow> k \<le> count_list (apt_open ds) (hd (apt_open ds)) \<Longrightarrow> apt_hits k ds"
  unfolding apt_hits_def by (intro exI [of _ "length ds div 512"]) (simp add: apt_window_open)

lemma apt_insert_step:
  fixes d :: u64
  assumes inv: "apt_inv ec ds" and c: "1 < unat (ec_apt_cutoff ec)"
    "ec_apt_cutoff ec \<le> ec_apt_cutoff_permanent ec"
  defines "n \<equiv> count_list (apt_open ds @ [d]) (hd (apt_open ds @ [d]))"
  shows "apt_inv (jent_apt_insert ec d) (ds @ [d])"
    and "ec_health_failure (jent_apt_insert ec d) = ec_health_failure ec OR
      (if apt_open ds \<noteq> [] \<and> d = hd (apt_open ds)
       then if unat (ec_apt_cutoff_permanent ec) \<le> n then JENT_APT_FAILURE_PERMANENT
            else if n = unat (ec_apt_cutoff ec) then JENT_APT_FAILURE else 0
       else 0)"
proof -
  let ?w = "apt_open ds"
  have len: "length ?w < 512"
    by simp
  have cnt: "count_list ?w x \<le> length ?w" for x
    by (rule count_le_length)
  have cnt': "Suc (count_list ?w x) < 2 ^ 32" for x
    using le_less_trans [OF cnt [of x] len] by simp
  have obs: "(of_nat (length ?w) + 1 :: u32) \<ge> 512 \<longleftrightarrow> Suc (length ?w) = 512"
    using len by (auto simp add: word_le_nat_alt unat_word_ariths unat_of_nat take_bit_nat_eq_self
        simp del: length_apt_open)
  have u: "unat (of_nat (count_list ?w x) + 1 :: u32) = Suc (count_list ?w x)" for x
    using cnt' [of x] by (simp add: unat_word_ariths unat_of_nat take_bit_nat_eq_self)
  show "apt_inv (jent_apt_insert ec d) (ds @ [d])"
    using inv obs unfolding apt_inv_def apt_open_snoc
    by (auto simp: jent_apt_insert_def jent_apt_reinit_def jent_apt_reset_def Let_def hd_append
        JENT_APT_WINDOW_SIZE_def split: if_splits simp del: length_apt_open)
  show "ec_health_failure (jent_apt_insert ec d) = ec_health_failure ec OR
      (if apt_open ds \<noteq> [] \<and> d = hd (apt_open ds)
       then if unat (ec_apt_cutoff_permanent ec) \<le> n then JENT_APT_FAILURE_PERMANENT
            else if n = unat (ec_apt_cutoff ec) then JENT_APT_FAILURE else 0
       else 0)"
    using inv u unfolding apt_inv_def n_def
    by (auto simp: jent_apt_insert_def jent_apt_reinit_def jent_apt_reset_def Let_def hd_append
        word_le_nat_alt word_eq_unat split: if_splits simp del: length_apt_open)
qed

lemma apt_inserts_cutoffs [frame]:
  "ec_apt_cutoff (foldl jent_apt_insert ec ds) = ec_apt_cutoff ec"
  "ec_apt_cutoff_permanent (foldl jent_apt_insert ec ds) = ec_apt_cutoff_permanent ec"
  by (induction ds arbitrary: ec) (simp_all add: frame)

definition apt_verdict :: "rand_data \<Rightarrow> u64 list \<Rightarrow> u32" where
  "apt_verdict ec ds =
     (if apt_hits (unat (ec_apt_cutoff_permanent ec)) ds then JENT_APT_FAILURE_PERMANENT else 0) OR
     (if apt_hits (unat (ec_apt_cutoff ec)) ds \<and> ec_apt_cutoff ec < ec_apt_cutoff_permanent ec
      then JENT_APT_FAILURE else 0)"

lemma apt_hits_step:
  assumes "1 < k"
  shows "apt_hits k (ds @ [d]) \<longleftrightarrow> apt_hits k ds \<or>
    apt_open ds \<noteq> [] \<and> d = hd (apt_open ds) \<and> k = Suc (count_list (apt_open ds) d)"
proof (cases "apt_open ds = []")
  case True
  with assms show ?thesis
    by (simp add: apt_hits_snoc)
next
  case False
  have "k \<le> count_list (apt_open ds @ [d]) (hd (apt_open ds @ [d])) \<longleftrightarrow>
      k \<le> count_list (apt_open ds) (hd (apt_open ds)) \<or>
      d = hd (apt_open ds) \<and> k = Suc (count_list (apt_open ds) d)"
    using False by (auto simp: hd_append)
  with False show ?thesis
    using apt_open_hits [OF False, of k] by (auto simp only: apt_hits_snoc)
qed

lemma verdict_bits:
  fixes P I :: u32 and c p n :: nat
  assumes "c \<le> p" "hc' \<longleftrightarrow> hc \<or> c = n" "hp' \<longleftrightarrow> hp \<or> p = n" "c < n \<Longrightarrow> hc" "p < n \<Longrightarrow> hp"
  shows "(if hp' then P else 0) OR (if hc' \<and> c < p then I else 0) =
    ((if hp then P else 0) OR (if hc \<and> c < p then I else 0)) OR
    (if p \<le> n then P else if n = c then I else 0)"
proof -
  consider "n < c" | "n = c" "c < p" | "n = c" "c = p" | "c < n" "n < p" | "c < n" "p \<le> n"
    using assms(1) by linarith
  then show ?thesis
    by cases (rule bit_word_eqI, use assms in \<open>auto simp: bit_or_iff\<close>)+
qed

lemma apt_verdict_snoc:
  fixes ds :: "u64 list"
  assumes c: "1 < unat (ec_apt_cutoff ec)" "ec_apt_cutoff ec \<le> ec_apt_cutoff_permanent ec"
  defines "w \<equiv> apt_open ds"
  shows "apt_verdict ec (ds @ [d]) = apt_verdict ec ds OR
    (if w \<noteq> [] \<and> d = hd w
     then if unat (ec_apt_cutoff_permanent ec) \<le> Suc (count_list w d) then JENT_APT_FAILURE_PERMANENT
          else if Suc (count_list w d) = unat (ec_apt_cutoff ec) then JENT_APT_FAILURE else 0
     else 0)"
proof -
  let ?c = "unat (ec_apt_cutoff ec)" and ?p = "unat (ec_apt_cutoff_permanent ec)"
  let ?n = "Suc (count_list w d)"
  have cp: "1 < ?c" "1 < ?p" "?c \<le> ?p"
    using c by (simp_all add: word_le_nat_alt)
  note hits = apt_hits_step [OF cp(1), of ds d, folded w_def]
    apt_hits_step [OF cp(2), of ds d, folded w_def]
  show ?thesis
  proof (cases "w \<noteq> [] \<and> d = hd w")
    case False
    have "apt_hits ?c (ds @ [d]) \<longleftrightarrow> apt_hits ?c ds" "apt_hits ?p (ds @ [d]) \<longleftrightarrow> apt_hits ?p ds"
      using hits False by blast+
    then show ?thesis
      by (simp only: apt_verdict_def if_not_P [OF False] or.right_neutral)
  next
    case True
    have seen: "apt_hits k ds" if "k < ?n" for k
      using that True unfolding w_def by (intro apt_open_hits) simp_all
    have "apt_hits ?c (ds @ [d]) \<longleftrightarrow> apt_hits ?c ds \<or> ?c = ?n"
      "apt_hits ?p (ds @ [d]) \<longleftrightarrow> apt_hits ?p ds \<or> ?p = ?n"
      using hits True by blast+
    note verdict_bits [OF cp(3) this seen seen]
    then show ?thesis
      unfolding apt_verdict_def word_less_nat_alt if_P [OF True] .
  qed
qed

lemma apt_inserts:
  assumes "\<not> ec_apt_base_set ec" "1 < unat (ec_apt_cutoff ec)"
    "ec_apt_cutoff ec \<le> ec_apt_cutoff_permanent ec"
  shows "apt_inv (foldl jent_apt_insert ec ds) ds \<and>
    ec_health_failure (foldl jent_apt_insert ec ds) = ec_health_failure ec OR apt_verdict ec ds"
proof (induction ds rule: rev_induct)
  case Nil
  have "\<not> apt_hits k []" for k
    by (simp add: apt_hits_def apt_window_def)
  with assms(1) show ?case
    by (simp add: apt_inv_def apt_open_def apt_verdict_def)
next
  case (snoc d ds)
  define e where "e = foldl jent_apt_insert ec ds"
  have cut: "ec_apt_cutoff e = ec_apt_cutoff ec" "ec_apt_cutoff_permanent e = ec_apt_cutoff_permanent ec"
    by (simp_all add: e_def frame)
  have inv: "apt_inv e ds" "ec_health_failure e = ec_health_failure ec OR apt_verdict ec ds"
    using snoc by (simp_all add: e_def)
  have step: "foldl jent_apt_insert ec (ds @ [d]) = jent_apt_insert e d"
    by (simp add: e_def)
  have n: "count_list (apt_open ds @ [d]) (hd (apt_open ds @ [d])) = Suc (count_list (apt_open ds) d)"
    if "apt_open ds \<noteq> [] \<and> d = hd (apt_open ds)"
    using that by (simp add: hd_append)
  show ?case
    unfolding step apt_verdict_snoc [OF assms(2,3)]
    using apt_insert_step [OF inv(1), of d] assms(2,3) inv(2) n by (simp add: cut or.assoc cong: if_cong)
qed

subsection \<open>Lag predictor\<close>

lemmas lag_consts = JENT_LAG_HISTORY_SIZE_def JENT_LAG_MASK_def JENT_LAG_WINDOW_SIZE_def

text \<open>All indices of the lag predictor are in range and the window is open.\<close>

definition lag_ok :: "rand_data \<Rightarrow> bool" where
  "lag_ok ec \<longleftrightarrow> length (ec_lag_delta_history ec) = 8 \<and> length (ec_lag_scoreboard ec) = 8 \<and>
     ec_lag_best_predictor ec < 8 \<and> ec_lag_observations ec < JENT_LAG_WINDOW_SIZE"

lemma and_lag_mask: "unat (x AND JENT_LAG_MASK) = unat x mod 8"
proof -
  have "x AND JENT_LAG_MASK = take_bit 3 x"
    by (simp add: lag_consts take_bit_eq_mask mask_eq_exp_minus_1)
  then show ?thesis
    by (simp add: take_bit_eq_mod unat_mod)
qed

lemma lag_score_ok:
  assumes "lag_ok ec" "i < 8"
  shows "lag_ok (lag_score d ec i)"
proof -
  have "(of_nat i :: u32) < 8"
    using assms(2) by (simp add: word_less_nat_alt unat_of_nat take_bit_nat_eq_self)
  with assms show ?thesis
    by (simp add: lag_score_def lag_ok_def Let_def)
qed

lemma lag_scores_ok:
  "lag_ok ec \<Longrightarrow> set is \<subseteq> {..<8} \<Longrightarrow> lag_ok (foldl (lag_score d) ec is)"
  by (induction "is" arbitrary: ec) (simp_all add: lag_score_ok)

lemma lag_reset_ok [simp]: "lag_ok (jent_lag_reset ec)"
  by (simp add: lag_ok_def jent_lag_reset_def lag_consts)

lemma lag_judge_ok: "lag_ok ec \<Longrightarrow> lag_ok (lag_judge ec d)"
  by (simp add: lag_ok_def frame)

lemma lag_obs_inc:
  "x < JENT_LAG_WINDOW_SIZE \<Longrightarrow> unat (x + 1) = Suc (unat x)"
  by (rule unat_inc) (simp add: lag_consts word_less_nat_alt)

lemma lag_insert_ok:
  assumes "lag_ok ec"
  shows "lag_ok (jent_lag_insert ec d)"
proof -
  let ?e = "foldl (lag_score d) (lag_judge ec d) [0..<8]"
  have e: "lag_ok ?e"
    using assms by (intro lag_scores_ok lag_judge_ok) auto
  have small: "ec_lag_observations ec < 8 \<Longrightarrow> ec_lag_observations ec + 1 < JENT_LAG_WINDOW_SIZE"
    using assms lag_obs_inc [of "ec_lag_observations ec"]
    by (simp add: lag_ok_def word_less_nat_alt lag_consts)
  from assms e small show ?thesis
    unfolding jent_lag_insert_def Let_def
    by (simp add: lag_ok_def jent_lag_reset_def lag_consts(1) not_le) (simp add: lag_consts)
qed

lemma lag_duplicate_ok: "lag_ok ec \<Longrightarrow> lag_ok (jent_lag_duplicate new_ec ec)"
  by (simp add: jent_lag_duplicate_def lag_ok_def)

text \<open>The history after the deltas \<open>ds\<close> since the last reset.\<close>

definition lag_ring :: "rand_data \<Rightarrow> u64 list \<Rightarrow> bool" where
  "lag_ring ec ds \<longleftrightarrow> lag_ok ec \<and> ec_lag_observations ec = of_nat (length ds) \<and>
     length ds < 2 ^ 17 \<and>
     (\<forall>k < length ds. length ds \<le> k + 8 \<longrightarrow> ec_lag_delta_history ec ! (k mod 8) = ds ! k)"

lemma lag_insert_history:
  assumes "lag_ok ec" "unat (ec_lag_observations ec) = n" "Suc n < 2 ^ 17"
  shows "ec_lag_delta_history (jent_lag_insert ec d) = (ec_lag_delta_history ec)[n mod 8 := d]"
    and "ec_lag_observations (jent_lag_insert ec d) = ec_lag_observations ec + 1"
proof -
  have "\<not> ec_lag_observations ec + 1 \<ge> JENT_LAG_WINDOW_SIZE"
    using assms lag_obs_inc [of "ec_lag_observations ec"]
    by (simp add: lag_ok_def word_le_nat_alt lag_consts)
  moreover have "ec_lag_observations ec < 8 \<Longrightarrow> n mod 8 = n"
    using assms(2) by (simp add: word_less_nat_alt)
  ultimately show "ec_lag_delta_history (jent_lag_insert ec d) = (ec_lag_delta_history ec)[n mod 8 := d]"
    "ec_lag_observations (jent_lag_insert ec d) = ec_lag_observations ec + 1"
    using assms(2) by (auto simp: jent_lag_insert_def Let_def frame and_lag_mask lag_consts(1))
qed

lemma lag_ring_insert:
  assumes "lag_ring ec ds" "Suc (length ds) < 2 ^ 17"
  shows "lag_ring (jent_lag_insert ec d) (ds @ [d])"
proof -
  let ?n = "length ds"
  have ok: "lag_ok ec" and obs: "unat (ec_lag_observations ec) = ?n"
    and len: "length (ec_lag_delta_history ec) = 8"
    and hist: "\<And>k. k < ?n \<Longrightarrow> ?n \<le> k + 8 \<Longrightarrow> ec_lag_delta_history ec ! (k mod 8) = ds ! k"
    using assms by (auto simp: lag_ring_def lag_ok_def unat_of_nat take_bit_nat_eq_self)
  note ins = lag_insert_history [OF ok obs assms(2), of d]
  have "ec_lag_delta_history (jent_lag_insert ec d) ! (k mod 8) = (ds @ [d]) ! k"
    if "k < Suc ?n" "Suc ?n \<le> k + 8" for k
  proof (cases "k = ?n")
    case True
    then show ?thesis
      by (simp add: ins(1) len)
  next
    case False
    have "k mod 8 \<noteq> ?n mod 8"
    proof
      assume "k mod 8 = ?n mod 8"
      then have "(?n - k) mod 8 = 0"
        using that by (metis le_less_Suc_eq less_Suc_eq_le mod_eq_dvd_iff_nat mod_0_imp_dvd dvd_imp_mod_0)
      moreover have "0 < ?n - k" "?n - k < 8"
        using that False by auto
      ultimately show False
        by simp
    qed
    with False that hist [of k] show ?thesis
      by (simp add: ins(1) nth_append)
  qed
  with assms ins(2) lag_insert_ok [OF ok, of d] show ?thesis
    by (simp add: lag_ring_def del: nth_append)
qed

lemma lag_ring_reset: "lag_ring (jent_lag_reset ec) []"
  by (simp add: lag_ring_def) (simp add: jent_lag_reset_def)

lemma lag_ring_inserts:
  "length ds < 2 ^ 17 \<Longrightarrow> lag_ring (foldl jent_lag_insert (jent_lag_reset ec) ds) ds"
  by (induction ds rule: rev_induct) (simp_all add: lag_ring_reset lag_ring_insert)

lemma lag_ring_history:
  assumes "lag_ring ec ds" "i < 8" "i < length ds"
  shows "JENT_LAG_HISTORY ec (of_nat i) = ds ! (length ds - 1 - i)"
proof -
  let ?n = "length ds"
  have n: "?n < 2 ^ 17"
    using assms(1) by (simp add: lag_ring_def)
  have "(of_nat ?n - of_nat i - 1 :: u32) = of_nat (?n - 1 - i)"
    using assms(3) by (simp add: of_nat_diff)
  then have "unat ((of_nat ?n - of_nat i - 1) AND JENT_LAG_MASK) = (?n - 1 - i) mod 8"
    using n by (simp add: and_lag_mask unat_of_nat take_bit_nat_eq_self)
  with assms show ?thesis
    by (simp add: JENT_LAG_HISTORY_def lag_ring_def)
qed

lemma jent_delta23:
  assumes "lag_ring ec ds" "2 \<le> length ds"
  defines "n \<equiv> length ds"
  shows "jent_delta2 ec d = d - ds ! (n - 1)"
    and "jent_delta3 ec (jent_delta2 ec d) = (d - ds ! (n - 1)) - (ds ! (n - 1) - ds ! (n - 2))"
proof -
  have "0 < length ds" "1 < length ds" "length ds - 1 - 1 = n - 2"
    using assms(2) unfolding n_def by linarith+
  then have h: "JENT_LAG_HISTORY ec 0 = ds ! (n - 1)" "JENT_LAG_HISTORY ec 1 = ds ! (n - 2)"
    using lag_ring_history [OF assms(1), of 0] lag_ring_history [OF assms(1), of 1]
    by (simp_all only: of_nat_0 of_nat_1 n_def diff_zero) simp_all
  show "jent_delta2 ec d = d - ds ! (n - 1)"
    by (simp add: jent_delta2_def jent_delta_def h)
  then show "jent_delta3 ec (jent_delta2 ec d) = (d - ds ! (n - 1)) - (ds ! (n - 1) - ds ! (n - 2))"
    by (simp add: jent_delta3_def jent_delta_def h)
qed

subsection \<open>Cutoffs\<close>

lemmas cutoff_tables = jent_lag_global_cutoff_lookup_def jent_lag_global_cutoff_permanent_lookup_def
  jent_lag_local_cutoff_lookup_def jent_lag_local_cutoff_permanent_lookup_def
  jent_apt_cutoff_lookup_def jent_apt_cutoff_permanent_lookup_def
  jent_apt_cutoff_lookup_ntg1_def jent_apt_cutoff_permanent_lookup_ntg1_def
  jent_rct_mem_cutoff_lookup_def jent_rct_mem_cutoff_permanent_lookup_def
  jent_rct_mem_cutoff_lookup_ntg1_def jent_rct_mem_cutoff_permanent_lookup_ntg1_def

lemmas health_init_defs = jent_health_init_def jent_apt_reset_def jent_lag_reset_def jent_lag_init_def
  jent_apt_init_def jent_apt_init_ntg1_def jent_rct_mem_init_def jent_rct_mem_init_ntg1_def

lemma rct_init_frame [frame]:
  "ec_osr (jent_rct_init ec s) = ec_osr ec"
  "ec_apt_cutoff (jent_rct_init ec s) = ec_apt_cutoff ec"
  "ec_apt_cutoff_permanent (jent_rct_init ec s) = ec_apt_cutoff_permanent ec"
  "ec_lag_global_cutoff (jent_rct_init ec s) = ec_lag_global_cutoff ec"
  "ec_lag_global_cutoff_permanent (jent_rct_init ec s) = ec_lag_global_cutoff_permanent ec"
  "ec_lag_local_cutoff (jent_rct_init ec s) = ec_lag_local_cutoff ec"
  "ec_lag_local_cutoff_permanent (jent_rct_init ec s) = ec_lag_local_cutoff_permanent ec"
  by (simp_all add: jent_rct_init_def Let_def)

lemma tables_length:
  "length jent_lag_global_cutoff_lookup = 20" "length jent_lag_local_cutoff_lookup = 20"
  "length jent_lag_local_cutoff_permanent_lookup = 20"
  "length jent_apt_cutoff_lookup = 20" "length jent_apt_cutoff_lookup_ntg1 = 20"
  "length jent_apt_cutoff_permanent_lookup = 20" "length jent_apt_cutoff_permanent_lookup_ntg1 = 20"
  "length jent_rct_mem_cutoff_lookup = 20" "length jent_rct_mem_cutoff_lookup_ntg1 = 20"
  "length jent_lag_global_cutoff_permanent_lookup = 20"
  by (simp_all add: cutoff_tables)

lemma tables_order:
  "list_all2 (<) jent_lag_global_cutoff_lookup jent_lag_global_cutoff_permanent_lookup"
  "list_all2 (<) jent_lag_local_cutoff_lookup jent_lag_local_cutoff_permanent_lookup"
  "list_all2 (<) jent_lag_local_cutoff_permanent_lookup jent_lag_global_cutoff_lookup"
  "list_all2 (\<le>) jent_apt_cutoff_lookup jent_apt_cutoff_permanent_lookup"
  "list_all2 (<) jent_apt_cutoff_lookup_ntg1 jent_apt_cutoff_permanent_lookup_ntg1"
  "list_all2 (<) jent_rct_mem_cutoff_lookup jent_rct_mem_cutoff_permanent_lookup"
  "list_all2 (<) jent_rct_mem_cutoff_lookup_ntg1 jent_rct_mem_cutoff_permanent_lookup_ntg1"
  by (simp_all add: cutoff_tables)

lemma tables_bounds:
  "list_all (\<lambda>x. 0 < x) jent_lag_local_cutoff_lookup"
  "list_all (\<lambda>x. x < JENT_LAG_WINDOW_SIZE) jent_lag_global_cutoff_permanent_lookup"
  "list_all (\<lambda>x. 1 < x) jent_apt_cutoff_lookup" "list_all (\<lambda>x. 1 < x) jent_apt_cutoff_lookup_ntg1"
  "list_all (\<lambda>x. x \<le> JENT_APT_WINDOW_SIZE) jent_apt_cutoff_permanent_lookup"
  "list_all (\<lambda>x. x \<le> JENT_APT_WINDOW_SIZE) jent_apt_cutoff_permanent_lookup_ntg1"
  "list_all (\<lambda>x. 0 < x) jent_rct_mem_cutoff_lookup" "list_all (\<lambda>x. 0 < x) jent_rct_mem_cutoff_lookup_ntg1"
  by (simp_all add: cutoff_tables JENT_LAG_WINDOW_SIZE_def JENT_APT_WINDOW_SIZE_def)

lemmas tables_at = tables_order [THEN list_all2_nthD, unfolded tables_length]
  tables_bounds [unfolded list_all_length tables_length, rule_format]

lemma osr_index:
  assumes "1 \<le> osr" "osr \<le> JENT_MAX_OSR"
  shows "unat (osr - 1) < 20" "osr \<noteq> 0"
proof -
  have "unat (osr - 1) = unat osr - 1"
    using assms(1) by (simp add: unat_sub)
  then show "unat (osr - 1) < 20"
    using assms by (simp add: word_le_nat_alt JENT_MAX_OSR_def)
  show "osr \<noteq> 0"
    using assms(1) by auto
qed

lemma rct_cutoffs_order:
  assumes "1 \<le> ec_osr ec" "ec_osr ec \<le> JENT_MAX_OSR" and s: "s = 0 \<or> s = 8"
  shows "0 < ec_rct_cutoff (jent_rct_init ec s)"
    and "ec_rct_cutoff (jent_rct_init ec s) < ec_rct_cutoff_permanent (jent_rct_init ec s)"
proof -
  define n where "n = unat (ec_osr ec)"
  have n: "1 \<le> n" "n \<le> 20"
    using assms by (simp_all add: word_le_nat_alt JENT_MAX_OSR_def n_def)
  have u: "unat (ucast (ec_osr ec) :: u16) = n"
    using n by (simp add: n_def unsigned_ucast_eq take_bit_nat_eq_self)
  then have c: "unat (ucast (ec_osr ec) * 30 :: u16) = n * 30" "unat (ucast (ec_osr ec) * 60 :: u16) = n * 60"
    using n by (simp_all add: unat_word_ariths)
  have d: "(n * 30 + 7) div 8 < (n * 60 + 7) div 8" "0 < (n * 30 + 7) div 8" "(n * 60 + 7) div 8 < 65536"
    using n by linarith+
  show "0 < ec_rct_cutoff (jent_rct_init ec s)"
    "ec_rct_cutoff (jent_rct_init ec s) < ec_rct_cutoff_permanent (jent_rct_init ec s)"
    using s c d n
    by (auto simp: jent_rct_init_def Let_def JENT_HEALTH_RCT_INTERMITTENT_CUTOFF_def
        JENT_HEALTH_RCT_PERMANENT_CUTOFF_def word_less_nat_alt unat_of_nat take_bit_nat_eq_self)
qed

text \<open>What the cutoffs of an initialized collector satisfy, whatever the oversampling rate.\<close>

definition cutoffs_ok :: "rand_data \<Rightarrow> bool" where
  "cutoffs_ok ec \<longleftrightarrow>
     0 < ec_rct_cutoff ec \<and> ec_rct_cutoff ec < ec_rct_cutoff_permanent ec \<and>
     1 < ec_apt_cutoff ec \<and> ec_apt_cutoff ec \<le> ec_apt_cutoff_permanent ec \<and>
     ec_apt_cutoff_permanent ec \<le> JENT_APT_WINDOW_SIZE \<and>
     0 < ec_rct_mem_cutoff ec \<and> ec_rct_mem_cutoff_permanent ec > ec_rct_mem_cutoff ec \<and>
     0 < ec_lag_local_cutoff ec \<and> ec_lag_local_cutoff ec < ec_lag_local_cutoff_permanent ec \<and>
     ec_lag_local_cutoff_permanent ec < ec_lag_global_cutoff ec \<and>
     ec_lag_global_cutoff ec < ec_lag_global_cutoff_permanent ec \<and>
     ec_lag_global_cutoff_permanent ec < JENT_LAG_WINDOW_SIZE"

lemma health_init_cutoffs:
  assumes "1 \<le> ec_osr ec" "ec_osr ec \<le> JENT_MAX_OSR"
  shows "fst (jent_health_init ec t) = 0 \<and> cutoffs_ok (snd (jent_health_init ec t))"
proof -
  note i = osr_index [OF assms]
  have max: "\<not> ec_osr ec > JENT_MAX_OSR"
    using assms(2) by simp
  have rct: "0 < ec_rct_cutoff (jent_rct_init e s) \<and>
      ec_rct_cutoff (jent_rct_init e s) < ec_rct_cutoff_permanent (jent_rct_init e s)"
    if "ec_osr e = ec_osr ec" "s = 0 \<or> s = 8" for e s
    using rct_cutoffs_order [of e s] assms that by simp
  show ?thesis
  proof (cases t)
    case jent_health_init_type_common
    then show ?thesis
      using i max rct tables_at [OF i(1)]
      by (simp add: health_init_defs cutoffs_ok_def Let_def frame)
  next
    case jent_health_init_type_ntg1
    then show ?thesis
      using i max rct tables_at [OF i(1)]
      by (simp add: health_init_defs cutoffs_ok_def Let_def frame less_imp_le)
  qed
qed

subsection \<open>Repetition count test with memory\<close>

text \<open>The test over the measurements of one output block.\<close>

fun rct_mem_inserts ::
  "(rand_data \<Rightarrow> jent_env \<Rightarrow> (rand_data \<times> jent_env) option) \<Rightarrow> rand_data \<Rightarrow> jent_env \<Rightarrow> bool list \<Rightarrow>
   (rand_data \<times> jent_env) option" where
  "rct_mem_inserts rd ec env [] = Some (ec, env)"
| "rct_mem_inserts rd ec env (b # bs) = do {
     (ec, env) \<leftarrow> jent_rct_mem_insert rd ec env b;
     rct_mem_inserts rd ec env bs
   }"

text \<open>The stuck ones among every third measurement of the window of \<open>n\<close> measurements.\<close>

definition third_stuck :: "nat \<Rightarrow> bool list \<Rightarrow> nat" where
  "third_stuck n bs = length (filter (\<lambda>i. i mod 3 = 0 \<and> bs ! i) [0..<min (length bs) n])"

lemma rct_mem_inserts_append:
  "rct_mem_inserts rd ec env (xs @ ys) =
   do { (ec, env) \<leftarrow> rct_mem_inserts rd ec env xs; rct_mem_inserts rd ec env ys }"
proof (induction xs arbitrary: ec env)
  case (Cons x xs)
  then show ?case
    by (cases "jent_rct_mem_insert rd ec env x") auto
qed simp

lemma third_stuck_snoc:
  "third_stuck n (bs @ [b]) =
   third_stuck n bs + (if length bs < n \<and> length bs mod 3 = 0 \<and> b then 1 else 0)"
proof -
  have "filter (\<lambda>i. i mod 3 = 0 \<and> (bs @ [b]) ! i) [0..<min (length bs) n] =
      filter (\<lambda>i. i mod 3 = 0 \<and> bs ! i) [0..<min (length bs) n]"
    by (rule filter_cong) (auto simp: nth_append)
  moreover have "min (Suc (length bs)) n = min (length bs) n" if "\<not> length bs < n"
    using that by simp
  ultimately show ?thesis
    by (cases "length bs < n") (simp_all add: third_stuck_def)
qed

lemma third_stuck_le: "third_stuck n bs \<le> n"
  unfolding third_stuck_def by (rule le_trans [OF length_filter_le]) simp

text \<open>The state of the test after the measurements \<open>bs\<close> of a block.\<close>

definition rct_mem_at :: "rand_data \<Rightarrow> bool list \<Rightarrow> rand_data" where
  "rct_mem_at ec bs =
     (let n = unat (ec_rct_mem_nosr ec)
      in ec\<lparr>ec_rct_mem_ctr := of_nat (min (length bs) n),
            ec_rct_mem_count := (if bs = [] then ec_rct_mem_count ec else of_nat (third_stuck n bs))\<rparr>)"

lemma rct_mem_tally_at:
  fixes ec :: rand_data
  defines "n \<equiv> unat (ec_rct_mem_nosr ec)"
  shows "rct_mem_tally (rct_mem_at ec bs) b =
    ec\<lparr>ec_rct_mem_ctr := of_nat (min (length bs) n), ec_rct_mem_count := of_nat (third_stuck n (bs @ [b]))\<rparr>"
    and "JENT_RCT_MEM_IN_WINDOW (ec\<lparr>ec_rct_mem_ctr := of_nat (min (length bs) n), ec_rct_mem_count := c\<rparr>)
      \<longleftrightarrow> length bs < n"
proof -
  let ?m = "min (length bs) n"
  have lt: "?m < 2 ^ 16"
    using unsigned_less [of "ec_rct_mem_nosr ec", where 'a = nat] by (simp add: n_def min_def)
  then have u: "unat (of_nat ?m :: u16) = ?m"
    by (simp add: unat_of_nat take_bit_nat_eq_self)
  show w: "JENT_RCT_MEM_IN_WINDOW (ec\<lparr>ec_rct_mem_ctr := of_nat ?m, ec_rct_mem_count := c\<rparr>) \<longleftrightarrow> length bs < n" for c
    by (simp add: JENT_RCT_MEM_IN_WINDOW_def word_less_nat_alt u n_def [symmetric] min_less_iff_disj)
  have z: "(of_nat ?m :: u16) = 0 \<longleftrightarrow> ?m = 0"
    using u by (simp add: word_eq_unat)
  have sk: "JENT_RCT_MEM_SKIP_STUCK (ec\<lparr>ec_rct_mem_ctr := of_nat ?m, ec_rct_mem_count := c\<rparr>) \<longleftrightarrow> ?m mod 3 \<noteq> 0" for c
    by (simp add: JENT_RCT_MEM_SKIP_STUCK_def word_eq_unat unat_mod u)
  let ?e = "rct_mem_at ec bs"
  have "third_stuck n bs = 0" if "?m = 0"
    using that by (auto simp: third_stuck_def)
  then have e: "(if ec_rct_mem_ctr ?e = 0 then ?e\<lparr>ec_rct_mem_count := 0\<rparr> else ?e) =
      ec\<lparr>ec_rct_mem_ctr := of_nat ?m, ec_rct_mem_count := of_nat (third_stuck n bs)\<rparr>"
    unfolding rct_mem_at_def Let_def n_def [symmetric]
    by (cases "?m = 0"; cases "bs = []") (simp_all add: z)
  have sk': "?m mod 3 = 0 \<longleftrightarrow> length bs mod 3 = 0" if "length bs < n"
    using that by (simp add: min_def)
  show "rct_mem_tally ?e b =
      ec\<lparr>ec_rct_mem_ctr := of_nat ?m, ec_rct_mem_count := of_nat (third_stuck n (bs @ [b]))\<rparr>"
    unfolding rct_mem_tally_def e Let_def w sk third_stuck_snoc
    using sk' by (cases "length bs < n \<and> length bs mod 3 = 0 \<and> b") (auto simp: add.commute)
qed

lemma rct_mem_insert_at:
  fixes ec :: rand_data
  defines "n \<equiv> unat (ec_rct_mem_nosr ec)"
  assumes "third_stuck n (bs @ [b]) < unat (ec_rct_mem_cutoff ec)"
    and "ec_rct_mem_cutoff ec < ec_rct_mem_cutoff_permanent ec"
  shows "jent_rct_mem_insert rd (rct_mem_at ec bs) env b = Some (rct_mem_at ec (bs @ [b]), env)"
proof -
  let ?c = "third_stuck n (bs @ [b])"
  let ?e = "ec\<lparr>ec_rct_mem_ctr := of_nat (min (length bs) n), ec_rct_mem_count := of_nat ?c\<rparr>"
  have "?c < 2 ^ 16"
    using assms(2) unsigned_less [of "ec_rct_mem_cutoff ec", where 'a = nat] by simp
  then have "unat (of_nat ?c :: u16) = ?c"
    by (simp add: unat_of_nat take_bit_nat_eq_self)
  then have "\<not> of_nat ?c \<ge> ec_rct_mem_cutoff_permanent ec" "of_nat ?c \<noteq> ec_rct_mem_cutoff ec"
    using assms(2,3) by (simp_all add: word_le_nat_alt word_less_nat_alt word_eq_unat)
  note cut = this
  have t: "rct_mem_tally (rct_mem_at ec bs) b = ?e"
    unfolding n_def by (rule rct_mem_tally_at)
  have w: "JENT_RCT_MEM_IN_WINDOW ?e \<longleftrightarrow> length bs < n"
    unfolding n_def by (rule rct_mem_tally_at)
  have "(of_nat (min (length bs) n) + (if length bs < n then 1 else 0) :: u16) =
      of_nat (min (Suc (length bs)) n)"
    by (cases "length bs < n") (simp_all add: min_def add.commute)
  then show ?thesis
    unfolding jent_rct_mem_insert_def t Let_def
    using cut by (auto simp: w rct_mem_at_def [of ec "bs @ [b]"] n_def [symmetric] split: if_splits)
qed

lemma rct_mem_inserts_at:
  assumes "third_stuck (unat (ec_rct_mem_nosr ec)) bs < unat (ec_rct_mem_cutoff ec)"
    and "ec_rct_mem_cutoff ec < ec_rct_mem_cutoff_permanent ec" "ec_rct_mem_ctr ec = 0"
  shows "rct_mem_inserts rd ec env bs = Some (rct_mem_at ec bs, env)"
  using assms(1)
proof (induction bs rule: rev_induct)
  case Nil
  have "ec\<lparr>ec_rct_mem_ctr := 0, ec_rct_mem_count := ec_rct_mem_count ec\<rparr> = ec"
    using assms(3) by simp
  then show ?case
    by (simp add: rct_mem_at_def)
next
  case (snoc b bs)
  then have "third_stuck (unat (ec_rct_mem_nosr ec)) bs < unat (ec_rct_mem_cutoff ec)"
    by (simp add: third_stuck_snoc)
  with snoc rct_mem_insert_at [OF snoc.prems assms(2), of rd env] show ?case
    by (simp add: rct_mem_inserts_append)
qed

text \<open>The measurement that reaches the intermittent cutoff.\<close>

lemma rct_mem_insert_hit:
  fixes ec :: rand_data
  defines "n \<equiv> unat (ec_rct_mem_nosr ec)"
  assumes "Suc (third_stuck n bs) = unat (ec_rct_mem_cutoff ec)"
    and "ec_rct_mem_cutoff ec < ec_rct_mem_cutoff_permanent ec"
    and "length bs < n" "length bs mod 3 = 0"
  shows "jent_rct_mem_insert rd (rct_mem_at ec bs) env True =
    (let e = ec\<lparr>ec_rct_mem_ctr := of_nat (length bs), ec_rct_mem_count := ec_rct_mem_cutoff ec\<rparr>
     in if ec_in_recovery ec
        then Some (e\<lparr>ec_health_failure := ec_health_failure ec OR JENT_RCT_MEM_FAILURE,
                     ec_rct_mem_ctr := of_nat (Suc (length bs))\<rparr>, env)
        else do { (ec, env) \<leftarrow> rct_mem_recover rd e env;
                  Some (if JENT_RCT_MEM_IN_WINDOW ec
                        then ec\<lparr>ec_rct_mem_ctr := ec_rct_mem_ctr ec + 1\<rparr> else ec, env) })"
proof -
  let ?e = "ec\<lparr>ec_rct_mem_ctr := of_nat (length bs), ec_rct_mem_count := ec_rct_mem_cutoff ec\<rparr>"
  have "third_stuck n (bs @ [True]) = unat (ec_rct_mem_cutoff ec)"
    using assms(2,4,5) by (simp add: third_stuck_snoc)
  then have "of_nat (third_stuck n (bs @ [True])) = ec_rct_mem_cutoff ec"
    by simp
  then have t: "rct_mem_tally (rct_mem_at ec bs) True = ?e"
    using rct_mem_tally_at(1) [where ec = ec and bs = bs and b = True] assms(4) by (simp add: n_def min_def)
  have w: "JENT_RCT_MEM_IN_WINDOW ?e"
    using rct_mem_tally_at(2) [where ec = ec and bs = bs and c = "ec_rct_mem_cutoff ec"] assms(4) by (simp add: n_def min_def)
  then have w': "JENT_RCT_MEM_IN_WINDOW (?e\<lparr>ec_health_failure := f\<rparr>)" for f
    by (simp add: JENT_RCT_MEM_IN_WINDOW_def)
  have "\<not> ec_rct_mem_cutoff_permanent ec \<le> ec_rct_mem_cutoff ec"
    using assms(3) by simp
  with w w' show ?thesis
    unfolding jent_rct_mem_insert_def t Let_def by (simp add: add.commute)
qed

lemma rct_mem_common_cutoff:
  assumes "1 \<le> ec_osr ec" "ec_osr ec \<le> JENT_MAX_OSR"
  shows "unat (ec_rct_mem_cutoff (jent_rct_mem_init ec)) = 107 * unat (ec_osr ec)"
    and "ec_rct_mem_cutoff (jent_rct_mem_init ec) < ec_rct_mem_cutoff_permanent (jent_rct_mem_init ec)"
proof -
  note i = osr_index [OF assms]
  have tbl: "jent_rct_mem_cutoff_lookup = map (\<lambda>i. of_nat (107 * Suc i)) [0..<20]"
    by (simp add: jent_rct_mem_cutoff_lookup_def upt_conv_Cons)
  have "ec_rct_mem_cutoff (jent_rct_mem_init ec) = jent_rct_mem_cutoff_lookup ! unat (ec_osr ec - 1)"
    by (simp add: jent_rct_mem_init_def)
  also have "\<dots> = of_nat (107 * Suc (unat (ec_osr ec - 1)))"
    unfolding tbl using i(1) by (subst nth_map) simp_all
  finally have "ec_rct_mem_cutoff (jent_rct_mem_init ec) = of_nat (107 * Suc (unat (ec_osr ec - 1)))" .
  moreover have "Suc (unat (ec_osr ec - 1)) = unat (ec_osr ec)"
    using assms(1) by (simp add: unat_sub word_le_nat_alt)
  moreover have "unat (ec_osr ec) \<le> 20"
    using assms(2) by (simp add: word_le_nat_alt JENT_MAX_OSR_def)
  ultimately have "ec_rct_mem_cutoff (jent_rct_mem_init ec) = of_nat (107 * unat (ec_osr ec))"
    "107 * unat (ec_osr ec) < 2 ^ 16"
    by simp_all
  then show "unat (ec_rct_mem_cutoff (jent_rct_mem_init ec)) = 107 * unat (ec_osr ec)"
    using unat_of_nat_small [of "107 * unat (ec_osr ec)", where 'a = 16] by (simp only: len_num1 len_bit0) simp
  show "ec_rct_mem_cutoff (jent_rct_mem_init ec) < ec_rct_mem_cutoff_permanent (jent_rct_mem_init ec)"
    using tables_at(6) [OF i(1)] by (simp add: jent_rct_mem_init_def)
qed

lemma third_stuck_pattern:
  "3 * k \<le> n \<Longrightarrow> third_stuck n (concat (replicate k [True, False, False])) = k"
proof (induction k)
  case (Suc k)
  let ?p = "concat (replicate k [True, False, False])"
  have "length ?p = 3 * k"
    by (induction k) simp_all
  moreover have "concat (replicate (Suc k) [True, False, False]) = ((?p @ [True]) @ [False]) @ [False]"
    by (simp flip: replicate_append_same)
  ultimately show ?case
    using Suc by (simp only: third_stuck_snoc) simp
qed (simp add: third_stuck_def)

subsection \<open>Escalation over a reallocation\<close>

lemma rct_insert_all_stuck:
  assumes "ec_rct_count ec = ucast (ec_rct_cutoff ec)" "ec_rct_cutoff ec < ec_rct_cutoff_permanent ec"
    and "k < unat (ec_rct_cutoff_permanent ec) - unat (ec_rct_cutoff ec)"
  shows "ec_rct_count (foldl jent_rct_insert ec (replicate k True)) = of_nat (unat (ec_rct_cutoff ec) + k) \<and>
    ec_health_failure (foldl jent_rct_insert ec (replicate k True)) = ec_health_failure ec"
  using assms(3)
proof (induction k)
  case 0
  then show ?case
    using assms(1) by simp
next
  case (Suc k)
  define e where "e = foldl jent_rct_insert ec (replicate k True)"
  let ?c = "unat (ec_rct_cutoff ec)" and ?p = "unat (ec_rct_cutoff_permanent ec)"
  have "replicate (Suc k) True = replicate k True @ [True]"
    by (simp add: replicate_append_same)
  then have step: "foldl jent_rct_insert ec (replicate (Suc k) True) = jent_rct_insert e True"
    by (simp add: e_def del: replicate_Suc)
  have "?p < 2 ^ 16"
    using unsigned_less [of "ec_rct_cutoff_permanent ec", where 'a = nat] by simp
  then have u: "unat (of_nat (?c + k) + 1 :: u32) = ?c + Suc k"
    using Suc.prems by (simp add: unat_word_ariths unat_of_nat take_bit_nat_eq_self)
  have "ec_rct_count e = of_nat (?c + k)" "ec_health_failure e = ec_health_failure ec"
    "ec_rct_cutoff e = ec_rct_cutoff ec" "ec_rct_cutoff_permanent e = ec_rct_cutoff_permanent ec"
    using Suc by (simp_all add: e_def frame)
  note e = this
  define v :: u32 where "v = of_nat (?c + k) + 1"
  have "ec_rct_count e + 1 = v" "\<not> ucast (ec_rct_cutoff_permanent e) \<le> v" "v \<noteq> ucast (ec_rct_cutoff e)"
    using u Suc.prems unfolding word_le_nat_alt word_eq_unat e v_def [symmetric] by (simp_all add: v_def)
  then have "jent_rct_insert e True = e\<lparr>ec_rct_count := v\<rparr>"
    by (simp add: jent_rct_insert_def)
  then show ?case
    unfolding step by (simp add: e v_def)
qed

end
