(* ===== verification/Jent_Health_Props.thy ===== *)
theory Jent_Health_Props
  imports Jent_Health_Laws
begin

text \<open>
  The properties of the health tests: what each test detects, the consistency of the cutoffs, the
  reporting, and the escalation over a reallocation.
\<close>

text \<open>C14: the repetition count test raises the permanent failure exactly when at least
  \<open>rct_cutoff_permanent\<close> measurements in a row were stuck, the intermittent one exactly when at least
  \<open>rct_cutoff\<close> in a row were, for every sequence of stuck verdicts (below the range of the 32-bit
  counter), and its counter is the length of the current run.\<close>

theorem rct_detects_runs:
  assumes "ec_rct_count ec = 0" "ec_rct_cutoff ec \<noteq> 0"
    and "ec_rct_cutoff ec < ec_rct_cutoff_permanent ec" "length bs < 2 ^ 32"
  shows "ec_rct_count (foldl jent_rct_insert ec bs) = of_nat (end_run bs) \<and>
    ec_health_failure (foldl jent_rct_insert ec bs) = ec_health_failure ec OR
      (if stuck_run (unat (ec_rct_cutoff_permanent ec)) bs then JENT_RCT_FAILURE_PERMANENT else 0) OR
      (if stuck_run (unat (ec_rct_cutoff ec)) bs then JENT_RCT_FAILURE else 0)"
  using assms by (rule rct_inserts)

theorem rct_detects_runs_witness:
  "ec_rct_count (foldl jent_rct_insert (zero_rand_data\<lparr>ec_rct_cutoff := 2, ec_rct_cutoff_permanent := 4\<rparr>)
     [True, True, False, True]) = 1 \<and>
   ec_health_failure (foldl jent_rct_insert (zero_rand_data\<lparr>ec_rct_cutoff := 2, ec_rct_cutoff_permanent := 4\<rparr>)
     [True, True, False, True]) = JENT_RCT_FAILURE"
proof -
  have "stuck_run 2 [True, True, False, True]"
    unfolding stuck_run_def by (intro exI [of _ 0]) (auto simp: less_2_cases_iff)
  moreover have "\<not> stuck_run 4 [True, True, False, True]"
    by (auto simp: stuck_run_def intro!: exI [of _ 2])
  moreover have "end_run [True, True, False, True] = 1"
    by (simp add: end_run_def)
  ultimately show ?thesis
    using rct_detects_runs [of "zero_rand_data\<lparr>ec_rct_cutoff := 2, ec_rct_cutoff_permanent := 4\<rparr>"
        "[True, True, False, True]"]
    by simp
qed

text \<open>C15: the adaptive proportion test over any sequence of deltas: cut into windows of 512, it raises
  the permanent failure exactly when in some window, complete or not, the first delta occurs at least
  \<open>apt_cutoff_permanent\<close> times, and the intermittent one exactly when it occurs at least \<open>apt_cutoff\<close>
  times and that cutoff is below the permanent one.\<close>

theorem apt_detects_windows:
  assumes "\<not> ec_apt_base_set ec" "1 < unat (ec_apt_cutoff ec)"
    and "ec_apt_cutoff ec \<le> ec_apt_cutoff_permanent ec"
  shows "ec_health_failure (foldl jent_apt_insert ec ds) = ec_health_failure ec OR
     (if apt_hits (unat (ec_apt_cutoff_permanent ec)) ds then JENT_APT_FAILURE_PERMANENT else 0) OR
     (if apt_hits (unat (ec_apt_cutoff ec)) ds \<and> ec_apt_cutoff ec < ec_apt_cutoff_permanent ec
      then JENT_APT_FAILURE else 0)"
  using apt_inserts [OF assms, of ds] by (simp add: apt_verdict_def or.assoc)

theorem apt_detects_windows_witness:
  "ec_health_failure (foldl jent_apt_insert (zero_rand_data\<lparr>ec_apt_cutoff := 2, ec_apt_cutoff_permanent := 3\<rparr>)
     [7, 8, 7]) = JENT_APT_FAILURE"
proof -
  have w: "apt_window [7, 8, 7] j = (if j = 0 then [7, 8, 7] else [])" for j
    by (simp add: apt_window_def)
  have "apt_hits 2 [7, 8, 7]" "\<not> apt_hits 3 [7, 8, 7]"
    by (auto simp: apt_hits_def w intro!: exI [of _ 0])
  then show ?thesis
    using apt_detects_windows [of "zero_rand_data\<lparr>ec_apt_cutoff := 2, ec_apt_cutoff_permanent := 3\<rparr>" "[7, 8, 7]"]
    by simp
qed

text \<open>C17: the lag history is a ring of the last eight deltas since the last reset: \<open>JENT_LAG_HISTORY\<close>
  with argument \<open>i\<close> is the delta \<open>i + 1\<close> insertions ago, for all insertions of a window. So the second
  and the third derivative of the stuck test are those of the sequence of deltas.\<close>

theorem lag_history_recent:
  assumes "length ds < 2 ^ 17" "i < 8" "i < length ds" "2 \<le> length ds"
  shows "JENT_LAG_HISTORY (foldl jent_lag_insert (jent_lag_reset ec) ds) (of_nat i) = rev ds ! i \<and>
    jent_delta2 (foldl jent_lag_insert (jent_lag_reset ec) ds) d = d - rev ds ! 0 \<and>
    jent_delta3 (foldl jent_lag_insert (jent_lag_reset ec) ds) (d - rev ds ! 0) =
      (d - rev ds ! 0) - (rev ds ! 0 - rev ds ! 1)"
proof -
  note ring = lag_ring_inserts [OF assms(1), of ec]
  have "0 < length ds" "1 < length ds"
    using assms(4) by linarith+
  then have "rev ds ! i = ds ! (length ds - 1 - i)" "rev ds ! 0 = ds ! (length ds - 1)"
    "rev ds ! 1 = ds ! (length ds - 2)"
    using assms(3) by (simp_all add: rev_nth numeral_2_eq_2)
  then show ?thesis
    using lag_ring_history [OF ring assms(2,3)] jent_delta23 [OF ring assms(4), of d] by metis
qed

theorem lag_history_recent_witness:
  "JENT_LAG_HISTORY (foldl jent_lag_insert (jent_lag_reset zero_rand_data) [5, 6, 7, 8]) 1 = 7"
  using lag_history_recent [of "[5, 6, 7, 8]" 1 zero_rand_data 0] by simp

text \<open>C18: every index the lag predictor uses is in range (the eight-element history and scoreboard,
  the best predictor below eight) and the observation counter stays inside its window: the reset
  establishes it, insertion and duplication keep it.\<close>

theorem lag_invariant:
  "lag_ok (jent_lag_reset ec) \<and> (lag_ok ec \<longrightarrow> lag_ok (jent_lag_insert ec d)) \<and>
   (lag_ok ec \<longrightarrow> lag_ok (jent_lag_duplicate new_ec ec))"
  using lag_insert_ok [of ec d] lag_duplicate_ok [of ec new_ec] by simp

theorem lag_invariant_witness:
  "lag_ok (jent_lag_insert (jent_lag_reset zero_rand_data) 5)"
  using lag_invariant [of zero_rand_data] lag_invariant [of "jent_lag_reset zero_rand_data" 5] by simp

text \<open>C23: the initialization of the health tests refuses an oversampling rate of zero or above
  JENT_MAX_OSR, for which the cutoff tables have no entry, with a non-zero code and only the RCT
  counter reset; for every other rate, in both modes, it succeeds and the cutoffs are consistent:
  every intermittent cutoff is positive and does not exceed the permanent one (strictly below it but
  for the APT), and the permanent ones of the APT and the lag predictor fit their windows.\<close>

theorem health_init_total:
  "(if ec_osr ec = 0 \<or> ec_osr ec > JENT_MAX_OSR
    then jent_health_init ec t = (1, ec\<lparr>ec_rct_count := 0\<rparr>)
    else fst (jent_health_init ec t) = 0 \<and> cutoffs_ok (snd (jent_health_init ec t)))"
proof (cases "ec_osr ec = 0 \<or> ec_osr ec > JENT_MAX_OSR")
  case True
  then show ?thesis
    by (auto simp: jent_health_init_def)
next
  case False
  then have "1 \<le> ec_osr ec" "ec_osr ec \<le> JENT_MAX_OSR"
    by (simp_all add: word_le_nat_alt word_eq_unat not_less)
  with False health_init_cutoffs [of ec t] show ?thesis
    by simp
qed

text \<open>C16: within an output block of \<open>rct_mem_nosr\<close> measurements the RCT with memory counts the stuck
  ones among every third measurement, starting from zero whatever the counter held before; as long
  as that count stays below the intermittent cutoff it changes nothing else, and measurements beyond
  the window are ignored.\<close>

theorem rct_mem_counts_thirds:
  assumes "third_stuck (unat (ec_rct_mem_nosr ec)) bs < unat (ec_rct_mem_cutoff ec)"
    and "ec_rct_mem_cutoff ec < ec_rct_mem_cutoff_permanent ec" "ec_rct_mem_ctr ec = 0" "bs \<noteq> []"
  shows "rct_mem_inserts rd ec env bs =
    Some (ec\<lparr>ec_rct_mem_ctr := of_nat (min (length bs) (unat (ec_rct_mem_nosr ec))),
             ec_rct_mem_count := of_nat (third_stuck (unat (ec_rct_mem_nosr ec)) bs)\<rparr>, env)"
  using rct_mem_inserts_at [OF assms(1-3)] assms(4) by (simp add: rct_mem_at_def Let_def)

theorem rct_mem_counts_thirds_witness:
  "\<exists>ec'. rct_mem_inserts (\<lambda>_ _. None)
     (zero_rand_data\<lparr>ec_rct_mem_nosr := 6, ec_rct_mem_cutoff := 3, ec_rct_mem_cutoff_permanent := 4,
        ec_rct_mem_count := 3\<rparr>) start_env [True, True, False, True] = Some (ec', start_env) \<and> ec_rct_mem_count ec' = 2"
proof -
  have "[0..<4] = [0, 1, 2, 3]"
    by (simp add: upt_conv_Cons)
  then have "third_stuck 6 [True, True, False, True] = 2"
    by (simp add: third_stuck_def)
  then show ?thesis
    using rct_mem_counts_thirds [of "zero_rand_data\<lparr>ec_rct_mem_nosr := 6, ec_rct_mem_cutoff := 3,
        ec_rct_mem_cutoff_permanent := 4, ec_rct_mem_count := 3\<rparr>" "[True, True, False, True]" "\<lambda>_ _. None" start_env]
    by simp
qed

text \<open>C26: in FIPS mode the RCT with memory can fail also with the cutoffs of the common case: when
  every third measurement of the window of 321 * osr measurements is stuck and no other one is, the
  count reaches the intermittent cutoff of 107 * osr at the last third; a collector that is in its
  recovery loop then reports the failure.\<close>

theorem rct_mem_common_can_fail:
  assumes "1 \<le> ec_osr ec" "ec_osr ec \<le> JENT_MAX_OSR" "ec_in_recovery ec" "ec_rct_mem_ctr ec = 0"
    and "unat (ec_rct_mem_nosr ec) = 321 * unat (ec_osr ec)"
  shows "\<exists>ec'. rct_mem_inserts rd (jent_rct_mem_init ec) env
      (concat (replicate (107 * unat (ec_osr ec) - 1) [True, False, False]) @ [True]) = Some (ec', env) \<and>
    ec_health_failure ec' = ec_health_failure ec OR JENT_RCT_MEM_FAILURE"
proof -
  define n where "n = unat (ec_osr ec)"
  define k where "k = 107 * n - 1"
  let ?e = "jent_rct_mem_init ec"
  let ?p = "concat (replicate k [True, False, False])"
  have n: "Suc k = 107 * n" "n \<le> 20" "3 * k < 321 * n"
    using assms(1,2) by (simp_all add: k_def n_def word_le_nat_alt JENT_MAX_OSR_def)
  have cut: "unat (ec_rct_mem_cutoff ?e) = Suc k" "ec_rct_mem_cutoff ?e < ec_rct_mem_cutoff_permanent ?e"
    using rct_mem_common_cutoff [OF assms(1,2)] n(1) by (simp_all add: n_def)
  have nosr: "unat (ec_rct_mem_nosr ?e) = 321 * n"
    using assms(5) by (simp add: jent_rct_mem_init_def n_def)
  have len: "length (concat (replicate k [True, False, False])) = 3 * k" for k
    by (induction k) simp_all
  have st: "third_stuck (321 * n) ?p = k"
    using n(3) by (intro third_stuck_pattern) simp
  have ctr: "ec_rct_mem_ctr ?e = 0" and rec: "ec_in_recovery ?e"
    using assms(3,4) by (simp_all add: jent_rct_mem_init_def)
  have "rct_mem_inserts rd ?e env ?p = Some (rct_mem_at ?e ?p, env)"
    by (intro rct_mem_inserts_at cut(2) ctr) (simp add: nosr st cut(1))
  moreover have "jent_rct_mem_insert rd (rct_mem_at ?e ?p) env True =
      Some (?e\<lparr>ec_rct_mem_ctr := of_nat (Suc (length ?p)), ec_rct_mem_count := ec_rct_mem_cutoff ?e,
               ec_health_failure := ec_health_failure ?e OR JENT_RCT_MEM_FAILURE\<rparr>, env)"
    using n(3) rec by (subst rct_mem_insert_hit [OF _ cut(2)]) (simp_all add: nosr st cut(1) len Let_def)
  ultimately show ?thesis
    unfolding n_def [symmetric] k_def [symmetric] rct_mem_inserts_append
    by (simp add: jent_rct_mem_init_def)
qed

theorem rct_mem_common_can_fail_witness:
  "\<exists>ec'. rct_mem_inserts (\<lambda>_ _. None)
      (jent_rct_mem_init (zero_rand_data\<lparr>ec_osr := 3, ec_in_recovery := True, ec_rct_mem_nosr := 963\<rparr>)) start_env
      (concat (replicate 320 [True, False, False]) @ [True]) = Some (ec', start_env) \<and>
    ec_health_failure ec' = JENT_RCT_MEM_FAILURE"
  using rct_mem_common_can_fail [of "zero_rand_data\<lparr>ec_osr := 3, ec_in_recovery := True, ec_rct_mem_nosr := 963\<rparr>"
      "\<lambda>_ _. None" start_env]
  by (simp add: JENT_MAX_OSR_def)

text \<open>C24: the reallocation of a collector does not clear the repetition count test. The replacement
  starts at its intermittent cutoff without a failure of its own; as many further stuck measurements
  as separate the two cutoffs raise the permanent failure, and one fewer does not.\<close>

theorem duplicate_escalates:
  assumes "ec_rct_cutoff new_ec < ec_rct_cutoff_permanent new_ec"
    and "k = unat (ec_rct_cutoff_permanent new_ec) - unat (ec_rct_cutoff new_ec)"
  shows "ec_health_failure (foldl jent_rct_insert (jent_health_duplicate new_ec old_ec) (replicate (k - 1) True)) =
      ec_health_failure new_ec \<and>
    ec_health_failure (foldl jent_rct_insert (jent_health_duplicate new_ec old_ec) (replicate k True)) =
      ec_health_failure new_ec OR JENT_RCT_FAILURE_PERMANENT"
proof -
  define d where "d = jent_health_duplicate new_ec old_ec"
  have d: "ec_rct_count d = ucast (ec_rct_cutoff d)" "ec_rct_cutoff d = ec_rct_cutoff new_ec"
    "ec_rct_cutoff_permanent d = ec_rct_cutoff_permanent new_ec" "ec_health_failure d = ec_health_failure new_ec"
    by (simp_all add: d_def jent_health_duplicate_def jent_rct_duplicate_def jent_rct_mem_duplicate_def
        jent_apt_duplicate_def jent_apt_reinit_def jent_lag_duplicate_def Let_def)
  have k: "k - 1 < k" "Suc (k - 1) = k" "unat (ec_rct_cutoff new_ec) + k = unat (ec_rct_cutoff_permanent new_ec)"
    using assms by (simp_all add: word_less_nat_alt)
  define e where "e = foldl jent_rct_insert d (replicate (k - 1) True)"
  have e: "ec_rct_count e = of_nat (unat (ec_rct_cutoff d) + (k - 1))" "ec_health_failure e = ec_health_failure d"
    "ec_rct_cutoff_permanent e = ec_rct_cutoff_permanent d"
    using rct_insert_all_stuck [OF d(1), of "k - 1"] assms k(1) by (simp_all add: e_def d frame)
  have "replicate (Suc (k - 1)) True = replicate (k - 1) True @ [True]"
    by (simp only: replicate_Suc replicate_append_same)
  then have step: "foldl jent_rct_insert d (replicate k True) = jent_rct_insert e True"
    by (simp only: k(2) e_def foldl_append foldl.simps)
  have "ec_rct_count e + 1 = of_nat (Suc (unat (ec_rct_cutoff d) + (k - 1)))"
    by (simp add: e(1))
  also have "Suc (unat (ec_rct_cutoff d) + (k - 1)) = unat (ec_rct_cutoff_permanent d)"
    using k unfolding d by linarith
  finally have "ec_rct_count e + 1 = ucast (ec_rct_cutoff_permanent d)"
    by simp
  then have "ec_health_failure (jent_rct_insert e True) = ec_health_failure d OR JENT_RCT_FAILURE_PERMANENT"
    by (simp add: jent_rct_insert_def Let_def e)
  then show ?thesis
    unfolding d_def [symmetric] step e_def [symmetric] using e(2) d(4) by simp
qed

theorem duplicate_escalates_witness:
  "ec_health_failure (foldl jent_rct_insert (jent_health_duplicate
     (zero_rand_data\<lparr>ec_rct_cutoff := 2, ec_rct_cutoff_permanent := 4\<rparr>) zero_rand_data) [True, True]) =
   JENT_RCT_FAILURE_PERMANENT"
proof -
  let ?n = "zero_rand_data\<lparr>ec_rct_cutoff := 2, ec_rct_cutoff_permanent := 4\<rparr>"
  have "replicate 2 True = [True, True]"
    by (simp add: numeral_2_eq_2)
  moreover have "ec_rct_cutoff ?n < ec_rct_cutoff_permanent ?n"
    "2 = unat (ec_rct_cutoff_permanent ?n) - unat (ec_rct_cutoff ?n)" "ec_health_failure ?n = 0"
    by simp_all
  ultimately show ?thesis
    using duplicate_escalates [of ?n 2 zero_rand_data] by (simp only: or.left_neutral simp_thms)
qed

end
