(* ===== verification/Jent_Timer.thy ===== *)
theory Jent_Timer
  imports Jent_Health
begin

text \<open>
  \<^verbatim>\<open>src/jitterentropy-timer.c\<close>: the internal timer, a counting thread that replaces a missing
  high-resolution clock, and its configuration, in the order of the file, for a hosted 64-bit build.

  The thread is seen through the values \<^verbatim>\<open>notime_timer\<close> has at the polls of the collector
  (\<open>env_ticks\<close>). The builtin handler's context is the CPU number it holds; a registered handler
  returns an opaque context. Waiting for a tick is a loop with fuel.
\<close>

subsection \<open>Definitions\<close>

definition ENOENT :: int where "ENOENT = 2"
definition ENOMEM :: int where "ENOMEM = 12"
definition EINVAL :: int where "EINVAL = 22"

definition JENT_NOTIME_CPU_DEFAULT :: u64 where
  "JENT_NOTIME_CPU_DEFAULT = - 1"

definition jent_notime_init_flags :: "u32 \<Rightarrow> jent_env \<Rightarrow> (int \<times> u64 option) \<times> jent_env" where
  "jent_notime_init_flags flags env =
     (let ncpu = env_ncpu env
      in if ncpu < 0 then ((ncpu, None), env)
         else if ncpu < 2 then ((- ENOENT, None), env)
         else let (ok, env) = jent_zalloc Sizeof_notime_ctx flags env
              in if \<not> ok then ((- ENOMEM, None), env)
                 else ((0, Some (case g_notime_cpu env of
                                   Some cpu \<Rightarrow> cpu
                                 | None \<Rightarrow> JENT_NOTIME_CPU_DEFAULT)), env))"

definition jent_notime_init :: "jent_env \<Rightarrow> (int \<times> u64 option) \<times> jent_env" where
  "jent_notime_init env = jent_notime_init_flags 0 env"

definition jent_notime_fini :: "u64 option \<Rightarrow> jent_env \<Rightarrow> jent_env" where
  "jent_notime_fini ctx env =
     (if ctx \<noteq> None then jent_zfree Sizeof_notime_ctx Sizeof_notime_ctx env else env)"

text \<open>Creating the thread with the registered handler; the builtin one needs its context.\<close>

definition jent_notime_start :: "u64 option \<Rightarrow> jent_env \<Rightarrow> int \<times> jent_env" where
  "jent_notime_start ctx env =
     (if g_notime_thread env = Notime_Builtin \<and> ctx = None then (- EINVAL, env)
      else (env_thread_start env (env_thread_pos env),
            env\<lparr>env_thread_pos := Suc (env_thread_pos env)\<rparr>))"

definition jent_notime_block_switch :: "jent_env \<Rightarrow> jent_env" where
  "jent_notime_block_switch env = env\<lparr>g_notime_switch_blocked := True\<rparr>"

definition jent_notime_set_cpu :: "u64 \<Rightarrow> jent_env \<Rightarrow> int \<times> jent_env" where
  "jent_notime_set_cpu cpu env =
     (if g_notime_switch_blocked env then (- EAGAIN, env)
      else (0, env\<lparr>g_notime_cpu := Some cpu\<rparr>))"

text \<open>The CPU the counting thread pins itself to, if any.\<close>

definition notime_pin_cpu :: "u64 option \<Rightarrow> jent_env \<Rightarrow> u64 option" where
  "notime_pin_cpu ctx env =
     (case ctx of
        None \<Rightarrow> None
      | Some cpu \<Rightarrow>
          if g_notime_thread env \<noteq> Notime_Builtin then None
          else if cpu = JENT_NOTIME_CPU_DEFAULT
          then if env_cpu_highest env \<ge> 0 then Some (of_int (env_cpu_highest env)) else None
          else Some cpu)"

text \<open>The counting loop: \<open>interrupt i\<close> is what the thread reads from \<^verbatim>\<open>notime_interrupt\<close> before its
  \<open>i\<close>-th increment. The result is the value it leaves in \<^verbatim>\<open>notime_timer\<close>.\<close>

fun notime_count :: "nat \<Rightarrow> (nat \<Rightarrow> bool) \<Rightarrow> nat \<Rightarrow> u64 \<Rightarrow> u64 option" where
  "notime_count 0 interrupt i timer = None"
| "notime_count (Suc fuel) interrupt i timer =
     (if interrupt i then Some timer else notime_count fuel interrupt (Suc i) (timer + 1))"

text \<open>The thread function. The result is the CPU it has asked to be pinned to, if any, and the value
  it leaves in the counter.\<close>

definition jent_notime_sample_timer ::
  "nat \<Rightarrow> (nat \<Rightarrow> bool) \<Rightarrow> rand_data \<Rightarrow> jent_env \<Rightarrow> (u64 option \<times> u64) option" where
  "jent_notime_sample_timer fuel interrupt ec env =
     (let pin = notime_pin_cpu (ec_notime_thread_ctx ec) env
      in map_option (\<lambda>timer. (pin, timer)) (notime_count fuel interrupt 0 0))"

definition jent_notime_settick :: "rand_data \<Rightarrow> jent_env \<Rightarrow> int \<times> rand_data \<times> jent_env" where
  "jent_notime_settick ec env =
     (if \<not> ec_enable_notime ec then (0, ec, env)
      else let ec = ec\<lparr>ec_notime_interrupt := False, ec_notime_prev_timer := 0\<rparr>;
               (ret, env) = jent_notime_start (ec_notime_thread_ctx ec) env;
               ec = (if ret = 0 then ec\<lparr>ec_notime_running := True\<rparr> else ec)
           in (ret, ec, env))"

definition jent_notime_unsettick :: "rand_data \<Rightarrow> rand_data" where
  "jent_notime_unsettick ec =
     (if \<not> ec_enable_notime ec \<or> \<not> ec_notime_running ec then ec
      else ec\<lparr>ec_notime_interrupt := True, ec_notime_running := False\<rparr>)"

text \<open>One poll of the counter.\<close>

definition jent_notime_read :: "jent_env \<Rightarrow> u64 \<times> jent_env" where
  "jent_notime_read env =
     (env_ticks env (env_tick_pos env), env\<lparr>env_tick_pos := Suc (env_tick_pos env)\<rparr>)"

text \<open>The loop that waits until the counter has moved past \<open>prev\<close>.\<close>

fun notime_wait :: "nat \<Rightarrow> u64 \<Rightarrow> jent_env \<Rightarrow> (u64 \<times> jent_env) option" where
  "notime_wait 0 prev env = None"
| "notime_wait (Suc fuel) prev env =
     (let (now, env) = jent_notime_read env
      in if now \<le> prev then notime_wait fuel prev env else Some (now, env))"

definition jent_get_nstime_internal ::
  "nat \<Rightarrow> rand_data \<Rightarrow> jent_env \<Rightarrow> (u64 \<times> rand_data \<times> jent_env) option" where
  "jent_get_nstime_internal fuel ec env =
     (if ec_enable_notime ec
      then do {
        (now, env) \<leftarrow> notime_wait fuel (ec_notime_prev_timer ec) env;
        Some (now, ec\<lparr>ec_notime_prev_timer := now\<rparr>, env)
      }
      else let (now, env) = jent_get_nstime env in Some (now, ec, env))"

definition jent_notime_enable_thread :: "rand_data \<Rightarrow> u32 \<Rightarrow> jent_env \<Rightarrow> int \<times> rand_data \<times> jent_env" where
  "jent_notime_enable_thread ec flags env =
     (let ((ret, ctx), env) =
            (case g_notime_thread env of
               Notime_Builtin \<Rightarrow> jent_notime_init_flags flags env
             | Notime_External h \<Rightarrow> (env_external_init env h, env))
      in (ret, ec\<lparr>ec_notime_thread_ctx := (if ret \<noteq> 0 then None else ctx)\<rparr>, env))"

text \<open>What the function of a registered handler does with its context is not the library's.\<close>

definition jent_notime_disable :: "rand_data \<Rightarrow> jent_env \<Rightarrow> rand_data \<times> jent_env" where
  "jent_notime_disable ec env =
     (if ec_notime_thread_ctx ec \<noteq> None
      then (ec\<lparr>ec_notime_thread_ctx := None\<rparr>,
            case g_notime_thread env of
              Notime_Builtin \<Rightarrow> jent_notime_fini (ec_notime_thread_ctx ec) env
            | Notime_External h \<Rightarrow> env)
      else (ec, env))"

text \<open>\<open>time_entropy_init\<close> stands for the startup measurement \<^verbatim>\<open>jent_time_entropy_init\<close>.\<close>

definition jent_notime_enable ::
  "(u32 \<Rightarrow> u32 \<Rightarrow> jent_env \<Rightarrow> (int \<times> jent_env) option) \<Rightarrow> rand_data \<Rightarrow> u32 \<Rightarrow> jent_env \<Rightarrow>
   (int \<times> rand_data \<times> jent_env) option" where
  "jent_notime_enable time_entropy_init ec flags env =
     (let forced = g_force_internal_timer env
      in if forced \<or> has flags JENT_FORCE_INTERNAL_TIMER
         then do {
           (ret, env) \<leftarrow>
             (if \<not> forced then time_entropy_init (ec_osr ec) (flags OR JENT_FORCE_INTERNAL_TIMER) env
              else Some (0, env));
           if ret \<noteq> 0 then Some (EHEALTH, ec, env)
           else Some (jent_notime_enable_thread (ec\<lparr>ec_enable_notime := True\<rparr>) flags env)
         }
         else Some (0, ec, env))"

text \<open>A handler the application offers: the null pointer, one with a missing function, the builtin
  one, or a complete one of its own.\<close>

datatype notime_offer = Offer_Null | Offer_Incomplete | Offer_Builtin | Offer_External nat

definition jent_notime_switch :: "notime_offer \<Rightarrow> jent_env \<Rightarrow> int \<times> jent_env" where
  "jent_notime_switch new_thread env =
     (if g_notime_switch_blocked env then (- EAGAIN, env)
      else case new_thread of
             Offer_Null \<Rightarrow> (- EINVAL, env)
           | Offer_Incomplete \<Rightarrow> (- EINVAL, env)
           | Offer_Builtin \<Rightarrow> (0, env\<lparr>g_notime_thread := Notime_Builtin\<rparr>)
           | Offer_External h \<Rightarrow> (0, env\<lparr>g_notime_thread := Notime_External h\<rparr>))"

definition jent_notime_force :: "jent_env \<Rightarrow> jent_env" where
  "jent_notime_force env = env\<lparr>g_force_internal_timer := True\<rparr>"

definition jent_notime_forced :: "jent_env \<Rightarrow> bool" where
  "jent_notime_forced env = g_force_internal_timer env"

subsection \<open>Waiting for a tick\<close>

lemma notime_wait_tick:
  "k < fuel \<Longrightarrow> prev < env_ticks env (env_tick_pos env + k) \<Longrightarrow>
   (\<forall>j < k. env_ticks env (env_tick_pos env + j) \<le> prev) \<Longrightarrow>
   notime_wait fuel prev env = Some (env_ticks env (env_tick_pos env + k),
     env\<lparr>env_tick_pos := env_tick_pos env + Suc k\<rparr>)"
proof (induction fuel prev env arbitrary: k rule: notime_wait.induct)
  case (2 fuel prev env)
  show ?case
  proof (cases k)
    case 0
    with 2(3) show ?thesis
      by (simp add: jent_notime_read_def not_le [symmetric])
  next
    case (Suc m)
    let ?e = "env\<lparr>env_tick_pos := Suc (env_tick_pos env)\<rparr>"
    have now: "env_ticks env (env_tick_pos env) \<le> prev"
      using 2(4) Suc by (metis add.right_neutral zero_less_Suc)
    have "\<forall>j < m. env_ticks env (env_tick_pos env + Suc j) \<le> prev"
      using 2(4) Suc by (metis Suc_less_eq)
    then have "notime_wait fuel prev ?e = Some (env_ticks ?e (env_tick_pos ?e + m),
        ?e\<lparr>env_tick_pos := env_tick_pos ?e + Suc m\<rparr>)"
      using 2(2,3) Suc now by (intro 2(1) [where k = m]) (simp_all add: jent_notime_read_def)
    with now Suc show ?thesis
      by (simp add: jent_notime_read_def)
  qed
qed simp

lemma notime_count_stop:
  "k < fuel \<Longrightarrow> interrupt (i + k) \<Longrightarrow> (\<forall>j < k. \<not> interrupt (i + j)) \<Longrightarrow>
   notime_count fuel interrupt i t = Some (t + of_nat k)"
proof (induction fuel interrupt i t arbitrary: k rule: notime_count.induct)
  case (2 fuel interrupt i t)
  show ?case
  proof (cases k)
    case (Suc m)
    have "\<not> interrupt i" "\<forall>j < m. \<not> interrupt (Suc i + j)"
      using 2(4) Suc by (metis add.right_neutral zero_less_Suc, metis Suc_less_eq add_Suc_shift)
    with 2(1) [of m] 2(2,3) Suc show ?thesis
      by simp
  qed (use 2(3) in simp)
qed simp

subsection \<open>The properties of the internal timer\<close>

text \<open>C22: a time stamp of the internal timer is the first counter value seen that lies strictly above
  the previous time stamp; it becomes the new reference, so the time stamps of a collector strictly
  increase between two starts of the thread. The call returns as soon as the thread has moved on,
  however many polls that takes.\<close>

theorem nstime_internal_increases:
  assumes "ec_enable_notime ec" "k < fuel" "ec_notime_prev_timer ec < env_ticks env (env_tick_pos env + k)"
    and "\<forall>j < k. env_ticks env (env_tick_pos env + j) \<le> ec_notime_prev_timer ec"
  shows "jent_get_nstime_internal fuel ec env =
    Some (env_ticks env (env_tick_pos env + k),
          ec\<lparr>ec_notime_prev_timer := env_ticks env (env_tick_pos env + k)\<rparr>,
          env\<lparr>env_tick_pos := env_tick_pos env + Suc k\<rparr>)"
  using assms notime_wait_tick [OF assms(2-4)] by (simp add: jent_get_nstime_internal_def)

theorem nstime_internal_increases_witness:
  "\<exists>ec' env'. jent_get_nstime_internal 3 (zero_rand_data\<lparr>ec_enable_notime := True, ec_notime_prev_timer := 5\<rparr>)
     (start_env\<lparr>env_ticks := (\<lambda>i. of_nat (i + 4)), env_tick_pos := 0\<rparr>) = Some (6, ec', env') \<and>
     ec_notime_prev_timer ec' = 6"
  using nstime_internal_increases [of "zero_rand_data\<lparr>ec_enable_notime := True, ec_notime_prev_timer := 5\<rparr>" 2 3
      "start_env\<lparr>env_ticks := (\<lambda>i. of_nat (i + 4)), env_tick_pos := 0\<rparr>"]
  by (auto simp: less_2_cases_iff)

text \<open>C27: the counting thread stops at the first poll of the interrupt flag that finds it set and has
  then counted the polls before it, modulo the width of the counter. It asks to be pinned to a CPU only
  under the builtin handler, whose context alone holds one: to the configured CPU, or by default to the
  highest one it may run on, when the system can tell.\<close>

theorem sample_timer_counts:
  assumes "interrupt k" "\<forall>j < k. \<not> interrupt j" "k < fuel"
  shows "\<exists>pin. jent_notime_sample_timer fuel interrupt ec env = Some (pin, of_nat k) \<and>
    (pin \<noteq> None \<longleftrightarrow> g_notime_thread env = Notime_Builtin \<and> (\<exists>cpu. ec_notime_thread_ctx ec = Some cpu \<and>
       (cpu = JENT_NOTIME_CPU_DEFAULT \<longrightarrow> env_cpu_highest env \<ge> 0))) \<and>
    (\<forall>cpu. pin = Some cpu \<longrightarrow> ec_notime_thread_ctx ec = Some cpu \<or>
       ec_notime_thread_ctx ec = Some JENT_NOTIME_CPU_DEFAULT \<and> cpu = of_int (env_cpu_highest env))"
  using notime_count_stop [of k fuel interrupt 0 0] assms
  by (auto simp: jent_notime_sample_timer_def notime_pin_cpu_def split: option.splits)

theorem sample_timer_counts_witness:
  "\<exists>pin. jent_notime_sample_timer 9 (\<lambda>i. 7 \<le> i) (zero_rand_data\<lparr>ec_notime_thread_ctx := Some 3\<rparr>) start_env = Some (pin, 7) \<and>
     pin \<noteq> None"
  using sample_timer_counts [of "\<lambda>i. 7 \<le> i" 7 9 "zero_rand_data\<lparr>ec_notime_thread_ctx := Some 3\<rparr>" start_env]
  by (fastforce simp: start_env_def JENT_NOTIME_CPU_DEFAULT_def)

end
