(* ===== verification/Jent_Noise.thy ===== *)
theory Jent_Noise
  imports Jent_Timer
begin

text \<open>
  \<^verbatim>\<open>src/jitterentropy-noise.c\<close>: the memory access and the hash loop noise sources, the measurement of
  one time delta and its insertion into the entropy pool, and the generation of one block.

  Every operation takes and returns the collector and the world; the result is \<open>None\<close> when the fuel
  of a loop is used up or an access leaves the memory block. Byte views of C objects are little
  endian. The recovery loop of the health tests makes \<open>jent_random_data\<close> call itself: the operations
  take it as the parameter \<open>random_data\<close>, and the last definition ties the knot with the fuel.
\<close>

subsection \<open>Insertion into the entropy pool\<close>

definition JENT_OFFSET_TIMEDELTA :: nat where "JENT_OFFSET_TIMEDELTA = 0"
definition JENT_OFFSET_DOMAINSEPARATOR :: nat where
  "JENT_OFFSET_DOMAINSEPARATOR = JENT_OFFSET_TIMEDELTA + 8"
definition JENT_OFFSET_HASH_BLOCK :: nat where
  "JENT_OFFSET_HASH_BLOCK = JENT_OFFSET_DOMAINSEPARATOR + 1"
definition JENT_SIZEOF_INTERMEDIARY :: nat where
  "JENT_SIZEOF_INTERMEDIARY = JENT_SHA3_256_SIZE_BLOCK"

lemmas layout_defs = JENT_OFFSET_TIMEDELTA_def JENT_OFFSET_DOMAINSEPARATOR_def
  JENT_OFFSET_HASH_BLOCK_def JENT_SIZEOF_INTERMEDIARY_def

definition jent_hash_insert :: "rand_data \<Rightarrow> u64 \<Rightarrow> u8 list \<Rightarrow> rand_data" where
  "jent_hash_insert ec time_delta intermediary =
     (let intermediary = memcpy_at intermediary JENT_OFFSET_TIMEDELTA (le64_to_ptr time_delta)
      in ec\<lparr>ec_hash_state := jent_sha3_update (ec_hash_state ec)
              (take (jent_sha3_rate (ec_hash_state ec)) intermediary)\<rparr>)"

subsection \<open>Hash loop\<close>

definition le16_bytes :: "u16 \<Rightarrow> u8 list" where
  "le16_bytes v = [ucast v, ucast (drop_bit 8 v)]"

text \<open>One iteration: the digest, the state of the health tests and the loop counter are hashed.\<close>

definition hash_loop_step :: "rand_data \<Rightarrow> u64 \<Rightarrow> jent_sha_ctx \<times> u8 list \<Rightarrow> jent_sha_ctx \<times> u8 list" where
  "hash_loop_step ec j st =
     (let (ctx, digest) = st;
          ctx = jent_sha3_update ctx digest;
          ctx = jent_sha3_update ctx (le32_to_ptr (ec_rct_count ec));
          ctx = jent_sha3_update ctx (le32_to_ptr (ec_apt_cutoff ec));
          ctx = jent_sha3_update ctx (le32_to_ptr (ec_apt_observations ec));
          ctx = jent_sha3_update ctx (le32_to_ptr (ec_apt_count ec));
          ctx = jent_sha3_update ctx (le64_to_ptr (ec_apt_base ec));
          ctx = jent_sha3_update ctx (le16_bytes (ec_rct_mem_count ec));
          ctx = jent_sha3_update ctx (le64_to_ptr j)
      in jent_sha3_final ctx)"

fun hash_loop_iter :: "rand_data \<Rightarrow> nat \<Rightarrow> u64 \<Rightarrow> jent_sha_ctx \<times> u8 list \<Rightarrow> jent_sha_ctx \<times> u8 list" where
  "hash_loop_iter ec 0 j st = st"
| "hash_loop_iter ec (Suc n) j st = hash_loop_iter ec n (j + 1) (hash_loop_step ec j st)"

text \<open>\<open>stk\<close> is what the stack holds where the context is placed.\<close>

definition jent_hash_loop :: "jent_sha_ctx \<Rightarrow> rand_data \<Rightarrow> u8 list \<Rightarrow> u64 \<Rightarrow> u8 list" where
  "jent_hash_loop stk ec intermediary loop_cnt =
     (let hash_loop_cnt = (if loop_cnt \<noteq> 0 then loop_cnt else ucast (ec_hashloopcnt ec));
          digest = take JENT_SHA3_256_SIZE_DIGEST (drop JENT_OFFSET_HASH_BLOCK intermediary);
          (ctx, digest) = hash_loop_iter ec (unat hash_loop_cnt) 0 (jent_sha3_256_init stk, digest)
      in memcpy_at intermediary JENT_OFFSET_HASH_BLOCK digest)"

subsection \<open>Memory access\<close>

definition uint32rotl :: "u32 \<Rightarrow> nat \<Rightarrow> u32" where
  "uint32rotl x k = push_bit k x OR drop_bit (32 - k) x"

definition xoshiro128starstar :: "u32 list \<Rightarrow> u32 \<times> u32 list" where
  "xoshiro128starstar s =
     (let result = uint32rotl (s ! 1 * 5) 7 * 9;
          t = push_bit 9 (s ! 1);
          s = s[2 := s ! 2 XOR s ! 0];
          s = s[3 := s ! 3 XOR s ! 1];
          s = s[1 := s ! 1 XOR s ! 2];
          s = s[0 := s ! 0 XOR s ! 3];
          s = s[2 := s ! 2 XOR t];
          s = s[3 := uint32rotl (s ! 3) 11]
      in (result, s))"

text \<open>The memory access proper: one is added to the byte at an index of the block.\<close>

definition mem_touch :: "u8 list \<Rightarrow> nat \<Rightarrow> u8 list option" where
  "mem_touch mem i = (if i < length mem then Some (mem[i := mem ! i + 1]) else None)"

fun memaccess_random_loop :: "nat \<Rightarrow> u32 \<Rightarrow> u32 list \<Rightarrow> u8 list \<Rightarrow> u8 list option" where
  "memaccess_random_loop 0 addressMask prng mem = Some mem"
| "memaccess_random_loop (Suc n) addressMask prng mem = do {
     let (r, prng) = xoshiro128starstar prng;
     mem \<leftarrow> mem_touch mem (unat (r AND addressMask));
     memaccess_random_loop n addressMask prng mem
   }"

text \<open>The low byte of one time stamp is mixed into every byte of the generator state.\<close>

fun prng_mix :: "nat \<Rightarrow> rand_data \<Rightarrow> jent_env \<Rightarrow> u8 list \<Rightarrow> (u8 list \<times> rand_data \<times> jent_env) option" where
  "prng_mix fuel ec env [] = Some ([], ec, env)"
| "prng_mix fuel ec env (b # bs) = do {
     (now, ec, env) \<leftarrow> jent_get_nstime_internal fuel ec env;
     (bs, ec, env) \<leftarrow> prng_mix fuel ec env bs;
     Some ((b XOR ucast (now AND 0xff)) # bs, ec, env)
   }"

definition prng_bytes :: "u32 list \<Rightarrow> u8 list" where
  "prng_bytes u = concat (map le32_to_ptr u)"

definition prng_words :: "u8 list \<Rightarrow> u32 list" where
  "prng_words b = map (\<lambda>i. ptr_to_le32 (drop (4 * i) b)) [0..<4]"

text \<open>A time difference in units of the divisor of the collector. A zero divisor is a division by
  zero in the code.\<close>

definition gcd_delta :: "rand_data \<Rightarrow> u64 \<Rightarrow> u64 \<Rightarrow> u64 option" where
  "gcd_delta ec prev next =
     (if ec_common_timer_gcd ec = 0 then None
      else Some (jent_udiv64 (jent_delta prev next) (ec_common_timer_gcd ec)))"

text \<open>The time a measured memory access took; \<open>0\<close> without a measurement.\<close>

definition memaccess_delta ::
  "nat \<Rightarrow> bool \<Rightarrow> u64 \<Rightarrow> rand_data \<Rightarrow> jent_env \<Rightarrow> (u64 \<times> rand_data \<times> jent_env) option" where
  "memaccess_delta fuel measured time_now_start ec env =
     (if measured
      then do {
        (time_now_end, ec, env) \<leftarrow> jent_get_nstime_internal fuel ec env;
        delta \<leftarrow> gcd_delta ec time_now_start time_now_end;
        Some (delta, ec, env)
      }
      else Some (0, ec, env))"

definition jent_memaccess_pseudorandom ::
  "nat \<Rightarrow> rand_data \<Rightarrow> jent_env \<Rightarrow> u64 \<Rightarrow> bool \<Rightarrow> (u64 \<times> rand_data \<times> jent_env) option" where
  "jent_memaccess_pseudorandom fuel ec env loop_cnt measured =
     (case ec_mem ec of
        None \<Rightarrow> Some (0, ec, env)
      | Some mem \<Rightarrow> do {
          let mem_loop_cnt = (if loop_cnt \<noteq> 0 then loop_cnt else ucast (ec_memaccessloops ec));
          let addressMask = ec_memmask ec;
          (b, ec, env) \<leftarrow> prng_mix fuel ec env
            (prng_bytes [0x8e93eec0, 0xce65608a, 0xa8d46b46, 0xe83cef69]);
          (time_now_start, ec, env) \<leftarrow>
            (if measured then jent_get_nstime_internal fuel ec env else Some (0, ec, env));
          mem \<leftarrow> memaccess_random_loop (unat mem_loop_cnt) addressMask (prng_words b) mem;
          memaccess_delta fuel measured time_now_start (ec\<lparr>ec_mem := Some mem\<rparr>) env
        })"

fun memaccess_walk :: "nat \<Rightarrow> u32 \<Rightarrow> u8 list \<Rightarrow> u32 \<Rightarrow> (u8 list \<times> u32) option" where
  "memaccess_walk 0 wrap mem loc = Some (mem, loc)"
| "memaccess_walk (Suc n) wrap mem loc = do {
     mem \<leftarrow> mem_touch mem (unat loc);
     let loc = loc + JENT_MEMORY_BLOCKSIZE - 1;
     if wrap = 0 then None else memaccess_walk n wrap mem (loc mod wrap)
   }"

definition jent_memaccess_deterministic ::
  "nat \<Rightarrow> rand_data \<Rightarrow> jent_env \<Rightarrow> u64 \<Rightarrow> bool \<Rightarrow> (u64 \<times> rand_data \<times> jent_env) option" where
  "jent_memaccess_deterministic fuel ec env loop_cnt measured =
     (case ec_mem ec of
        None \<Rightarrow> Some (0, ec, env)
      | Some mem \<Rightarrow> do {
          let mem_loop_cnt = (if loop_cnt \<noteq> 0 then loop_cnt else ucast (ec_memaccessloops ec));
          let wrap = ec_memmask ec + 1;
          (time_now_start, ec, env) \<leftarrow>
            (if measured then jent_get_nstime_internal fuel ec env else Some (0, ec, env));
          (mem, loc) \<leftarrow> memaccess_walk (unat mem_loop_cnt) wrap mem (ec_memlocation ec);
          memaccess_delta fuel measured time_now_start
            (ec\<lparr>ec_mem := Some mem, ec_memlocation := loc\<rparr>) env
        })"

subsection \<open>Measuring one time delta\<close>

definition JENT_MEM_ACC_LOOP_INIT :: u32 where "JENT_MEM_ACC_LOOP_INIT = 3"
definition JENT_HASH_LOOP_INIT :: u32 where "JENT_HASH_LOOP_INIT = 3"

text \<open>The measurements return the verdict of the stuck test and the raw time delta.\<close>

type_synonym rand_op = "rand_data \<Rightarrow> jent_env \<Rightarrow> (rand_data \<times> jent_env) option"
type_synonym measurement = "rand_data \<Rightarrow> jent_env \<Rightarrow> (bool \<times> u64 \<times> rand_data \<times> jent_env) option"

definition stuck_if_health ::
  "rand_op \<Rightarrow> bool \<Rightarrow> rand_data \<Rightarrow> jent_env \<Rightarrow> u64 \<Rightarrow> (bool \<times> rand_data \<times> jent_env) option" where
  "stuck_if_health random_data health ec env current_delta =
     (if health then jent_stuck random_data ec env current_delta else Some (False, ec, env))"

definition jent_measure_jitter_ntg1_memaccess :: "rand_op \<Rightarrow> nat \<Rightarrow> u64 \<Rightarrow> bool \<Rightarrow> measurement" where
  "jent_measure_jitter_ntg1_memaccess random_data fuel loop_cnt health ec env = do {
     let intermediary = replicate JENT_SIZEOF_INTERMEDIARY 0;
     (current_delta, ec, env) \<leftarrow> jent_memaccess_deterministic fuel ec env
       (if loop_cnt \<noteq> 0 then loop_cnt else ucast (ec_memaccessloops ec * JENT_MEM_ACC_LOOP_INIT)) True;
     (stuck, ec, env) \<leftarrow> stuck_if_health random_data health ec env current_delta;
     let intermediary = intermediary[JENT_OFFSET_DOMAINSEPARATOR := 0x01];
     Some (stuck, current_delta, jent_hash_insert ec current_delta intermediary, env)
   }"

definition jent_measure_jitter_ntg1_sha3 :: "rand_op \<Rightarrow> nat \<Rightarrow> u64 \<Rightarrow> bool \<Rightarrow> measurement" where
  "jent_measure_jitter_ntg1_sha3 random_data fuel loop_cnt health ec env = do {
     let intermediary = replicate JENT_SIZEOF_INTERMEDIARY 0;
     (prev_time, ec, env) \<leftarrow> jent_get_nstime_internal fuel ec env;
     let ec = ec\<lparr>ec_prev_time := prev_time\<rparr>;
     let intermediary = jent_hash_loop (env_stk env) ec intermediary
       (if loop_cnt \<noteq> 0 then loop_cnt else ucast (ec_hashloopcnt ec * JENT_HASH_LOOP_INIT));
     (time_now, ec, env) \<leftarrow> jent_get_nstime_internal fuel ec env;
     current_delta \<leftarrow> gcd_delta ec (ec_prev_time ec) time_now;
     (stuck, ec, env) \<leftarrow> stuck_if_health random_data health ec env current_delta;
     let intermediary = intermediary[JENT_OFFSET_DOMAINSEPARATOR := 0x02];
     Some (stuck, current_delta, jent_hash_insert ec current_delta intermediary, env)
   }"

definition jent_measure_jitter :: "rand_op \<Rightarrow> nat \<Rightarrow> u64 \<Rightarrow> bool \<Rightarrow> measurement" where
  "jent_measure_jitter random_data fuel loop_cnt health ec env = do {
     let intermediary = replicate JENT_SIZEOF_INTERMEDIARY 0;
     (_, ec, env) \<leftarrow> jent_memaccess_pseudorandom fuel ec env loop_cnt False;
     (time_now, ec, env) \<leftarrow> jent_get_nstime_internal fuel ec env;
     current_delta \<leftarrow> gcd_delta ec (ec_prev_time ec) time_now;
     let ec = ec\<lparr>ec_prev_time := time_now\<rparr>;
     (stuck, ec, env) \<leftarrow> stuck_if_health random_data health ec env current_delta;
     let intermediary = jent_hash_loop (env_stk env) ec intermediary loop_cnt;
     let intermediary = intermediary[JENT_OFFSET_DOMAINSEPARATOR := 0x03];
     Some (stuck, current_delta, jent_hash_insert ec current_delta intermediary, env)
   }"

subsection \<open>Collecting one block\<close>

definition JENT_MEASURE_JITTER_LOOP_CTR :: "u64 \<Rightarrow> u32 \<Rightarrow> u64" where
  "JENT_MEASURE_JITTER_LOOP_CTR osr safety_factor =
     ucast ((of_nat DATA_SIZE_BITS :: u32) + safety_factor) * osr"

definition JENT_ROUNDUP_TO_THREE :: "u64 \<Rightarrow> u64" where
  "JENT_ROUNDUP_TO_THREE x = jent_udiv64 (x + 2) 3 * 3"

definition JENT_ADJUSTED_MEASURE_JITTER_LOOP_CTR :: "u64 \<Rightarrow> u32 \<Rightarrow> u64" where
  "JENT_ADJUSTED_MEASURE_JITTER_LOOP_CTR osr safety_factor =
     JENT_ROUNDUP_TO_THREE (JENT_MEASURE_JITTER_LOOP_CTR osr safety_factor)"

fun collect_loop :: "nat \<Rightarrow> measurement \<Rightarrow> u32 \<Rightarrow> rand_op" where
  "collect_loop 0 measure_jitter ctr ec env = None"
| "collect_loop (Suc fuel) measure_jitter ctr ec env =
     (if jent_health_failure_query ec \<noteq> 0 then Some (ec, env)
      else do {
        (stuck, _, ec, env) \<leftarrow> measure_jitter ec env;
        if stuck then collect_loop fuel measure_jitter ctr ec env
        else if ctr + 1 \<ge> ucast (ec_rct_mem_nosr ec) then Some (ec, env)
        else collect_loop fuel measure_jitter (ctr + 1) ec env
      })"

definition jent_random_data_one :: "nat \<Rightarrow> measurement \<Rightarrow> rand_op" where
  "jent_random_data_one fuel measure_jitter ec env =
     (let safety_factor = (if ec_is_fips_enabled ec then ENTROPY_SAFETY_FACTOR else 0);
          ec = ec\<lparr>ec_rct_mem_ctr := 0\<rparr>;
          nosr = JENT_ADJUSTED_MEASURE_JITTER_LOOP_CTR (ucast (ec_osr ec)) safety_factor
      in if nosr > 0xffff \<or> nosr < of_nat DATA_SIZE_BITS
         then Some (ec\<lparr>ec_health_failure := ec_health_failure ec OR JENT_RCT_MEM_FAILURE_PERMANENT\<rparr>, env)
         else collect_loop fuel measure_jitter 0 (ec\<lparr>ec_rct_mem_nosr := ucast nosr\<rparr>) env)"

definition startup_health_type :: "rand_data \<Rightarrow> jent_health_init_type" where
  "startup_health_type ec =
     (if has (ec_flags ec) JENT_NTG1 then jent_health_init_type_ntg1 else jent_health_init_type_common)"

text \<open>The second startup stage, which the first one falls through to.\<close>

definition random_data_sha3 :: "rand_op \<Rightarrow> nat \<Rightarrow> rand_op" where
  "random_data_sha3 random_data fuel ec env = do {
     (ec, env) \<leftarrow> jent_random_data_one fuel (jent_measure_jitter_ntg1_sha3 random_data fuel 0 True) ec env;
     let ec = ec\<lparr>ec_startup_state := jent_startup_completed\<rparr>;
     Some (snd (jent_health_init ec (startup_health_type ec)), env)
   }"

definition random_data_body :: "rand_op \<Rightarrow> nat \<Rightarrow> rand_op" where
  "random_data_body random_data fuel ec env =
     (case ec_startup_state ec of
        jent_startup_memory \<Rightarrow> do {
          (ec, env) \<leftarrow> jent_random_data_one fuel (jent_measure_jitter_ntg1_memaccess random_data fuel 0 True) ec env;
          let ec = ec\<lparr>ec_startup_state := jent_startup_sha3\<rparr>;
          random_data_sha3 random_data fuel (snd (jent_health_init ec (startup_health_type ec))) env
        }
      | jent_startup_sha3 \<Rightarrow> random_data_sha3 random_data fuel ec env
      | jent_startup_completed \<Rightarrow> do {
          (_, _, ec, env) \<leftarrow> jent_measure_jitter random_data fuel 0 False ec env;
          jent_random_data_one fuel (jent_measure_jitter random_data fuel 0 True) ec env
        })"

fun jent_random_data :: "nat \<Rightarrow> rand_op" where
  "jent_random_data 0 ec env = None"
| "jent_random_data (Suc fuel) ec env = random_data_body (jent_random_data fuel) fuel ec env"

definition jent_read_random_block :: "rand_data \<Rightarrow> nat \<Rightarrow> rand_data \<times> u8 list" where
  "jent_read_random_block ec dst_len =
     (let (ctx, dst) = jent_drbg_generate_block (ec_hash_state ec) dst_len
      in (ec\<lparr>ec_hash_state := ctx\<rparr>, dst))"

end
