(* ===== verification/Jent_Noise_Laws.thy ===== *)
theory Jent_Noise_Laws
  imports Jent_Noise Jent_Health_Laws
begin

text \<open>
  The invariant of the noise sources, what a measurement does to a collector, and the termination of
  the collection of one block in FIPS mode.
\<close>

subsection \<open>The memory block\<close>

definition mem_ok :: "rand_data \<Rightarrow> bool" where
  "mem_ok ec \<longleftrightarrow> (case ec_mem ec of
     None \<Rightarrow> True
   | Some mem \<Rightarrow> length mem = Suc (unat (ec_memmask ec)) \<and> Suc (unat (ec_memmask ec)) < 2 ^ 32 \<and>
       ec_memlocation ec \<le> ec_memmask ec)"

text \<open>A collector on the platform clock, with a memory block of the size its mask says and a divisor that
  is not zero.\<close>

definition source_ok :: "rand_data \<Rightarrow> bool" where
  "source_ok ec \<longleftrightarrow> mem_ok ec \<and> ec_common_timer_gcd ec \<noteq> 0 \<and> \<not> ec_enable_notime ec"

lemma mem_touch_Some: "i < length mem \<Longrightarrow> mem_touch mem i = Some (mem[i := mem ! i + 1])"
  by (simp add: mem_touch_def)

lemma unat_and_le: "unat (r AND m) \<le> unat (m :: u32)"
  by (simp add: word_and_le1 flip: word_le_nat_alt)

lemma memaccess_random_loop_Some:
  "unat m < length mem \<Longrightarrow> \<exists>mem'. memaccess_random_loop n m prng mem = Some mem' \<and> length mem' = length mem"
proof (induction n arbitrary: prng mem)
  case (Suc n)
  have "unat (fst (xoshiro128starstar prng) AND m) < length mem"
    using Suc.prems unat_and_le [of _ m] by (rule le_less_trans [rotated])
  with Suc.IH [of "mem[i := mem ! i + 1]" "snd (xoshiro128starstar prng)" for i] Suc.prems show ?case
    by (simp add: mem_touch_Some split_beta)
qed simp

lemma walk_wrap:
  assumes "Suc (unat msk) < 2 ^ 32"
  shows "msk + 1 \<noteq> (0 :: u32)" "loc mod (msk + 1) \<le> msk"
proof -
  have m: "unat (msk + 1) = Suc (unat msk)"
    using assms by (intro unat_inc) simp
  then show "msk + 1 \<noteq> 0"
    by auto
  have "unat loc mod Suc (unat msk) < Suc (unat msk)"
    by simp
  with m show "loc mod (msk + 1) \<le> msk"
    by (simp only: word_le_nat_alt unat_mod less_Suc_eq_le)
qed

lemma memaccess_walk_Some:
  assumes "Suc (unat msk) < 2 ^ 32" "length mem = Suc (unat msk)" "loc \<le> msk"
  shows "\<exists>mem' loc'. memaccess_walk n (msk + 1) mem loc = Some (mem', loc') \<and>
    length mem' = length mem \<and> loc' \<le> msk"
  using assms
proof (induction n arbitrary: mem loc)
  case (Suc n)
  have "unat loc < length mem"
    using Suc.prems by (simp add: word_le_nat_alt less_Suc_eq_le)
  with Suc walk_wrap [OF Suc.prems(1)] show ?case
    by (simp add: mem_touch_Some)
qed simp

subsection \<open>Measurements\<close>

lemma nstime_platform:
  "\<not> ec_enable_notime ec \<Longrightarrow> jent_get_nstime_internal fuel ec env =
    Some (env_clock env (env_clock_pos env), ec, env\<lparr>env_clock_pos := Suc (env_clock_pos env)\<rparr>)"
  by (simp add: jent_get_nstime_internal_def jent_get_nstime_def)

lemma prng_mix_platform:
  "\<not> ec_enable_notime ec \<Longrightarrow> \<exists>b env'. prng_mix fuel ec env bs = Some (b, ec, env')"
proof (induction bs arbitrary: env)
  case (Cons b bs)
  from Cons.IH [OF Cons.prems, of "env\<lparr>env_clock_pos := Suc (env_clock_pos env)\<rparr>"] show ?case
    by (auto simp: nstime_platform [OF Cons.prems])
qed simp

lemma memaccess_delta_platform:
  "\<not> ec_enable_notime ec \<Longrightarrow> ec_common_timer_gcd ec \<noteq> 0 \<Longrightarrow>
   \<exists>d env'. memaccess_delta fuel m t ec env = Some (d, ec, env')"
  by (simp add: memaccess_delta_def nstime_platform gcd_delta_def)

lemma memaccess_deterministic_ok:
  assumes "source_ok ec"
  shows "\<exists>d mem loc env'. jent_memaccess_deterministic fuel ec env lc m =
    Some (d, ec\<lparr>ec_mem := mem, ec_memlocation := loc\<rparr>, env') \<and>
    source_ok (ec\<lparr>ec_mem := mem, ec_memlocation := loc\<rparr>)"
proof (cases "ec_mem ec")
  case None
  then have "jent_memaccess_deterministic fuel ec env lc m =
      Some (0, ec\<lparr>ec_mem := ec_mem ec, ec_memlocation := ec_memlocation ec\<rparr>, env)"
    by (simp add: jent_memaccess_deterministic_def)
  moreover have "source_ok (ec\<lparr>ec_mem := ec_mem ec, ec_memlocation := ec_memlocation ec\<rparr>)"
    using assms by simp
  ultimately show ?thesis
    by blast
next
  case (Some mem)
  have ok: "\<not> ec_enable_notime ec" "ec_common_timer_gcd ec \<noteq> 0" "Suc (unat (ec_memmask ec)) < 2 ^ 32"
    "length mem = Suc (unat (ec_memmask ec))" "ec_memlocation ec \<le> ec_memmask ec"
    using assms Some by (simp_all add: source_ok_def mem_ok_def)
  define n where "n = unat (if lc \<noteq> 0 then lc else ucast (ec_memaccessloops ec))"
  obtain mem' loc' where w: "memaccess_walk n (ec_memmask ec + 1) mem (ec_memlocation ec) = Some (mem', loc')"
    "length mem' = length mem" "loc' \<le> ec_memmask ec"
    using memaccess_walk_Some [OF ok(3-5)] by blast
  let ?ec = "ec\<lparr>ec_mem := Some mem', ec_memlocation := loc'\<rparr>"
  have "\<exists>d env'. jent_memaccess_deterministic fuel ec env lc m = Some (d, ?ec, env')"
    using memaccess_delta_platform [of ?ec fuel] ok(1,2) w(1) Some
    by (simp add: jent_memaccess_deterministic_def Let_def nstime_platform n_def [symmetric])
  moreover have "source_ok ?ec"
    using ok w by (simp add: source_ok_def mem_ok_def)
  ultimately show ?thesis
    by blast
qed

lemma memaccess_pseudorandom_ok:
  assumes "source_ok ec"
  shows "\<exists>d mem env'. jent_memaccess_pseudorandom fuel ec env lc m =
    Some (d, ec\<lparr>ec_mem := mem\<rparr>, env') \<and> source_ok (ec\<lparr>ec_mem := mem\<rparr>)"
proof (cases "ec_mem ec")
  case None
  then have "jent_memaccess_pseudorandom fuel ec env lc m = Some (0, ec\<lparr>ec_mem := ec_mem ec\<rparr>, env)"
    by (simp add: jent_memaccess_pseudorandom_def)
  moreover have "source_ok (ec\<lparr>ec_mem := ec_mem ec\<rparr>)"
    using assms by simp
  ultimately show ?thesis
    by blast
next
  case (Some mem)
  have ok: "\<not> ec_enable_notime ec" "ec_common_timer_gcd ec \<noteq> 0" "Suc (unat (ec_memmask ec)) < 2 ^ 32"
    "length mem = Suc (unat (ec_memmask ec))" "ec_memlocation ec \<le> ec_memmask ec"
    using assms Some by (simp_all add: source_ok_def mem_ok_def)
  obtain b env1 where b: "prng_mix fuel ec env (prng_bytes [0x8e93eec0, 0xce65608a, 0xa8d46b46, 0xe83cef69]) =
      Some (b, ec, env1)"
    using prng_mix_platform [OF ok(1)] by blast
  define n where "n = unat (if lc \<noteq> 0 then lc else ucast (ec_memaccessloops ec))"
  obtain mem' where w: "memaccess_random_loop n (ec_memmask ec) (prng_words b) mem = Some mem'"
    "length mem' = length mem"
    using memaccess_random_loop_Some [of "ec_memmask ec" mem n "prng_words b"] ok(4) by auto
  let ?ec = "ec\<lparr>ec_mem := Some mem'\<rparr>"
  have "\<exists>d env'. jent_memaccess_pseudorandom fuel ec env lc m = Some (d, ?ec, env')"
    using memaccess_delta_platform [of ?ec fuel] ok(1,2) w(1) Some b
    by (simp add: jent_memaccess_pseudorandom_def Let_def nstime_platform n_def [symmetric])
  moreover have "source_ok ?ec"
    using ok w by (simp add: source_ok_def mem_ok_def)
  ultimately show ?thesis
    by blast
qed

text \<open>What the collection of a block relies on: a measurement updates the time stamp and the memory
  block, applies the stuck test to one delta and changes the entropy pool, nothing else.\<close>

locale noise_source =
  fixes measurement :: "rand_op \<Rightarrow> nat \<Rightarrow> rand_data \<Rightarrow> jent_env \<Rightarrow> (bool \<times> u64 \<times> rand_data \<times> jent_env) option"
  assumes measures: "source_ok ec \<Longrightarrow>
    \<exists>d p mem loc env1 pool. source_ok (ec\<lparr>ec_mem := mem, ec_memlocation := loc, ec_prev_time := p\<rparr>) \<and>
      measurement rd fuel ec env =
        map_option (\<lambda>(stuck, ec', env'). (stuck, d, ec'\<lparr>ec_hash_state := pool ec' env'\<rparr>, env'))
          (jent_stuck rd (ec\<lparr>ec_mem := mem, ec_memlocation := loc, ec_prev_time := p\<rparr>) env1 d)"

lemma bind_stuck:
  "(jent_stuck rd ec env d \<bind> (\<lambda>(stuck, ec', env'). Some (stuck, d, jent_hash_insert ec' d (f ec' env'), env'))) =
   map_option (\<lambda>(stuck, ec', env'). (stuck, d, ec'\<lparr>ec_hash_state :=
     ec_hash_state (jent_hash_insert ec' d (f ec' env'))\<rparr>, env')) (jent_stuck rd ec env d)"
  by (cases "jent_stuck rd ec env d") (auto simp: jent_hash_insert_def Let_def)

interpretation memory_source: noise_source "\<lambda>rd fuel. jent_measure_jitter_ntg1_memaccess rd fuel 0 True"
proof
  fix ec rd fuel and env :: jent_env
  assume ok: "source_ok ec"
  define lc :: u64 where "lc = ucast (ec_memaccessloops ec * JENT_MEM_ACC_LOOP_INIT)"
  obtain d mem loc env1 where "jent_memaccess_deterministic fuel ec env lc True =
      Some (d, ec\<lparr>ec_mem := mem, ec_memlocation := loc\<rparr>, env1)"
    "source_ok (ec\<lparr>ec_mem := mem, ec_memlocation := loc\<rparr>)"
    using memaccess_deterministic_ok [OF ok] by blast
  then show "\<exists>d p mem loc env1 pool. source_ok (ec\<lparr>ec_mem := mem, ec_memlocation := loc, ec_prev_time := p\<rparr>) \<and>
      jent_measure_jitter_ntg1_memaccess rd fuel 0 True ec env =
        map_option (\<lambda>(stuck, ec', env'). (stuck, d, ec'\<lparr>ec_hash_state := pool ec' env'\<rparr>, env'))
          (jent_stuck rd (ec\<lparr>ec_mem := mem, ec_memlocation := loc, ec_prev_time := p\<rparr>) env1 d)"
    by (intro exI [of _ d] exI [of _ "ec_prev_time ec"] exI [of _ mem] exI [of _ loc] exI [of _ env1]
        exI [of _ "\<lambda>ec' _. ec_hash_state (jent_hash_insert ec' d
          ((replicate JENT_SIZEOF_INTERMEDIARY 0)[JENT_OFFSET_DOMAINSEPARATOR := 1]))"])
      (simp add: jent_measure_jitter_ntg1_memaccess_def Let_def stuck_if_health_def lc_def [symmetric] bind_stuck)
qed

interpretation hash_source: noise_source "\<lambda>rd fuel. jent_measure_jitter_ntg1_sha3 rd fuel 0 True"
proof
  fix ec rd fuel and env :: jent_env
  assume ok: "source_ok ec"
  then have n: "\<not> ec_enable_notime ec" "ec_common_timer_gcd ec \<noteq> 0"
    by (simp_all add: source_ok_def)
  define p where "p = env_clock env (env_clock_pos env)"
  define ec1 where "ec1 = ec\<lparr>ec_prev_time := p\<rparr>"
  define d where "d = jent_udiv64 (jent_delta p (env_clock env (Suc (env_clock_pos env)))) (ec_common_timer_gcd ec)"
  define im where "im = (jent_hash_loop (env_stk env) ec1 (replicate JENT_SIZEOF_INTERMEDIARY 0)
    (ucast (ec_hashloopcnt ec * JENT_HASH_LOOP_INIT)))[JENT_OFFSET_DOMAINSEPARATOR := 2]"
  have "source_ok (ec\<lparr>ec_mem := ec_mem ec, ec_memlocation := ec_memlocation ec, ec_prev_time := p\<rparr>)"
    using ok by (simp add: source_ok_def mem_ok_def split: option.splits)
  moreover have "jent_measure_jitter_ntg1_sha3 rd fuel 0 True ec env =
      map_option (\<lambda>(stuck, ec', env'). (stuck, d, ec'\<lparr>ec_hash_state := ec_hash_state (jent_hash_insert ec' d im)\<rparr>, env'))
        (jent_stuck rd ec1 (env\<lparr>env_clock_pos := Suc (Suc (env_clock_pos env))\<rparr>) d)"
    using n by (simp add: jent_measure_jitter_ntg1_sha3_def Let_def stuck_if_health_def nstime_platform gcd_delta_def
        bind_stuck [symmetric] p_def ec1_def im_def d_def)
  ultimately show "\<exists>d p mem loc env1 pool. source_ok (ec\<lparr>ec_mem := mem, ec_memlocation := loc, ec_prev_time := p\<rparr>) \<and>
      jent_measure_jitter_ntg1_sha3 rd fuel 0 True ec env =
        map_option (\<lambda>(stuck, ec', env'). (stuck, d, ec'\<lparr>ec_hash_state := pool ec' env'\<rparr>, env'))
          (jent_stuck rd (ec\<lparr>ec_mem := mem, ec_memlocation := loc, ec_prev_time := p\<rparr>) env1 d)"
    by (intro exI [of _ d] exI [of _ p] exI [of _ "ec_mem ec"] exI [of _ "ec_memlocation ec"]
        exI [of _ "env\<lparr>env_clock_pos := Suc (Suc (env_clock_pos env))\<rparr>"]
        exI [of _ "\<lambda>ec' _. ec_hash_state (jent_hash_insert ec' d im)"]) (simp add: ec1_def)
qed

interpretation combined_source: noise_source "\<lambda>rd fuel. jent_measure_jitter rd fuel 0 True"
proof
  fix ec rd fuel and env :: jent_env
  assume ok: "source_ok ec"
  then have n: "\<not> ec_enable_notime ec" "ec_common_timer_gcd ec \<noteq> 0"
    by (simp_all add: source_ok_def)
  obtain x mem env1 where m: "jent_memaccess_pseudorandom fuel ec env 0 False = Some (x, ec\<lparr>ec_mem := mem\<rparr>, env1)"
    "source_ok (ec\<lparr>ec_mem := mem\<rparr>)"
    using memaccess_pseudorandom_ok [OF ok] by blast
  define p where "p = env_clock env1 (env_clock_pos env1)"
  define d where "d = jent_udiv64 (jent_delta (ec_prev_time ec) p) (ec_common_timer_gcd ec)"
  define ec1 where "ec1 = ec\<lparr>ec_mem := mem, ec_memlocation := ec_memlocation ec, ec_prev_time := p\<rparr>"
  define im where "im = (\<lambda>ec' (env' :: jent_env). (jent_hash_loop (env_stk env') ec' (replicate JENT_SIZEOF_INTERMEDIARY 0) 0)
    [JENT_OFFSET_DOMAINSEPARATOR := 3])"
  have "source_ok ec1"
    using m(2) by (simp add: ec1_def source_ok_def mem_ok_def split: option.splits)
  moreover have "jent_measure_jitter rd fuel 0 True ec env =
      map_option (\<lambda>(stuck, ec', env'). (stuck, d, ec'\<lparr>ec_hash_state :=
          ec_hash_state (jent_hash_insert ec' d (im ec' env'))\<rparr>, env'))
        (jent_stuck rd ec1 (env1\<lparr>env_clock_pos := Suc (env_clock_pos env1)\<rparr>) d)"
    using n m(1) by (simp add: jent_measure_jitter_def Let_def stuck_if_health_def nstime_platform gcd_delta_def
        bind_stuck [symmetric] im_def p_def [symmetric] ec1_def d_def)
  ultimately show "\<exists>d p mem loc env1 pool. source_ok (ec\<lparr>ec_mem := mem, ec_memlocation := loc, ec_prev_time := p\<rparr>) \<and>
      jent_measure_jitter rd fuel 0 True ec env =
        map_option (\<lambda>(stuck, ec', env'). (stuck, d, ec'\<lparr>ec_hash_state := pool ec' env'\<rparr>, env'))
          (jent_stuck rd (ec\<lparr>ec_mem := mem, ec_memlocation := loc, ec_prev_time := p\<rparr>) env1 d)"
    unfolding ec1_def
    by (intro exI [of _ d] exI [of _ p] exI [of _ mem] exI [of _ "ec_memlocation ec"]
        exI [of _ "env1\<lparr>env_clock_pos := Suc (env_clock_pos env1)\<rparr>"]
        exI [of _ "\<lambda>ec' env'. ec_hash_state (jent_hash_insert ec' d (im ec' env'))"]) simp
qed

text \<open>Priming the time stamp, without the health tests.\<close>

lemma measure_jitter_prime:
  assumes "source_ok ec"
  shows "\<exists>d p mem env' pool. jent_measure_jitter rd fuel 0 False ec env =
    Some (False, d, ec\<lparr>ec_mem := mem, ec_prev_time := p, ec_hash_state := pool\<rparr>, env') \<and>
    source_ok (ec\<lparr>ec_mem := mem, ec_prev_time := p, ec_hash_state := pool\<rparr>)"
proof -
  have n: "\<not> ec_enable_notime ec" "ec_common_timer_gcd ec \<noteq> 0"
    using assms by (simp_all add: source_ok_def)
  obtain x mem env1 where m: "jent_memaccess_pseudorandom fuel ec env 0 False = Some (x, ec\<lparr>ec_mem := mem\<rparr>, env1)"
    "source_ok (ec\<lparr>ec_mem := mem\<rparr>)"
    using memaccess_pseudorandom_ok [OF assms] by blast
  have "source_ok (ec\<lparr>ec_mem := mem, ec_prev_time := p, ec_hash_state := pool\<rparr>)" for p pool
    using m(2) by (simp add: source_ok_def mem_ok_def split: option.splits)
  moreover define p where "p = env_clock env1 (env_clock_pos env1)"
  define d where "d = jent_udiv64 (jent_delta (ec_prev_time ec) p) (ec_common_timer_gcd ec)"
  define ec1 where "ec1 = ec\<lparr>ec_mem := mem, ec_prev_time := p\<rparr>"
  define pool where "pool = ec_hash_state (jent_hash_insert ec1 d ((jent_hash_loop (env_stk env1) ec1
    (replicate JENT_SIZEOF_INTERMEDIARY 0) 0)[JENT_OFFSET_DOMAINSEPARATOR := 3]))"
  have "jent_measure_jitter rd fuel 0 False ec env =
      Some (False, d, ec\<lparr>ec_mem := mem, ec_prev_time := p, ec_hash_state := pool\<rparr>,
        env1\<lparr>env_clock_pos := Suc (env_clock_pos env1)\<rparr>)"
    using n m(1) by (simp add: jent_measure_jitter_def Let_def stuck_if_health_def nstime_platform gcd_delta_def
        jent_hash_insert_def p_def d_def pool_def ec1_def)
  ultimately show ?thesis
    by blast
qed

subsection \<open>What the stuck test changes\<close>

lemma apt_insert_upd:
  "\<exists>a b c e. jent_apt_insert ec d = ec\<lparr>ec_apt_observations := a, ec_apt_count := b, ec_apt_base := c,
     ec_apt_base_set := e, ec_health_failure := ec_health_failure (jent_apt_insert ec d)\<rparr>"
proof (intro exI)
  show "jent_apt_insert ec d = ec\<lparr>ec_apt_observations := ec_apt_observations (jent_apt_insert ec d),
      ec_apt_count := ec_apt_count (jent_apt_insert ec d), ec_apt_base := ec_apt_base (jent_apt_insert ec d),
      ec_apt_base_set := ec_apt_base_set (jent_apt_insert ec d),
      ec_health_failure := ec_health_failure (jent_apt_insert ec d)\<rparr>"
    by (rule rand_data.equality) (simp_all add: jent_apt_insert_def jent_apt_reinit_def jent_apt_reset_def Let_def)
qed

lemma lag_judge_upd:
  "\<exists>a b f. lag_judge ec d = ec\<lparr>ec_lag_prediction_success_count := a, ec_lag_prediction_success_run := b,
     ec_health_failure := f\<rparr>"
proof (intro exI)
  show "lag_judge ec d = ec\<lparr>ec_lag_prediction_success_count := ec_lag_prediction_success_count (lag_judge ec d),
      ec_lag_prediction_success_run := ec_lag_prediction_success_run (lag_judge ec d),
      ec_health_failure := ec_health_failure (lag_judge ec d)\<rparr>"
    by (rule rand_data.equality) (simp_all add: lag_judge_def Let_def)
qed

lemma lag_score_upd:
  "\<exists>s b. lag_score d ec i = ec\<lparr>ec_lag_scoreboard := s, ec_lag_best_predictor := b\<rparr>"
proof (intro exI)
  show "lag_score d ec i = ec\<lparr>ec_lag_scoreboard := ec_lag_scoreboard (lag_score d ec i),
      ec_lag_best_predictor := ec_lag_best_predictor (lag_score d ec i)\<rparr>"
    by (rule rand_data.equality) (simp_all add: lag_score_def Let_def)
qed

lemma lag_scores_upd:
  "\<exists>s b. foldl (lag_score d) ec is = ec\<lparr>ec_lag_scoreboard := s, ec_lag_best_predictor := b\<rparr>"
proof (induction "is" arbitrary: ec)
  case Nil
  show ?case
    by (rule exI [of _ "ec_lag_scoreboard ec"], rule exI [of _ "ec_lag_best_predictor ec"]) simp
next
  case (Cons i "is")
  obtain s b where "lag_score d ec i = ec\<lparr>ec_lag_scoreboard := s, ec_lag_best_predictor := b\<rparr>"
    using lag_score_upd by blast
  moreover obtain s' b' where "foldl (lag_score d) (ec\<lparr>ec_lag_scoreboard := s, ec_lag_best_predictor := b\<rparr>) is =
      ec\<lparr>ec_lag_scoreboard := s, ec_lag_best_predictor := b, ec_lag_scoreboard := s', ec_lag_best_predictor := b'\<rparr>"
    using Cons.IH by blast
  ultimately show ?case
    by (intro exI [of _ s'] exI [of _ b']) (simp del: foldl.simps add: foldl_Cons)
qed

text \<open>The fields of the lag predictor, and the update that only touches them and the failure bits.\<close>

lemma lag_insert_upd:
  "\<exists>a b c e h s. jent_lag_insert ec d = ec\<lparr>ec_lag_prediction_success_count := a, ec_lag_prediction_success_run := b,
     ec_lag_best_predictor := c, ec_lag_observations := e, ec_lag_delta_history := h, ec_lag_scoreboard := s,
     ec_health_failure := ec_health_failure (jent_lag_insert ec d)\<rparr>"
proof -
  obtain a b f where j: "lag_judge ec d = ec\<lparr>ec_lag_prediction_success_count := a, ec_lag_prediction_success_run := b,
      ec_health_failure := f\<rparr>"
    using lag_judge_upd by blast
  obtain s c where k: "foldl (lag_score d) (lag_judge ec d) [0..<unat JENT_LAG_HISTORY_SIZE] =
      (lag_judge ec d)\<lparr>ec_lag_scoreboard := s, ec_lag_best_predictor := c\<rparr>"
    using lag_scores_upd by blast
  let ?i = "jent_lag_insert ec d"
  have "?i = ec\<lparr>ec_lag_prediction_success_count := ec_lag_prediction_success_count ?i,
      ec_lag_prediction_success_run := ec_lag_prediction_success_run ?i,
      ec_lag_best_predictor := ec_lag_best_predictor ?i, ec_lag_observations := ec_lag_observations ?i,
      ec_lag_delta_history := ec_lag_delta_history ?i, ec_lag_scoreboard := ec_lag_scoreboard ?i,
      ec_health_failure := ec_health_failure ?i\<rparr>"
    by (rule rand_data.equality) (simp_all add: jent_lag_insert_def jent_lag_reset_def Let_def k [unfolded j] j)
  then show ?thesis
    by blast
qed

subsection \<open>A running collector in FIPS mode\<close>

text \<open>The number of measurements of a block in FIPS mode.\<close>

definition fips_nosr :: "u32 \<Rightarrow> u64" where
  "fips_nosr osr = JENT_ADJUSTED_MEASURE_JITTER_LOOP_CTR (ucast osr) ENTROPY_SAFETY_FACTOR"

lemma fips_nosr_unat:
  assumes "1 \<le> osr" "osr \<le> JENT_MAX_OSR"
  shows "unat (fips_nosr osr) = 321 * unat osr" "256 \<le> unat (fips_nosr osr)"
    "unat (fips_nosr osr) \<le> 6420"
proof -
  have o: "1 \<le> unat osr" "unat osr \<le> 20"
    using assms by (simp_all add: word_le_nat_alt JENT_MAX_OSR_def)
  have "(of_nat DATA_SIZE_BITS :: u32) + ENTROPY_SAFETY_FACTOR = 321"
    by (simp add: DATA_SIZE_BITS_def JENT_SHA3_256_SIZE_DIGEST_BITS_def ENTROPY_SAFETY_FACTOR_def)
  then have "unat (JENT_MEASURE_JITTER_LOOP_CTR (ucast osr) ENTROPY_SAFETY_FACTOR + 2) = 321 * unat osr + 2"
    using o by (simp add: JENT_MEASURE_JITTER_LOOP_CTR_def unat_word_ariths)
  moreover have "(321 * unat osr + 2) div 3 = 107 * unat osr"
    by simp
  ultimately show eq: "unat (fips_nosr osr) = 321 * unat osr"
    using o by (simp add: fips_nosr_def JENT_ADJUSTED_MEASURE_JITTER_LOOP_CTR_def JENT_ROUNDUP_TO_THREE_def
        jent_udiv64_def unat_word_ariths unat_div)
  show "256 \<le> unat (fips_nosr osr)" "unat (fips_nosr osr) \<le> 6420"
    using o unfolding eq by simp_all
qed

text \<open>What does not change while a block is collected.\<close>

definition statics :: "rand_data \<Rightarrow> _" where
  "statics ec = (ec_osr ec, ec_flags ec, ec_is_fips_enabled ec, ec_in_recovery ec, ec_startup_state ec,
     ec_rct_cutoff ec, ec_rct_cutoff_permanent ec, ec_rct_mem_cutoff ec, ec_rct_mem_cutoff_permanent ec,
     ec_common_timer_gcd ec, ec_enable_notime ec, ec_memmask ec)"

definition run_ok :: "rand_data \<Rightarrow> bool" where
  "run_ok ec \<longleftrightarrow> source_ok ec \<and> ec_is_fips_enabled ec \<and> 1 \<le> ec_osr ec \<and> ec_osr ec \<le> JENT_MAX_OSR \<and>
     ec_rct_cutoff ec < ec_rct_cutoff_permanent ec \<and>
     0 < ec_rct_cutoff_permanent ec \<and> unat (ec_rct_cutoff_permanent ec) \<le> 1200 \<and>
     0 < ec_rct_mem_cutoff ec \<and> ec_rct_mem_cutoff ec < ec_rct_mem_cutoff_permanent ec \<and>
     (ec_health_failure ec = 0 \<longrightarrow> ec_rct_count ec < ucast (ec_rct_cutoff_permanent ec))"

text \<open>The window of the RCT with memory, open and completed.\<close>

definition window_ok :: "rand_data \<Rightarrow> bool" where
  "window_ok ec \<longleftrightarrow> ec_rct_mem_nosr ec = ucast (fips_nosr (ec_osr ec)) \<and>
     (ec_health_failure ec = 0 \<longrightarrow> ec_rct_mem_ctr ec \<le> ec_rct_mem_nosr ec \<and>
        (ec_rct_mem_ctr ec = 0 \<or> ec_rct_mem_count ec < ec_rct_mem_cutoff ec))"

definition window_done :: "rand_data \<Rightarrow> bool" where
  "window_done ec \<longleftrightarrow> (ec_health_failure ec = 0 \<longrightarrow>
     ec_rct_mem_ctr ec = ec_rct_mem_nosr ec \<and> ec_rct_mem_count ec < ec_rct_mem_cutoff ec)"

text \<open>What the recovery loop relies on.\<close>

definition recovers :: "rand_op \<Rightarrow> bool" where
  "recovers rd \<longleftrightarrow> (\<forall>ec env. run_ok ec \<and> ec_in_recovery ec \<and> ec_startup_state ec = jent_startup_completed \<longrightarrow>
     (\<exists>ec' env'. rd ec env = Some (ec', env') \<and> run_ok ec' \<and> statics ec' = statics ec \<and> window_ok ec' \<and>
        window_done ec' \<and> ec_stuck_prime ec' \<le> ec_stuck_prime ec \<and>
        (ec_health_failure ec' = 0 \<longrightarrow> ec_health_failure ec = 0)))"

lemma recovers_times:
  assumes "recovers rd" "run_ok ec" "ec_in_recovery ec" "ec_startup_state ec = jent_startup_completed"
  shows "\<exists>ec' env'. random_data_times rd (Suc n) ec env = Some (ec', env') \<and> run_ok ec' \<and> statics ec' = statics ec \<and>
    window_ok ec' \<and> window_done ec' \<and> ec_stuck_prime ec' \<le> ec_stuck_prime ec \<and>
    (ec_health_failure ec' = 0 \<longrightarrow> ec_health_failure ec = 0)"
  using assms(2-)
proof (induction n arbitrary: ec env)
  case 0
  with assms(1) show ?case
    unfolding recovers_def by (metis One_nat_def bind.bind_lunit case_prod_conv random_data_times.simps)
next
  case (Suc n)
  obtain ec1 env1 where r: "rd ec env = Some (ec1, env1)" "run_ok ec1" "statics ec1 = statics ec"
    "ec_stuck_prime ec1 \<le> ec_stuck_prime ec" "ec_health_failure ec1 = 0 \<longrightarrow> ec_health_failure ec = 0"
    using assms(1) Suc.prems unfolding recovers_def by blast
  moreover have "ec_in_recovery ec1" "ec_startup_state ec1 = jent_startup_completed"
    using Suc.prems r(3) by (simp_all add: statics_def)
  moreover note Suc.IH [OF r(2) this, of env1]
  ultimately show ?case
    by (simp del: random_data_times.simps add: random_data_times.simps(2) [of rd "Suc n"]) (meson order_trans)
qed

text \<open>Whether the recovery loop may still be entered for the current block.\<close>

definition may_recover :: "rand_data \<Rightarrow> bool" where
  "may_recover ec \<longleftrightarrow> \<not> ec_in_recovery ec \<and>
     \<not> (ec_rct_mem_ctr ec = ec_rct_mem_nosr ec \<and> ec_rct_mem_count ec < ec_rct_mem_cutoff ec)"

lemma window_nosr:
  assumes "run_ok ec" "window_ok ec"
  shows "unat (ec_rct_mem_nosr ec) = unat (fips_nosr (ec_osr ec))" "0 < ec_rct_mem_nosr ec"
proof -
  have b: "256 \<le> unat (fips_nosr (ec_osr ec))" "unat (fips_nosr (ec_osr ec)) \<le> 6420"
    using fips_nosr_unat [of "ec_osr ec"] assms(1) by (simp_all add: run_ok_def)
  then show "unat (ec_rct_mem_nosr ec) = unat (fips_nosr (ec_osr ec))"
    using assms(2) by (simp add: window_ok_def unsigned_ucast_eq take_bit_nat_eq_self)
  with b show "0 < ec_rct_mem_nosr ec"
    by (simp add: word_less_nat_alt)
qed

text \<open>The count after the tally of one measurement.\<close>

lemma tally_upd:
  assumes "run_ok ec" "window_ok ec"
  shows "\<exists>c. rct_mem_tally ec stuck = ec\<lparr>ec_rct_mem_count := c\<rparr> \<and>
    (ec_health_failure ec = 0 \<longrightarrow> c \<le> ec_rct_mem_cutoff ec \<and>
      (c = ec_rct_mem_cutoff ec \<longrightarrow> JENT_RCT_MEM_IN_WINDOW ec))"
proof -
  define b where "b = (if ec_rct_mem_ctr ec = 0 then 0 else ec_rct_mem_count ec)"
  define i where "i \<longleftrightarrow> stuck \<and> JENT_RCT_MEM_IN_WINDOW ec \<and> \<not> JENT_RCT_MEM_SKIP_STUCK ec"
  define c where "c = (if i then b + 1 else b)"
  have "rct_mem_tally ec stuck = ec\<lparr>ec_rct_mem_count := c\<rparr>"
    by (simp add: rct_mem_tally_def b_def c_def i_def Let_def JENT_RCT_MEM_IN_WINDOW_def JENT_RCT_MEM_SKIP_STUCK_def)
  moreover have "c \<le> ec_rct_mem_cutoff ec \<and> (c = ec_rct_mem_cutoff ec \<longrightarrow> JENT_RCT_MEM_IN_WINDOW ec)"
    if "ec_health_failure ec = 0"
  proof -
    have "b < ec_rct_mem_cutoff ec"
      using assms that by (auto simp: b_def window_ok_def run_ok_def)
    then have "b + 1 \<le> ec_rct_mem_cutoff ec" "b \<le> ec_rct_mem_cutoff ec" "b \<noteq> ec_rct_mem_cutoff ec"
      by (auto simp: inc_le)
    then show ?thesis
      by (auto simp: c_def i_def)
  qed
  ultimately show ?thesis
    by blast
qed

lemma or_failure [simp]: "x OR JENT_RCT_MEM_FAILURE_PERMANENT \<noteq> 0" "x OR JENT_RCT_MEM_FAILURE \<noteq> 0"
  by (simp_all add: or_eq_0_iff failure_masks)

text \<open>What is shown of one step of the test: the collector stays well-formed; as long as no failure is
  set, the window advances, and either the run count is untouched or the recovery loop has been used
  up.\<close>

definition mem_step :: "rand_data \<Rightarrow> rand_data \<Rightarrow> bool" where
  "mem_step ec ec' \<longleftrightarrow> run_ok ec' \<and> statics ec' = statics ec \<and> window_ok ec' \<and>
     ec_stuck_prime ec' \<le> ec_stuck_prime ec \<and>
     (ec_health_failure ec' = 0 \<longrightarrow> ec_health_failure ec = 0 \<and>
        (unat (ec_rct_mem_ctr ec') = min (unat (ec_rct_mem_nosr ec)) (Suc (unat (ec_rct_mem_ctr ec))) \<or>
         ec_rct_mem_ctr ec' = ec_rct_mem_nosr ec) \<and>
        (if may_recover ec' then may_recover ec \<and> ec_rct_count ec' = ec_rct_count ec
         else may_recover ec \<or> ec_rct_count ec' = ec_rct_count ec))"

end
