(* ===== verification/Jent_Memory.thy ===== *)
theory Jent_Memory
  imports Jent_Noise_Laws
begin

text \<open>
  The memory access noise source: the accesses stay inside the block, and the deterministic walk hits
  every location evenly.
\<close>

subsection \<open>The deterministic walk\<close>

text \<open>How often the location \<open>i\<close> of a block of \<open>m\<close> bytes is hit in \<open>n\<close> steps from \<open>l\<close>.\<close>

definition hits :: "nat \<Rightarrow> nat \<Rightarrow> nat \<Rightarrow> nat \<Rightarrow> nat" where
  "hits m n l i = (\<Sum>j<n. if (l + 127 * j) mod m = i then 1 else 0)"

lemma hits_Suc:
  assumes "l < m"
  shows "hits m (Suc n) l i = (if l = i then 1 else 0) + hits m n ((l + 127) mod m) i"
proof -
  have "(l + 127 * Suc j) mod m = ((l + 127) mod m + 127 * j) mod m" for j
    by (simp add: mod_add_left_eq add.assoc)
  with assms show ?thesis
    by (simp add: hits_def sum.lessThan_Suc_shift del: sum.lessThan_Suc)
qed

lemma walk_next:
  assumes "Suc (unat msk) + 127 < 2 ^ 32" "loc \<le> msk"
  shows "unat ((loc + JENT_MEMORY_BLOCKSIZE - 1) mod (msk + 1)) = (unat loc + 127) mod Suc (unat msk)"
proof -
  have "loc + JENT_MEMORY_BLOCKSIZE - 1 = loc + 127"
    by (simp add: JENT_MEMORY_BLOCKSIZE_def)
  moreover have "unat (loc + 127) = unat loc + 127"
    using assms by (simp add: unat_word_ariths(1) word_le_nat_alt)
  moreover have "unat (msk + 1) = Suc (unat msk)"
    using assms(1) by (intro unat_inc) simp
  ultimately show ?thesis
    by (simp only: unat_mod)
qed

lemma memaccess_walk_hits:
  assumes "Suc (unat msk) + 127 < 2 ^ 32" "length mem = Suc (unat msk)" "loc \<le> msk"
  shows "\<exists>loc'. memaccess_walk n (msk + 1) mem loc =
      Some (map (\<lambda>i. mem ! i + of_nat (hits (length mem) n (unat loc) i)) [0..<length mem], loc') \<and>
    unat loc' = (unat loc + 127 * n) mod length mem"
  using assms
proof (induction n arbitrary: mem loc)
  case 0
  have "map (\<lambda>i. mem ! i + of_nat (hits (length mem) 0 (unat loc) i)) [0..<length mem] = mem"
    using map_nth [of mem] by (simp add: hits_def)
  with 0 show ?case
    by (simp add: word_le_nat_alt less_Suc_eq_le)
next
  case (Suc n)
  let ?l = "(loc + JENT_MEMORY_BLOCKSIZE - 1) mod (msk + 1)" and ?m = "mem[unat loc := mem ! unat loc + 1]"
  have l: "unat loc < length mem" "unat ?l = (unat loc + 127) mod length mem"
    using Suc.prems walk_next [OF Suc.prems(1,3)] by (simp_all add: word_le_nat_alt)
  have w: "msk + 1 \<noteq> 0" "?l \<le> msk"
    using walk_wrap [of msk] Suc.prems(1) by simp_all
  obtain loc' where ih: "memaccess_walk n (msk + 1) ?m ?l =
      Some (map (\<lambda>i. ?m ! i + of_nat (hits (length mem) n (unat ?l) i)) [0..<length mem], loc')"
    "unat loc' = (unat ?l + 127 * n) mod length mem"
    using Suc.IH [of ?m ?l] Suc.prems w(2) by auto
  have "map (\<lambda>i. ?m ! i + of_nat (hits (length mem) n (unat ?l) i)) [0..<length mem] =
      map (\<lambda>i. mem ! i + of_nat (hits (length mem) (Suc n) (unat loc) i)) [0..<length mem]"
    unfolding l(2) hits_Suc [OF l(1)] using l(1) by (intro map_cong) (auto simp: nth_list_update)
  moreover have "unat loc' = (unat loc + 127 * Suc n) mod length mem"
    unfolding ih(2) l(2) by (simp add: mod_add_left_eq add.assoc)
  ultimately show ?case
    using ih(1) w(1) l(1) by (simp add: mem_touch_Some)
qed

text \<open>The stride 127 is prime to the size, a power of two.\<close>

lemma hits_even:
  assumes "i < 2 ^ k"
  shows "hits (2 ^ k) (2 ^ k) l i = 1"
proof -
  let ?m = "2 ^ k :: nat" and ?f = "\<lambda>j. (l + 127 * j) mod 2 ^ k :: nat"
  have co: "coprime ?m (127 :: nat)"
    by simp
  have inj: "inj_on ?f {..<?m}"
  proof (rule linorder_inj_onI')
    fix a b :: nat
    assume ab: "a \<in> {..<?m}" "b \<in> {..<?m}" "a < b"
    show "?f a \<noteq> ?f b"
    proof
      assume eq: "?f a = ?f b"
      have "l + 127 * a \<le> l + 127 * b"
        using ab(3) by simp
      from mod_eq_dvd_iff_nat [OF this, of ?m] eq have "?m dvd 127 * (b - a)"
        by (simp only: diff_mult_distrib2 diff_add_inverse2 add_diff_cancel_left simp_thms)
      then have "?m dvd b - a"
        by (simp only: coprime_dvd_mult_right_iff [OF co])
      moreover have "0 < b - a" "b - a < ?m"
        using ab by auto
      ultimately show False
        using dvd_imp_le [of ?m "b - a"] by linarith
    qed
  qed
  have "?f ` {..<?m} = {..<?m}"
  proof (rule card_subset_eq)
    show "?f ` {..<?m} \<subseteq> {..<?m}"
      by auto
    show "card (?f ` {..<?m}) = card {..<?m}"
      by (rule card_image [OF inj])
  qed simp
  moreover have "i \<in> {..<?m}"
    using assms by simp
  ultimately have "i \<in> ?f ` {..<?m}"
    by simp
  then obtain j where j: "j < ?m" "?f j = i"
    by auto
  have "?f x = i \<longleftrightarrow> x = j" if "x < ?m" for x
    using inj_onD [OF inj, of x j] j that by auto
  then have "hits ?m ?m l i = (\<Sum>x<?m. if x = j then 1 else 0)"
    unfolding hits_def by (intro sum.cong) simp_all
  then show ?thesis
    using j(1) by simp
qed

subsection \<open>The properties of the memory accesses\<close>

lemma nstime_location:
  "jent_get_nstime_internal fuel ec env = Some (t, ec', env') \<Longrightarrow> ec_memlocation ec' = ec_memlocation ec"
  by (auto simp: jent_get_nstime_internal_def jent_get_nstime_def bind_eq_Some_conv split: if_splits)

text \<open>C34: the deterministic memory access hits every location evenly: as many accesses as the block has
  bytes add one to each byte, wherever the walk stands, and bring it back to where it started. The
  stride of one less than the block size makes it cover the whole block.\<close>

theorem deterministic_walk_even:
  assumes "ec_mem ec = Some mem" "length mem = 2 ^ k" "ec_memmask ec = 2 ^ k - 1" "k \<le> 29"
    and "ec_memlocation ec \<le> ec_memmask ec"
  shows "jent_memaccess_deterministic fuel ec env (2 ^ k) False = Some (0, ec\<lparr>ec_mem := Some (map (\<lambda>b. b + 1) mem)\<rparr>, env)"
proof -
  have lt: "(2 :: nat) ^ k \<le> 2 ^ 29"
    using power_increasing [OF assms(4), of "2 :: nat"] by simp
  have p32: "unat (2 ^ k :: u32) = 2 ^ k" and p64: "unat (2 ^ k :: u64) = 2 ^ k"
    using unat_of_nat_small [of "2 ^ k", where 'a = 32] unat_of_nat_small [of "2 ^ k", where 'a = 64] lt by simp_all
  have pos: "(0 :: nat) < 2 ^ k"
    by simp
  then have nz: "(2 ^ k :: u32) \<noteq> 0" "(2 ^ k :: u64) \<noteq> 0"
    unfolding word_eq_unat p32 p64 by simp_all
  have msk: "Suc (unat (ec_memmask ec)) = 2 ^ k"
    unfolding assms(3) unat_minus_one [OF nz(1)] p32 using pos by simp
  have l: "length mem = Suc (unat (ec_memmask ec))"
    using assms(2) msk by simp
  have "Suc (unat (ec_memmask ec)) + 127 < 2 ^ 32"
    using lt msk by simp
  from memaccess_walk_hits [OF this l assms(5), of "2 ^ k"] obtain loc' where
    w: "memaccess_walk (2 ^ k) (ec_memmask ec + 1) mem (ec_memlocation ec) =
      Some (map (\<lambda>i. mem ! i + of_nat (hits (length mem) (2 ^ k) (unat (ec_memlocation ec)) i)) [0..<length mem], loc')"
    "unat loc' = (unat (ec_memlocation ec) + 127 * 2 ^ k) mod length mem"
    by blast
  have "map (\<lambda>i. mem ! i + of_nat (hits (length mem) (2 ^ k) (unat (ec_memlocation ec)) i)) [0..<length mem] =
      map (\<lambda>i. mem ! i + 1) [0..<length mem]"
    unfolding assms(2) by (intro map_cong) (simp_all add: hits_even)
  also have "\<dots> = map (\<lambda>b. b + 1) (map ((!) mem) [0..<length mem])"
    by simp
  also have "\<dots> = map (\<lambda>b. b + 1) mem"
    by (simp only: map_nth)
  finally have m: "map (\<lambda>i. mem ! i + of_nat (hits (length mem) (2 ^ k) (unat (ec_memlocation ec)) i)) [0..<length mem] =
      map (\<lambda>b. b + 1) mem" .
  have "unat (ec_memlocation ec) < 2 ^ k"
    using assms(5) msk by (simp add: word_le_nat_alt)
  then have "loc' = ec_memlocation ec"
    using w(2) unfolding assms(2) by (simp add: word_eq_unat)
  with w(1) m p64 nz(2) assms(1) show ?thesis
    by (simp add: jent_memaccess_deterministic_def Let_def memaccess_delta_def)
qed

theorem deterministic_walk_even_witness:
  "jent_memaccess_deterministic 0 (zero_rand_data\<lparr>ec_mem := Some [7, 255], ec_memmask := 1\<rparr>) start_env 2 False =
     Some (0, zero_rand_data\<lparr>ec_mem := Some [8, 0], ec_memmask := 1\<rparr>, start_env)"
  using deterministic_walk_even [of "zero_rand_data\<lparr>ec_mem := Some [7, 255], ec_memmask := 1\<rparr>" "[7, 255]" 1 0 start_env]
  by simp

text \<open>C35: for a collector whose block has the size its mask says, no access of the two memory access noise
  sources leaves the block, whatever the clock, the loop count and the state of the generator are: the
  accesses always succeed and keep the size of the block, so that such a call is the sequence of its time
  stamps. What can keep it from returning is a time stamp of the internal timer that never comes, or a
  divisor of zero; on the platform clock with a non-zero divisor both sources return and keep everything
  but the block and the location in it.\<close>

theorem memaccess_in_bounds:
  assumes "mem_ok ec" "ec_mem ec = Some mem"
  shows "(\<exists>acc. (\<forall>b. length (acc b) = length mem) \<and>
      jent_memaccess_pseudorandom fuel ec env lc m = do {
        (b, ec, env) \<leftarrow> prng_mix fuel ec env (prng_bytes [0x8e93eec0, 0xce65608a, 0xa8d46b46, 0xe83cef69]);
        (start, ec, env) \<leftarrow> (if m then jent_get_nstime_internal fuel ec env else Some (0, ec, env));
        memaccess_delta fuel m start (ec\<lparr>ec_mem := Some (acc b)\<rparr>) env }) \<and>
    (\<exists>mem' loc. length mem' = length mem \<and> loc \<le> ec_memmask ec \<and>
      jent_memaccess_deterministic fuel ec env lc m = do {
        (start, ec, env) \<leftarrow> (if m then jent_get_nstime_internal fuel ec env else Some (0, ec, env));
        memaccess_delta fuel m start (ec\<lparr>ec_mem := Some mem', ec_memlocation := loc\<rparr>) env }) \<and>
    (\<not> ec_enable_notime ec \<and> ec_common_timer_gcd ec \<noteq> 0 \<longrightarrow>
      (\<exists>d mem' loc env'. jent_memaccess_deterministic fuel ec env lc m =
        Some (d, ec\<lparr>ec_mem := mem', ec_memlocation := loc\<rparr>, env') \<and> mem_ok (ec\<lparr>ec_mem := mem', ec_memlocation := loc\<rparr>)) \<and>
      (\<exists>d mem' env'. jent_memaccess_pseudorandom fuel ec env lc m =
        Some (d, ec\<lparr>ec_mem := mem'\<rparr>, env') \<and> mem_ok (ec\<lparr>ec_mem := mem'\<rparr>)))"
proof -
  have mem: "length mem = Suc (unat (ec_memmask ec))" "Suc (unat (ec_memmask ec)) < 2 ^ 32" "ec_memlocation ec \<le> ec_memmask ec"
    using assms by (simp_all add: mem_ok_def)
  define n where "n = unat (if lc \<noteq> 0 then lc else ucast (ec_memaccessloops ec))"
  define acc where "acc b = the (memaccess_random_loop n (ec_memmask ec) (prng_words b) mem)" for b
  have acc: "memaccess_random_loop n (ec_memmask ec) (prng_words b) mem = Some (acc b)" "length (acc b) = length mem" for b
    using memaccess_random_loop_Some [of "ec_memmask ec" mem n "prng_words b"] mem(1) by (auto simp: acc_def)
  obtain mem' loc where w: "memaccess_walk n (ec_memmask ec + 1) mem (ec_memlocation ec) = Some (mem', loc)"
    "length mem' = length mem" "loc \<le> ec_memmask ec"
    using memaccess_walk_Some [OF mem(2,1,3)] by blast
  have random: "jent_memaccess_pseudorandom fuel ec env lc m = do {
      (b, ec, env) \<leftarrow> prng_mix fuel ec env (prng_bytes [0x8e93eec0, 0xce65608a, 0xa8d46b46, 0xe83cef69]);
      (start, ec, env) \<leftarrow> (if m then jent_get_nstime_internal fuel ec env else Some (0, ec, env));
      memaccess_delta fuel m start (ec\<lparr>ec_mem := Some (acc b)\<rparr>) env }"
    by (simp add: jent_memaccess_pseudorandom_def assms(2) Let_def n_def [symmetric] acc(1))
  have walk: "jent_memaccess_deterministic fuel ec env lc m = do {
      (start, ec, env) \<leftarrow> (if m then jent_get_nstime_internal fuel ec env else Some (0, ec, env));
      memaccess_delta fuel m start (ec\<lparr>ec_mem := Some mem', ec_memlocation := loc\<rparr>) env }"
    using w(1) nstime_location [of fuel ec env]
    by (cases "jent_get_nstime_internal fuel ec env")
      (auto simp: jent_memaccess_deterministic_def assms(2) Let_def n_def [symmetric])
  show ?thesis
    using acc(2) random w(2,3) walk memaccess_deterministic_ok [of ec fuel env lc m]
      memaccess_pseudorandom_ok [of ec fuel env lc m] assms(1) unfolding source_ok_def by blast
qed

theorem memaccess_in_bounds_witness:
  "\<exists>d ec' env'. jent_memaccess_pseudorandom 0 (zero_rand_data\<lparr>ec_mem := Some [7, 255], ec_memmask := 1,
      ec_common_timer_gcd := 1\<rparr>) start_env 99 True = Some (d, ec', env') \<and> mem_ok ec'"
proof -
  let ?ec = "zero_rand_data\<lparr>ec_mem := Some [7, 255], ec_memmask := 1, ec_common_timer_gcd := 1\<rparr>"
  have "mem_ok ?ec" "ec_mem ?ec = Some [7, 255]" "\<not> ec_enable_notime ?ec \<and> ec_common_timer_gcd ?ec \<noteq> 0"
    by (simp_all add: mem_ok_def)
  with memaccess_in_bounds [OF this(1,2), of 0 start_env 99 True] show ?thesis
    by blast
qed

end
