(* ===== verification/Jent_Flags.thy ===== *)
theory Jent_Flags
  imports Jent_Rand_Data
begin

text \<open>
  The helpers of \<^verbatim>\<open>src/jitterentropy-base.c\<close> that read and update the configuration flags: the
  memory size and hash loop fields, the oversampling rate floor, what the compliance modes imply.
  The cache size and the FIPS switch of the system come from the world.
\<close>

subsection \<open>Definitions\<close>

definition JENT_VERSION :: u32 where
  "JENT_VERSION = 3 * 1000000 + 8 * 10000 + 0 * 100"

definition JENT_DEFAULT_MEMORY_BITS :: u32 where "JENT_DEFAULT_MEMORY_BITS = 18"
definition JENT_CACHE_SHIFT_BITS :: u32 where "JENT_CACHE_SHIFT_BITS = 0"

definition JENT_MAX_AUTO_MEMSIZE :: u32 where
  "JENT_MAX_AUTO_MEMSIZE = JENT_FLAGS_TO_MAX_MEMSIZE JENT_MAX_MEMSIZE_MAX"

definition JENT_HASH_LOOP_DEFAULT :: u32 where "JENT_HASH_LOOP_DEFAULT = 1"

definition ensure_osr_is_at_least_minimal :: "u32 \<Rightarrow> u32" where
  "ensure_osr_is_at_least_minimal current_osr =
     (if current_osr < JENT_MIN_OSR then JENT_MIN_OSR else current_osr)"

definition jent_version :: u32 where "jent_version = JENT_VERSION"

function log2_loop :: "u64 \<Rightarrow> u32 \<Rightarrow> u32" where
  "log2_loop val idx = (let val = drop_bit 1 val in if val \<noteq> 0 then log2_loop val (idx + 1) else idx)"
  by auto
termination
proof (relation "measure (\<lambda>(val, _). unat val)")
  fix val val' :: u64 and idx :: u32
  assume "val' = drop_bit 1 val" "val' \<noteq> 0"
  then have "unat val' = unat val div 2" "unat val' \<noteq> 0"
    by (simp_all add: drop_bit_eq_div unat_div flip: unat_eq_zero)
  then show "((val', idx + 1), (val, idx)) \<in> measure (\<lambda>(val, _). unat val)"
    by simp
qed simp

declare log2_loop.simps [simp del]

definition jent_log2_simple :: "u64 \<Rightarrow> u32" where
  "jent_log2_simple val = log2_loop val 0"

text \<open>\<open>cache all\<close> is the result of \<^verbatim>\<open>jent_cache_size_roundup\<close> for the first level or for all levels: the size
  the system reports, rounded up to the next power of two above it, or 0 when it reports none.\<close>

definition jent_update_memsize :: "(bool \<Rightarrow> u64) \<Rightarrow> u32 \<Rightarrow> u32 \<Rightarrow> u32" where
  "jent_update_memsize cache flags inc =
     (let global_max = JENT_FLAGS_TO_MAX_MEMSIZE JENT_MAX_MEMSIZE_MAX;
          max = JENT_FLAGS_TO_MAX_MEMSIZE flags;
          max = (if max = 0
                 then let max = jent_log2_simple (cache (has flags JENT_CACHE_ALL));
                          max = (if max = 0 then JENT_DEFAULT_MEMORY_BITS
                                 else let max = max + JENT_CACHE_SHIFT_BITS
                                      in if \<not> has flags JENT_CACHE_ALL then max + 2 else max);
                          max = (if max > JENT_MAX_MEMSIZE_OFFSET then max - JENT_MAX_MEMSIZE_OFFSET else 0)
                      in if max > JENT_MAX_AUTO_MEMSIZE then JENT_MAX_AUTO_MEMSIZE else max
                 else max + inc);
          max = (if max > global_max then global_max else max);
          flags = flags AND NOT JENT_MAX_MEMSIZE_MASK
      in flags OR JENT_MAX_MEMSIZE_TO_FLAGS max)"

text \<open>The first field value whose loop count covers the default, from \<open>max\<close> on. The field has
  four bits, so the shift stays within the word.\<close>

fun hashloop_cover :: "nat \<Rightarrow> u32 \<Rightarrow> u32" where
  "hashloop_cover 0 m = m"
| "hashloop_cover (Suc fuel) m =
     (if push_bit (unat (m - 1)) 1 < JENT_HASH_LOOP_DEFAULT then hashloop_cover fuel (m + 1) else m)"

definition jent_update_hashloop :: "u32 \<Rightarrow> u32 \<Rightarrow> u32" where
  "jent_update_hashloop flags inc =
     (let global_max = JENT_FLAGS_TO_HASHLOOP JENT_MAX_HASHLOOP;
          max = JENT_FLAGS_TO_HASHLOOP flags
      in if max = 0 \<and> inc \<noteq> 0 \<and> JENT_HASH_LOOP_DEFAULT > push_bit (unat (global_max - 1)) 1 then flags
         else let max = (if max = 0 \<and> inc \<noteq> 0 then hashloop_cover 32 1 else max);
                  max = max + inc;
                  max = (if max > global_max then global_max else max);
                  flags = flags AND NOT JENT_MAX_HASHLOOP_MASK
              in flags OR JENT_HASHLOOP_TO_FLAGS max)"

definition jent_update_secure_mem :: "bool \<Rightarrow> u32 \<Rightarrow> u32" where
  "jent_update_secure_mem fips flags =
     (if has flags (JENT_NTG1 OR JENT_FORCE_FIPS) \<or> fips then flags OR JENT_FORCE_SECURE_MEM else flags)"

definition jent_memaccess_contradicts :: "bool \<Rightarrow> u32 \<Rightarrow> bool" where
  "jent_memaccess_contradicts fips flags \<longleftrightarrow>
     has flags JENT_DISABLE_MEMORY_ACCESS \<and> (has flags (JENT_NTG1 OR JENT_FORCE_FIPS) \<or> fips)"

text \<open>The code of a set of failure bits.\<close>

definition jent_health_err :: "u32 \<Rightarrow> int" where
  "jent_health_err health_test_result =
     (if has health_test_result JENT_RCT_FAILURE_PERMANENT then JENT_ERR_RCT_PERMANENT
      else if has health_test_result JENT_APT_FAILURE_PERMANENT then JENT_ERR_APT_PERMANENT
      else if has health_test_result JENT_LAG_FAILURE_PERMANENT then JENT_ERR_LAG_PERMANENT
      else if has health_test_result JENT_RCT_MEM_FAILURE_PERMANENT then JENT_ERR_RCT_MEM_PERMANENT
      else if has health_test_result JENT_RCT_FAILURE then JENT_ERR_RCT
      else if has health_test_result JENT_APT_FAILURE then JENT_ERR_APT
      else if has health_test_result JENT_RCT_MEM_FAILURE then JENT_ERR_RCT_MEM
      else JENT_ERR_LAG)"

definition jent_memsize :: "u32 \<Rightarrow> u32" where
  "jent_memsize flags =
     (let memsize = JENT_FLAGS_TO_MAX_MEMSIZE flags;
          max_field = JENT_FLAGS_TO_MAX_MEMSIZE JENT_MAX_MEMSIZE_MAX;
          memsize = (if memsize > max_field then max_field else memsize);
          memsize = (if memsize = 0 then JENT_DEFAULT_MEMORY_BITS else memsize + JENT_MAX_MEMSIZE_OFFSET)
      in push_bit (unat memsize) 1)"

definition jent_hashloop_cnt :: "u32 \<Rightarrow> u32" where
  "jent_hashloop_cnt flags =
     (let cnt = JENT_FLAGS_TO_HASHLOOP flags;
          cnt = (if cnt > JENT_FLAGS_TO_HASHLOOP JENT_MAX_HASHLOOP
                 then JENT_FLAGS_TO_HASHLOOP JENT_MAX_HASHLOOP else cnt)
      in if cnt = 0 then JENT_HASH_LOOP_DEFAULT else push_bit (unat (cnt - 1)) 1)"

subsection \<open>Fields of the flags\<close>

lemma log2_loop_bounds:
  assumes "val \<noteq> 0" "unat val < 2 ^ m" "unat idx + m < 2 ^ 32"
  shows "\<exists>k. unat (log2_loop val idx) = unat idx + k \<and> 2 ^ k \<le> unat val \<and> unat val < 2 ^ Suc k"
  using assms
proof (induction val idx arbitrary: m rule: log2_loop.induct)
  case (1 val idx)
  define v where "v = drop_bit 1 val"
  have v: "unat v = unat val div 2" and pos: "0 < unat val"
    using 1(2) by (simp_all add: v_def drop_bit_eq_div unat_div unat_gt_0)
  have step: "log2_loop val idx = (if v \<noteq> 0 then log2_loop v (idx + 1) else idx)"
    by (subst log2_loop.simps) (simp only: v_def Let_def)
  show ?case
  proof (cases "v = 0")
    case True
    then have "unat val div 2 = 0"
      using v by simp
    then have "unat val < 2"
      by arith
    with pos True step show ?thesis
      by (intro exI [of _ 0]) simp
  next
    case False
    then have "0 < unat val div 2"
      using v by (simp add: unat_gt_0 flip: v)
    then obtain n where n: "m = Suc n"
      using 1(3) by (cases m) simp_all
    have idx: "unat (idx + 1) = Suc (unat idx)"
      using 1(4) n by (intro unat_inc) simp
    have lt: "unat v < 2 ^ n"
      using 1(3) n v by (simp add: less_mult_imp_div_less)
    obtain k where "unat (log2_loop v (idx + 1)) = Suc (unat idx) + k" "2 ^ k \<le> unat v" "unat v < 2 ^ Suc k"
      using 1(1) [OF v_def False False lt] 1(4) n idx by auto
    with False v show ?thesis
      using step by (intro exI [of _ "Suc k"]) auto
  qed
qed

lemma flags_to_hashloop: "JENT_FLAGS_TO_HASHLOOP flags = take_bit 4 (drop_bit 23 flags)"
  by (simp add: JENT_FLAGS_TO_HASHLOOP_def take_bit_eq_mask mask_numeral)

lemma field_range: "unat (JENT_FLAGS_TO_MAX_MEMSIZE flags) < 32" "unat (JENT_FLAGS_TO_HASHLOOP flags) < 16"
proof -
  have "unat flags < 2 ^ LENGTH(32)"
    by (rule unsigned_less)
  then show "unat (JENT_FLAGS_TO_MAX_MEMSIZE flags) < 32"
    by (simp add: JENT_FLAGS_TO_MAX_MEMSIZE_def drop_bit_eq_div unat_div)
  show "unat (JENT_FLAGS_TO_HASHLOOP flags) < 16"
    by (simp add: flags_to_hashloop take_bit_eq_mod unat_mod)
qed

lemma memsize_max_field: "JENT_FLAGS_TO_MAX_MEMSIZE JENT_MAX_MEMSIZE_MAX = 20"
  by (simp add: JENT_FLAGS_TO_MAX_MEMSIZE_def JENT_MAX_MEMSIZE_MAX_def JENT_MAX_MEMSIZE_TO_FLAGS_def)

lemma hashloop_max_field: "JENT_FLAGS_TO_HASHLOOP JENT_MAX_HASHLOOP = 8"
  by (simp add: JENT_FLAGS_TO_HASHLOOP_def JENT_MAX_HASHLOOP_def JENT_HASHLOOP_TO_FLAGS_def)

text \<open>Writing a field and reading it back.\<close>

lemma bit_below:
  fixes m :: "'a::len word"
  assumes "unat m < 2 ^ k" "bit m n"
  shows "n < k"
proof -
  have "unat (take_bit k m) = unat m"
    using assms(1) by (simp add: unsigned_take_bit_eq take_bit_nat_eq_self)
  then have "take_bit k m = m"
    by (simp add: word_eq_unat)
  with assms(2) show ?thesis
    by (metis bit_take_bit_iff)
qed

lemma bit_masks:
  "bit JENT_MAX_MEMSIZE_MASK n \<longleftrightarrow> 27 \<le> n \<and> n < 32"
  "bit JENT_MAX_HASHLOOP_MASK n \<longleftrightarrow> 23 \<le> n \<and> n < 27"
proof -
  have m: "JENT_MAX_MEMSIZE_MASK = push_bit 27 (mask 32)" "JENT_MAX_HASHLOOP_MASK = push_bit 23 (mask 4)"
    by (simp_all add: JENT_MAX_MEMSIZE_MASK_def JENT_MAX_MEMSIZE_TO_FLAGS_def JENT_MAX_HASHLOOP_MASK_def
        JENT_HASHLOOP_TO_FLAGS_def mask_numeral)
  show "bit JENT_MAX_MEMSIZE_MASK n \<longleftrightarrow> 27 \<le> n \<and> n < 32"
    "bit JENT_MAX_HASHLOOP_MASK n \<longleftrightarrow> 23 \<le> n \<and> n < 27"
    unfolding m by (auto simp: bit_simps)
qed

lemma memsize_field_put:
  assumes "unat m < 32"
  shows "JENT_FLAGS_TO_MAX_MEMSIZE (f AND NOT JENT_MAX_MEMSIZE_MASK OR JENT_MAX_MEMSIZE_TO_FLAGS m) = m"
proof (rule bit_word_eqI)
  fix n
  assume "n < LENGTH(32)"
  moreover have "bit m n \<Longrightarrow> n < 5"
    using bit_below [of m 5 n] assms by simp
  ultimately show "bit (JENT_FLAGS_TO_MAX_MEMSIZE (f AND NOT JENT_MAX_MEMSIZE_MASK OR JENT_MAX_MEMSIZE_TO_FLAGS m)) n = bit m n"
    by (auto simp: JENT_FLAGS_TO_MAX_MEMSIZE_def JENT_MAX_MEMSIZE_TO_FLAGS_def bit_simps bit_masks)
qed

lemma hashloop_field_put:
  assumes "unat m < 16"
  shows "JENT_FLAGS_TO_HASHLOOP (f AND NOT JENT_MAX_HASHLOOP_MASK OR JENT_HASHLOOP_TO_FLAGS m) = m"
proof (rule bit_word_eqI)
  fix n
  assume "n < LENGTH(32)"
  moreover have "bit m n \<Longrightarrow> n < 4"
    using bit_below [of m 4 n] assms by simp
  ultimately show "bit (JENT_FLAGS_TO_HASHLOOP (f AND NOT JENT_MAX_HASHLOOP_MASK OR JENT_HASHLOOP_TO_FLAGS m)) n = bit m n"
    by (auto simp: flags_to_hashloop JENT_HASHLOOP_TO_FLAGS_def bit_simps bit_masks)
qed

lemma memsize_put_other:
  "n < 27 \<Longrightarrow> bit (f AND NOT JENT_MAX_MEMSIZE_MASK OR JENT_MAX_MEMSIZE_TO_FLAGS m) n = bit f n"
  by (auto simp: JENT_MAX_MEMSIZE_TO_FLAGS_def bit_simps bit_masks dest: bit_imp_le_length)

lemma hashloop_put_other:
  assumes "unat m < 16" "n < 23 \<or> 27 \<le> n"
  shows "bit (f AND NOT JENT_MAX_HASHLOOP_MASK OR JENT_HASHLOOP_TO_FLAGS m) n = bit f n"
  using assms bit_below [of m 4 "n - 23"]
  by (auto simp: JENT_HASHLOOP_TO_FLAGS_def bit_simps bit_masks dest: bit_imp_le_length)

text \<open>What the updates leave in the fields.\<close>

lemma unat_cap: "unat (if m > c then c else m) = min (unat m) (unat (c :: u32))"
  by (simp add: word_less_nat_alt min_def)

lemma unat_cap_20: "unat (if m > 20 then 20 else m :: u32) < 32"
  by (simp add: unat_cap)

lemma update_memsize_field:
  "unat (JENT_FLAGS_TO_MAX_MEMSIZE (jent_update_memsize cache flags inc)) \<le> 20"
  "JENT_FLAGS_TO_MAX_MEMSIZE flags \<noteq> 0 \<Longrightarrow> unat inc < 32 \<Longrightarrow>
   unat (JENT_FLAGS_TO_MAX_MEMSIZE (jent_update_memsize cache flags inc)) =
     min 20 (unat (JENT_FLAGS_TO_MAX_MEMSIZE flags) + unat inc)"
proof -
  have put: "\<exists>m. jent_update_memsize cache flags inc =
      (flags AND NOT JENT_MAX_MEMSIZE_MASK OR JENT_MAX_MEMSIZE_TO_FLAGS (if m > 20 then 20 else m)) \<and>
      (JENT_FLAGS_TO_MAX_MEMSIZE flags \<noteq> 0 \<longrightarrow> m = JENT_FLAGS_TO_MAX_MEMSIZE flags + inc)"
    unfolding jent_update_memsize_def Let_def memsize_max_field by (rule exI, rule conjI, rule refl) simp
  then obtain m where m: "JENT_FLAGS_TO_MAX_MEMSIZE (jent_update_memsize cache flags inc) = (if m > 20 then 20 else m)"
    "JENT_FLAGS_TO_MAX_MEMSIZE flags \<noteq> 0 \<longrightarrow> m = JENT_FLAGS_TO_MAX_MEMSIZE flags + inc"
    using memsize_field_put [of "if m > 20 then 20 else m" flags for m] by (metis unat_cap_20)
  then show "unat (JENT_FLAGS_TO_MAX_MEMSIZE (jent_update_memsize cache flags inc)) \<le> 20"
    by (simp add: unat_cap)
  assume "JENT_FLAGS_TO_MAX_MEMSIZE flags \<noteq> 0" "unat inc < 32"
  then show "unat (JENT_FLAGS_TO_MAX_MEMSIZE (jent_update_memsize cache flags inc)) =
      min 20 (unat (JENT_FLAGS_TO_MAX_MEMSIZE flags) + unat inc)"
    using m field_range(1) [of flags] by (auto simp: word_less_nat_alt unat_word_ariths(1))
qed

lemma update_memsize_other: "n < 27 \<Longrightarrow> bit (jent_update_memsize cache flags inc) n = bit flags n"
  by (simp add: jent_update_memsize_def Let_def memsize_put_other)

lemma hashloop_cover_default: "hashloop_cover 32 1 = 1"
  by (simp add: JENT_HASH_LOOP_DEFAULT_def numeral_eq_Suc)

lemma update_hashloop_field:
  assumes "unat inc < 16"
  shows "unat (JENT_FLAGS_TO_HASHLOOP (jent_update_hashloop flags inc)) =
    min 8 (if JENT_FLAGS_TO_HASHLOOP flags = 0 \<and> inc \<noteq> 0 then 1 + unat inc
           else unat (JENT_FLAGS_TO_HASHLOOP flags) + unat inc)"
proof -
  have "unat (if m > 8 then 8 else m :: u32) < 16" for m
    by (simp add: unat_cap)
  note put = hashloop_field_put [OF this]
  show ?thesis
    using assms field_range(2) [of flags]
    by (simp add: jent_update_hashloop_def Let_def hashloop_max_field hashloop_cover_default
        JENT_HASH_LOOP_DEFAULT_def put unat_cap unat_word_ariths(1) min.commute)
qed

lemma update_hashloop_other:
  "unat inc < 16 \<Longrightarrow> n < 23 \<or> 27 \<le> n \<Longrightarrow> bit (jent_update_hashloop flags inc) n = bit flags n"
  by (simp add: jent_update_hashloop_def Let_def hashloop_max_field hashloop_put_other unat_cap)

lemma unat_pow2: "k < 32 \<Longrightarrow> unat (2 ^ k :: u32) = 2 ^ k"
  using unat_of_nat_small [of "2 ^ k", where 'a = 32] power_strict_increasing [of k 32 "2 :: nat"]
  by simp

text \<open>The next power of two below a cap.\<close>

lemma power_step: "2 ^ min n (Suc k) = min (2 ^ n) (2 * 2 ^ min n k :: nat)"
  by (cases "k < n") (simp_all add: min_def power_increasing flip: power_Suc)

lemma memsize_eq:
  "unat (jent_memsize flags) = 2 ^ (if JENT_FLAGS_TO_MAX_MEMSIZE flags = 0 then 18
     else min 20 (unat (JENT_FLAGS_TO_MAX_MEMSIZE flags)) + 9)"
proof -
  let ?f = "JENT_FLAGS_TO_MAX_MEMSIZE flags"
  define m where "m = (if ?f > 20 then 20 else ?f)"
  have m: "unat m = min (unat ?f) 20"
    by (simp add: m_def unat_cap)
  then have z: "m = 0 \<longleftrightarrow> ?f = 0"
    by (simp add: word_eq_unat min_def)
  have "unat (m + 9) = unat m + 9"
    using m by (simp add: unat_word_ariths(1))
  then show ?thesis
    using m z by (simp add: jent_memsize_def Let_def memsize_max_field m_def [symmetric] unat_pow2
        JENT_DEFAULT_MEMORY_BITS_def JENT_MAX_MEMSIZE_OFFSET_def min.commute)
qed

lemma hashloop_cnt_eq:
  "unat (jent_hashloop_cnt flags) = 2 ^ (min 8 (unat (JENT_FLAGS_TO_HASHLOOP flags)) - 1)"
proof -
  let ?f = "JENT_FLAGS_TO_HASHLOOP flags"
  define m where "m = (if ?f > 8 then 8 else ?f)"
  have m: "unat m = min (unat ?f) 8"
    by (simp add: m_def unat_cap)
  then have z: "m = 0 \<longleftrightarrow> unat ?f = 0"
    by (simp add: word_eq_unat min_def)
  have one: "m \<noteq> 0 \<Longrightarrow> unat (m - 1) = unat m - 1"
    by (simp add: unat_minus_one)
  have "jent_hashloop_cnt flags = (if m = 0 then 1 else 2 ^ unat (m - 1))"
    unfolding jent_hashloop_cnt_def Let_def hashloop_max_field m_def [symmetric]
    by (simp add: JENT_HASH_LOOP_DEFAULT_def push_bit_of_1)
  then show ?thesis
    using m z one by (simp add: unat_pow2 min.commute)
qed

lemma update_memsize_auto:
  assumes "JENT_FLAGS_TO_MAX_MEMSIZE flags = 0"
  shows "JENT_FLAGS_TO_MAX_MEMSIZE (jent_update_memsize cache flags inc) =
    (let l = jent_log2_simple (cache (has flags JENT_CACHE_ALL));
         m = (if l = 0 then JENT_DEFAULT_MEMORY_BITS
              else if has flags JENT_CACHE_ALL then l + JENT_CACHE_SHIFT_BITS else l + JENT_CACHE_SHIFT_BITS + 2);
         m = (if m > 9 then m - 9 else 0)
     in if m > 20 then 20 else m)"
proof -
  have id: "(if (if m > 20 then 20 else m) > 20 then 20 else if m > 20 then 20 else m) = (if m > 20 then 20 else m :: u32)" for m
    by simp
  show ?thesis
    unfolding jent_update_memsize_def Let_def assms JENT_MAX_AUTO_MEMSIZE_def memsize_max_field
      JENT_MAX_MEMSIZE_OFFSET_def simp_thms if_True id memsize_field_put [OF unat_cap_20] if_not_P
    by (simp only: if_not_P if_cancel cong: if_cong) (auto simp: simp_thms)
qed

lemma log2_simple_pow2:
  assumes "k < 64"
  shows "unat (jent_log2_simple (2 ^ k)) = k"
proof -
  have p: "unat (2 ^ k :: u64) = 2 ^ k"
    using unat_of_nat_small [of "2 ^ k", where 'a = 64] power_strict_increasing [OF assms, of "2 :: nat"] by simp
  then have "(2 ^ k :: u64) \<noteq> 0" "unat (2 ^ k :: u64) < 2 ^ 64"
    using power_strict_increasing [OF assms, of "2 :: nat"] by (simp_all add: word_eq_unat)
  then obtain j where "unat (jent_log2_simple (2 ^ k)) = j" "2 ^ j \<le> (2 :: nat) ^ k" "(2 :: nat) ^ k < 2 ^ Suc j"
    using log2_loop_bounds [of "2 ^ k" 64 0] p by (auto simp: jent_log2_simple_def)
  then have "j \<le> k" "k < Suc j"
    using power_le_imp_le_exp [of "2 :: nat" j k] power_less_imp_less_exp [of "2 :: nat" k "Suc j"] by simp_all
  with \<open>unat (jent_log2_simple (2 ^ k)) = j\<close> show ?thesis
    by simp
qed

text \<open>The fields are the upper bits.\<close>

lemma upper_bits:
  fixes f g :: u32
  assumes "\<And>n. 23 \<le> n \<Longrightarrow> bit f n = bit g n"
  shows "JENT_FLAGS_TO_MAX_MEMSIZE f = JENT_FLAGS_TO_MAX_MEMSIZE g" "jent_memsize f = jent_memsize g"
    "jent_hashloop_cnt f = jent_hashloop_cnt g"
proof -
  show m: "JENT_FLAGS_TO_MAX_MEMSIZE f = JENT_FLAGS_TO_MAX_MEMSIZE g"
    by (rule bit_word_eqI) (simp add: JENT_FLAGS_TO_MAX_MEMSIZE_def bit_simps assms)
  then show "jent_memsize f = jent_memsize g"
    by (simp add: jent_memsize_def)
  have "JENT_FLAGS_TO_HASHLOOP f = JENT_FLAGS_TO_HASHLOOP g"
    by (rule bit_word_eqI) (auto simp: flags_to_hashloop bit_simps assms)
  then show "jent_hashloop_cnt f = jent_hashloop_cnt g"
    by (simp add: jent_hashloop_cnt_def)
qed

text \<open>Neither update touches what the other one writes.\<close>

lemma field_disjoint:
  "unat inc < 16 \<Longrightarrow> JENT_FLAGS_TO_MAX_MEMSIZE (jent_update_hashloop flags inc) = JENT_FLAGS_TO_MAX_MEMSIZE flags"
  "unat inc < 16 \<Longrightarrow> jent_memsize (jent_update_hashloop flags inc) = jent_memsize flags"
  "jent_hashloop_cnt (jent_update_memsize cache flags i) = jent_hashloop_cnt flags"
proof -
  show m: "JENT_FLAGS_TO_MAX_MEMSIZE (jent_update_hashloop flags inc) = JENT_FLAGS_TO_MAX_MEMSIZE flags" if "unat inc < 16"
    by (rule bit_word_eqI) (simp add: JENT_FLAGS_TO_MAX_MEMSIZE_def bit_simps update_hashloop_other [OF that])
  show "jent_memsize (jent_update_hashloop flags inc) = jent_memsize flags" if "unat inc < 16"
    by (simp add: jent_memsize_def m [OF that])
  have "JENT_FLAGS_TO_HASHLOOP (jent_update_memsize cache flags i) = JENT_FLAGS_TO_HASHLOOP flags"
    by (rule bit_word_eqI) (auto simp: flags_to_hashloop bit_simps update_memsize_other)
  then show "jent_hashloop_cnt (jent_update_memsize cache flags i) = jent_hashloop_cnt flags"
    by (simp add: jent_hashloop_cnt_def)
qed

lemma hashloop_step:
  "unat (jent_hashloop_cnt (jent_update_hashloop flags 1)) = min 128 (2 * unat (jent_hashloop_cnt flags))"
  "jent_hashloop_cnt (jent_update_hashloop flags 0) = jent_hashloop_cnt flags"
proof -
  let ?h = "unat (JENT_FLAGS_TO_HASHLOOP flags)"
  have h: "JENT_FLAGS_TO_HASHLOOP flags = 0 \<longleftrightarrow> ?h = 0"
    by (simp add: word_eq_unat)
  have "unat (jent_hashloop_cnt (jent_update_hashloop flags 1)) = 2 ^ min 7 (Suc (min 8 ?h - 1))"
    using h by (cases "?h = 0") (simp_all add: hashloop_cnt_eq update_hashloop_field min_def Suc_le_eq)
  then show "unat (jent_hashloop_cnt (jent_update_hashloop flags 1)) = min 128 (2 * unat (jent_hashloop_cnt flags))"
    using power_step [of 7 "min 8 ?h - 1"] by (simp add: hashloop_cnt_eq min_absorb2)
  have "unat (jent_hashloop_cnt (jent_update_hashloop flags 0)) = unat (jent_hashloop_cnt flags)"
    by (simp add: hashloop_cnt_eq update_hashloop_field)
  then show "jent_hashloop_cnt (jent_update_hashloop flags 0) = jent_hashloop_cnt flags"
    by (simp add: word_eq_unat)
qed

lemma memsize_step:
  assumes "JENT_FLAGS_TO_MAX_MEMSIZE flags \<noteq> 0"
  shows "unat (jent_memsize (jent_update_memsize cache flags 1)) = min (2 ^ 29) (2 * unat (jent_memsize flags))"
    "jent_memsize (jent_update_memsize cache flags 0) = jent_memsize flags"
    "unat inc < 32 \<Longrightarrow> JENT_FLAGS_TO_MAX_MEMSIZE (jent_update_memsize cache flags inc) \<noteq> 0"
proof -
  let ?m = "unat (JENT_FLAGS_TO_MAX_MEMSIZE flags)"
  have m: "?m \<noteq> 0"
    using assms by (simp add: unat_eq_zero)
  then have nz: "JENT_FLAGS_TO_MAX_MEMSIZE (jent_update_memsize cache flags inc) \<noteq> 0" if "unat inc < 32" for inc
    using update_memsize_field(2) [OF assms that, of cache] by (auto simp: min_def split: if_splits)
  have "unat (jent_memsize (jent_update_memsize cache flags 1)) = 2 ^ min 29 (Suc (min 20 ?m + 9))"
    using update_memsize_field(2) [OF assms, of 1 cache] nz [of 1] by (simp add: memsize_eq min_def)
  then show "unat (jent_memsize (jent_update_memsize cache flags 1)) = min (2 ^ 29) (2 * unat (jent_memsize flags))"
    using assms power_step [of 29 "min 20 ?m + 9"] by (simp add: memsize_eq min_absorb2)
  have "unat (jent_memsize (jent_update_memsize cache flags 0)) = unat (jent_memsize flags)"
    using update_memsize_field(2) [OF assms, of 0 cache] nz [of 0] assms by (simp add: memsize_eq)
  then show "jent_memsize (jent_update_memsize cache flags 0) = jent_memsize flags"
    by (simp add: word_eq_unat)
  show "unat inc < 32 \<Longrightarrow> JENT_FLAGS_TO_MAX_MEMSIZE (jent_update_memsize cache flags inc) \<noteq> 0"
    by (rule nz)
qed

subsection \<open>The properties of the configuration\<close>

text \<open>C30: one step of the recovery ladder, the growth of the memory and then of the hash loops, doubles the
  work of both noise sources until the cap: the memory size, once it is fixed, up to 512 MB and the hash
  loop count up to 128, neither disturbing the other. Everything else the flags say is left as it is.\<close>

theorem recovery_step_doubles:
  assumes "JENT_FLAGS_TO_MAX_MEMSIZE flags \<noteq> 0"
    and "flags' = jent_update_hashloop (jent_update_memsize cache flags 1) 1"
  shows "unat (jent_memsize flags') = min (2 ^ 29) (2 * unat (jent_memsize flags)) \<and>
    unat (jent_hashloop_cnt flags') = min 128 (2 * unat (jent_hashloop_cnt flags)) \<and>
    (\<forall>n < 23. bit flags' n = bit flags n)"
  using memsize_step(1) [OF assms(1), of cache]
  by (simp add: assms(2) field_disjoint hashloop_step update_hashloop_other update_memsize_other)

theorem recovery_step_doubles_witness:
  "unat (jent_memsize (jent_update_hashloop (jent_update_memsize (\<lambda>_. 0) (JENT_MAX_MEMSIZE_TO_FLAGS 5) 1) 1)) = 2 ^ 15 \<and>
   unat (jent_hashloop_cnt (jent_update_hashloop (jent_update_memsize (\<lambda>_. 0) (JENT_MAX_MEMSIZE_TO_FLAGS 5) 1) 1)) = 2"
proof -
  have f: "JENT_FLAGS_TO_MAX_MEMSIZE (JENT_MAX_MEMSIZE_TO_FLAGS 5) = 5" "JENT_FLAGS_TO_HASHLOOP (JENT_MAX_MEMSIZE_TO_FLAGS 5) = 0"
    by (simp_all add: JENT_FLAGS_TO_MAX_MEMSIZE_def JENT_MAX_MEMSIZE_TO_FLAGS_def JENT_FLAGS_TO_HASHLOOP_def)
  then have "unat (jent_memsize (JENT_MAX_MEMSIZE_TO_FLAGS 5)) = 2 ^ 14" "unat (jent_hashloop_cnt (JENT_MAX_MEMSIZE_TO_FLAGS 5)) = 1"
    by (simp_all add: memsize_eq hashloop_cnt_eq)
  with recovery_step_doubles [of "JENT_MAX_MEMSIZE_TO_FLAGS 5" _ "\<lambda>_. 0", OF _ refl] f show ?thesis
    by simp
qed

text \<open>C32: whatever the flags word holds, the working set is a power of two between 1 kB and 512 MB and
  the hash loop count a power of two between 1 and 128: no shift leaves its word.\<close>

theorem field_bounds:
  "unat (jent_memsize flags) \<in> (\<lambda>k. 2 ^ k) ` {10..29} \<and>
   unat (jent_hashloop_cnt flags) \<in> (\<lambda>k. 2 ^ k) ` {0..7}"
proof (intro conjI)
  show "unat (jent_memsize flags) \<in> (\<lambda>k. 2 ^ k) ` {10..29}"
    unfolding memsize_eq by (rule imageI) (auto simp: word_eq_unat)
  show "unat (jent_hashloop_cnt flags) \<in> (\<lambda>k. 2 ^ k) ` {0..7}"
    unfolding hashloop_cnt_eq by (rule imageI) auto
qed

text \<open>C33: a failure is never reported as a success, and a code that makes a caller retry is given only
  when no permanent bit is set.\<close>

theorem health_err_negative:
  "jent_health_err h < 0 \<and>
   (jent_health_err h \<in> {JENT_ERR_RCT, JENT_ERR_APT, JENT_ERR_LAG, JENT_ERR_RCT_MEM} \<longleftrightarrow>
    h AND (JENT_RCT_FAILURE_PERMANENT OR JENT_APT_FAILURE_PERMANENT OR JENT_LAG_FAILURE_PERMANENT OR
           JENT_RCT_MEM_FAILURE_PERMANENT) = 0)"
proof -
  have split: "h AND (a OR b OR c OR d) = 0 \<longleftrightarrow> \<not> has h a \<and> \<not> has h b \<and> \<not> has h c \<and> \<not> has h d" for a b c d
    by (auto simp: has_def bit.conj_disj_distrib or_eq_0_iff)
  show ?thesis
    unfolding split jent_health_err_def by (simp add: read_errors)
qed

end
