(* ===== verification/Jent_Uuid.thy ===== *)
theory Jent_Uuid
  imports Jent_Sponge Jent_Rand_Data
begin

text \<open>
  \<^verbatim>\<open>src/jitterentropy-uuid.c\<close>: the identifier of a collector. The operating system's CSPRNG is the
  stream \<open>env_random\<close> of the world; it answers with sixteen bytes or fails.
\<close>

subsection \<open>Definitions\<close>

definition JENT_UUID_STRLEN :: nat where "JENT_UUID_STRLEN = 37"

definition uuid_hex :: string where "uuid_hex = ''0123456789abcdef''"

text \<open>One iteration of the output loop; the string so far is what \<^verbatim>\<open>out[0 .. j-1]\<close> holds.\<close>

definition uuid_put :: "u8 list \<Rightarrow> string \<Rightarrow> nat \<Rightarrow> string" where
  "uuid_put b out i =
     (let out = (if i = 4 \<or> i = 6 \<or> i = 8 \<or> i = 10 then out @ ''-'' else out)
      in out @ [uuid_hex ! unat (drop_bit 4 (b ! i))] @ [uuid_hex ! unat (b ! i AND 0x0f)])"

definition jent_uuid_format :: "u8 list \<Rightarrow> string" where
  "jent_uuid_format b = foldl (uuid_put b) '''' [0..<16] @ [CHR 0x00]"

definition jent_atomic_inc_u32 :: "jent_env \<Rightarrow> u32 \<times> jent_env" where
  "jent_atomic_inc_u32 env =
     (let val = g_uuid_counter env + 1 in (val, env\<lparr>g_uuid_counter := val\<rparr>))"

text \<open>The twelve bytes hashed for one counter value and time.\<close>

definition uuid_input :: "u32 \<Rightarrow> u64 \<Rightarrow> u8 list" where
  "uuid_input val now = map (\<lambda>i. ucast (drop_bit (8 * i) val)) [0..<4] @
     map (\<lambda>i. ucast (drop_bit (8 * i) now)) [0..<8]"

definition jent_uuid_from_counter :: "jent_env \<Rightarrow> u8 list \<times> jent_env" where
  "jent_uuid_from_counter env =
     (let (val, env) = jent_atomic_inc_u32 env;
          (now, env) = jent_get_nstime env;
          ctx = jent_sha3_256_init (env_stk env);
          ctx = jent_sha3_update ctx (uuid_input val now);
          (ctx, digest) = jent_sha3_final ctx;
          b = take 16 digest
      in (b[6 := (b ! 6 AND 0x0f) OR 0x80], env))"

definition jent_os_random_bytes :: "jent_env \<Rightarrow> u8 list option \<times> jent_env" where
  "jent_os_random_bytes env =
     (env_random env (env_random_pos env), env\<lparr>env_random_pos := Suc (env_random_pos env)\<rparr>)"

definition jent_uuid_generate :: "jent_env \<Rightarrow> string \<times> jent_env" where
  "jent_uuid_generate env =
     (let (r, env) = jent_os_random_bytes env;
          (b, env) = (case r of
                        None \<Rightarrow> jent_uuid_from_counter env
                      | Some b \<Rightarrow> (b[6 := (b ! 6 AND 0x0f) OR 0x40], env));
          b = b[8 := (b ! 8 AND 0x3f) OR 0x80]
      in (jent_uuid_format b, env))"

subsection \<open>The text form\<close>

lemma nibbles:
  "unat (drop_bit 4 (x :: u8)) = unat x div 16"
  "unat (x AND 0x0f) = unat x mod 16"
proof -
  show "unat (drop_bit 4 x) = unat x div 16"
    by (simp add: drop_bit_eq_div unat_div)
  have "x AND 0x0f = take_bit 4 x"
    by (simp add: take_bit_eq_mask mask_numeral)
  then show "unat (x AND 0x0f) = unat x mod 16"
    by (simp add: take_bit_eq_mod unat_mod)
qed

lemma hex_index: "unat (drop_bit 4 (x :: u8)) < 16" "unat (x AND 0x0f) < 16"
proof -
  have "unat x < 2 ^ LENGTH(8)"
    by (rule unsigned_less)
  then show "unat (drop_bit 4 (x :: u8)) < 16" "unat (x AND 0x0f) < 16"
    by (simp_all add: nibbles)
qed

lemma hex_length: "length uuid_hex = 16"
  by (simp add: uuid_hex_def)

text \<open>The position of the two digits of a byte in the text.\<close>

definition uuid_pos :: "nat \<Rightarrow> nat" where
  "uuid_pos i = 2 * i + (if 4 \<le> i then 1 else 0) + (if 6 \<le> i then 1 else 0) +
     (if 8 \<le> i then 1 else 0) + (if 10 \<le> i then 1 else 0)"

definition uuid_digits :: "u8 \<Rightarrow> string" where
  "uuid_digits x = [uuid_hex ! unat (drop_bit 4 x), uuid_hex ! unat (x AND 0x0f)]"

lemma uuid_format_unfold:
  "jent_uuid_format b =
     uuid_digits (b ! 0) @ uuid_digits (b ! 1) @ uuid_digits (b ! 2) @ uuid_digits (b ! 3) @ ''-'' @
     uuid_digits (b ! 4) @ uuid_digits (b ! 5) @ ''-'' @ uuid_digits (b ! 6) @ uuid_digits (b ! 7) @ ''-'' @
     uuid_digits (b ! 8) @ uuid_digits (b ! 9) @ ''-'' @ uuid_digits (b ! 10) @ uuid_digits (b ! 11) @
     uuid_digits (b ! 12) @ uuid_digits (b ! 13) @ uuid_digits (b ! 14) @ uuid_digits (b ! 15) @ [CHR 0x00]"
proof -
  have "[0..<16] = [0, 1, 2, 3, 4, 5, 6, 7, 8, 9, 10, 11, 12, 13, 14, 15 :: nat]"
    by (simp add: upt_rec)
  then show ?thesis
    by (simp add: jent_uuid_format_def uuid_put_def Let_def uuid_digits_def)
qed

text \<open>Reading the text back.\<close>

definition hex_value :: "char \<Rightarrow> nat" where
  "hex_value c = length (takeWhile (\<lambda>d. d \<noteq> c) uuid_hex)"

definition uuid_parse :: "string \<Rightarrow> u8 list" where
  "uuid_parse s = map (\<lambda>i. of_nat (16 * hex_value (s ! uuid_pos i) + hex_value (s ! Suc (uuid_pos i)))) [0..<16]"

lemma hex_value_nth: "i < 16 \<Longrightarrow> hex_value (uuid_hex ! i) = i"
proof -
  assume "i < 16"
  moreover have "distinct uuid_hex"
    by (simp add: uuid_hex_def)
  ultimately have "takeWhile (\<lambda>d. d \<noteq> uuid_hex ! i) uuid_hex = take i uuid_hex"
    by (intro takeWhile_eq_take_P_nth) (auto simp: hex_length nth_eq_iff_index_eq)
  then show ?thesis
    using \<open>i < 16\<close> by (simp add: hex_value_def hex_length)
qed

lemma digits_value:
  "of_nat (16 * hex_value (uuid_hex ! unat (drop_bit 4 x)) + hex_value (uuid_hex ! unat (x AND 0x0f))) = (x :: u8)"
  using hex_index [of x] by (simp only: hex_value_nth nibbles mult_div_mod_eq word_of_nat_eq_iff) simp

lemma list16: "length b = 16 \<Longrightarrow> map (\<lambda>i. b ! i) [0..<16] = b"
  using map_nth [of b] by simp

lemma nth_uuid_format:
  assumes "i < 16"
  shows "jent_uuid_format b ! uuid_pos i = uuid_hex ! unat (drop_bit 4 (b ! i))"
    and "jent_uuid_format b ! Suc (uuid_pos i) = uuid_hex ! unat (b ! i AND 0x0f)"
proof -
  have "i \<in> {0, 1, 2, 3, 4, 5, 6, 7, 8, 9, 10, 11, 12, 13, 14, 15}"
    using assms by (simp only: insert_iff empty_iff) presburger
  then show "jent_uuid_format b ! uuid_pos i = uuid_hex ! unat (drop_bit 4 (b ! i))"
    and "jent_uuid_format b ! Suc (uuid_pos i) = uuid_hex ! unat (b ! i AND 0x0f)"
    unfolding uuid_format_unfold uuid_digits_def
    by (elim insertE; simp add: uuid_pos_def)+
qed

text \<open>A pattern of a text: \<open>x\<close> stands for a hexadecimal digit, \<open>y\<close> for one with the variant bits.\<close>

definition uuid_fits :: "char \<Rightarrow> char \<Rightarrow> bool" where
  "uuid_fits p c = (if p = CHR ''x'' then c \<in> set uuid_hex
     else if p = CHR ''y'' then c \<in> set ''89ab'' else c = p)"

lemma hex_digit [simp]:
  "uuid_hex ! unat (drop_bit 4 (x :: u8)) \<in> set uuid_hex"
  "uuid_hex ! unat (x AND 0x0f) \<in> set uuid_hex"
  using hex_index [of x] by (simp_all add: hex_length)

lemma uuid_format_fits:
  assumes "uuid_fits v (uuid_hex ! unat (drop_bit 4 (b ! 6)))" "uuid_fits w (uuid_hex ! unat (drop_bit 4 (b ! 8)))"
  shows "list_all2 uuid_fits (''xxxxxxxx-xxxx-'' @ [v] @ ''xxx-'' @ [w] @ ''xxx-xxxxxxxxxxxx'' @ [CHR 0x00])
    (jent_uuid_format b)"
  unfolding uuid_format_unfold uuid_digits_def using assms by (simp add: uuid_fits_def [of "CHR ''x''"] uuid_fits_def [of "CHR ''-''"] uuid_fits_def [of "CHR 0x00"])

lemma byte_eqI:
  fixes x y :: u8
  assumes "\<And>n. n \<in> {0, 1, 2, 3, 4, 5, 6, 7} \<Longrightarrow> bit x n = bit y n"
  shows "x = y"
proof (rule bit_word_eqI)
  fix n
  assume "n < LENGTH(8)"
  then have "n \<in> {0, 1, 2, 3, 4, 5, 6, 7}"
    by (simp only: insert_iff empty_iff len_num0 len_bit0 len_num1 len_bit1) presburger
  then show "bit x n = bit y n"
    by (rule assms)
qed

lemma version_digit:
  "drop_bit 4 (((x :: u8) AND 0x0f) OR 0x40) = 4" "drop_bit 4 ((x AND 0x0f) OR 0x80) = 8"
  by (rule byte_eqI; elim insertE emptyE; simp add: bit_simps bit_numeral_rec)+

lemma variant_digit: "uuid_fits CHR ''y'' (uuid_hex ! unat (drop_bit 4 (((x :: u8) AND 0x3f) OR 0x80)))"
proof -
  define w where "w = take_bit 2 (drop_bit 4 x)"
  have "drop_bit 4 ((x AND 0x3f) OR 0x80) = 8 OR w"
    unfolding w_def
    by (rule byte_eqI; elim insertE emptyE; simp add: bit_simps bit_numeral_rec)
  moreover have "unat w < 4"
    by (simp add: w_def take_bit_eq_mod unat_mod)
  then have "w = 0 \<or> w = 1 \<or> w = 2 \<or> w = 3"
    by (auto simp: word_eq_unat)
  ultimately show ?thesis
    by (auto simp: uuid_fits_def uuid_hex_def)
qed

lemma uuid_parse_format:
  assumes "length b = 16"
  shows "uuid_parse (jent_uuid_format b) = b"
proof -
  have "uuid_parse (jent_uuid_format b) = map (\<lambda>i. b ! i) [0..<16]"
    unfolding uuid_parse_def by (rule map_cong) (simp_all add: nth_uuid_format digits_value del: of_nat_add of_nat_mult)
  with assms show ?thesis
    by (simp add: list16)
qed

text \<open>The bytes with version and variant stamped in.\<close>

lemma uuid_stamped:
  assumes "length b = 16" and c: "c = (b[6 := (b ! 6 AND 0x0f) OR v])[8 := (b ! 8 AND 0x3f) OR 0x80]"
    and v: "drop_bit 4 ((b ! 6 AND 0x0f) OR v) = w" "uuid_hex ! unat w = d" "d \<notin> set ''xy''"
  shows "list_all2 uuid_fits (''xxxxxxxx-xxxx-'' @ [d] @ ''xxx-yxxx-xxxxxxxxxxxx'' @ [CHR 0x00]) (jent_uuid_format c)"
    and "take 6 (uuid_parse (jent_uuid_format c)) = take 6 b"
proof -
  have "uuid_fits d (uuid_hex ! unat (drop_bit 4 (c ! 6)))"
    using assms by (simp add: uuid_fits_def)
  moreover have "uuid_fits CHR ''y'' (uuid_hex ! unat (drop_bit 4 (c ! 8)))"
    using assms(1) variant_digit [of "b ! 8"] by (simp add: c)
  ultimately show "list_all2 uuid_fits (''xxxxxxxx-xxxx-'' @ [d] @ ''xxx-yxxx-xxxxxxxxxxxx'' @ [CHR 0x00])
      (jent_uuid_format c)"
    using uuid_format_fits [of d c "CHR ''y''"] by simp
  show "take 6 (uuid_parse (jent_uuid_format c)) = take 6 b"
    using assms(1) by (simp add: c uuid_parse_format)
qed

text \<open>The fallback identifier in terms of the hash specification.\<close>

lemma length_sha3_256 [simp]: "length (sha3_256 m) = 32"
  by (simp add: sha3_256_def)

lemma uuid_from_counter_eq:
  assumes "sha_mem (env_stk env)"
  shows "jent_uuid_from_counter env =
    (let b = take 16 (sha3_256 (uuid_input (g_uuid_counter env + 1) (env_clock env (env_clock_pos env))))
     in (b[6 := (b ! 6 AND 0x0f) OR 0x80],
         env\<lparr>g_uuid_counter := g_uuid_counter env + 1, env_clock_pos := Suc (env_clock_pos env)\<rparr>))"
  using sha3_256_chunks [OF assms, of "[uuid_input (g_uuid_counter env + 1) (env_clock env (env_clock_pos env))]"]
  by (simp add: jent_uuid_from_counter_def jent_atomic_inc_u32_def jent_get_nstime_def Let_def split_beta
      uuid_input_def)

subsection \<open>The properties of the identifier\<close>

text \<open>C29: the text form loses nothing: reading the sixteen pairs of hexadecimal digits back gives the
  bytes that were formatted, so two collectors have the same text only if they have the same bytes.\<close>

theorem uuid_round_trip:
  assumes "length b = 16"
  shows "uuid_parse (jent_uuid_format b) = b"
  using assms by (rule uuid_parse_format)

theorem uuid_round_trip_witness:
  "length (map of_nat [0..<16] :: u8 list) = 16 \<and> uuid_parse (jent_uuid_format (map of_nat [0..<16])) = map of_nat [0..<16]"
  using uuid_round_trip [of "map of_nat [0..<16]"] by simp

text \<open>C28: every identifier is a terminated text of 36 characters in the grouping of RFC 9562 with its
  variant bits set, of version 4 when the operating system delivered random bytes and of version 8
  when it did not. In the second case it is derived from the SHA3-256 of the incremented process-wide
  counter and the time, so the counter has moved on for the next collector.\<close>

theorem uuid_generate_shape:
  assumes "sha_mem (env_stk env)" "\<And>b. env_random env (env_random_pos env) = Some b \<Longrightarrow> length b = 16"
  shows "case env_random env (env_random_pos env) of
    Some b \<Rightarrow> list_all2 uuid_fits (''xxxxxxxx-xxxx-4xxx-yxxx-xxxxxxxxxxxx'' @ [CHR 0x00]) (fst (jent_uuid_generate env)) \<and>
      take 6 (uuid_parse (fst (jent_uuid_generate env))) = take 6 b
  | None \<Rightarrow> list_all2 uuid_fits (''xxxxxxxx-xxxx-8xxx-yxxx-xxxxxxxxxxxx'' @ [CHR 0x00]) (fst (jent_uuid_generate env)) \<and>
      take 6 (uuid_parse (fst (jent_uuid_generate env))) =
        take 6 (sha3_256 (uuid_input (g_uuid_counter env + 1) (env_clock env (env_clock_pos env)))) \<and>
      g_uuid_counter (snd (jent_uuid_generate env)) = g_uuid_counter env + 1"
proof (cases "env_random env (env_random_pos env)")
  case None
  define h where "h = sha3_256 (uuid_input (g_uuid_counter env + 1) (env_clock env (env_clock_pos env)))"
  have "length (take 16 h) = 16"
    by (simp add: h_def)
  note st = uuid_stamped [OF this refl version_digit(2), of "CHR ''8''"]
  show ?thesis
    using None st assms(1)
    by (simp add: jent_uuid_generate_def jent_os_random_bytes_def uuid_from_counter_eq Let_def h_def [symmetric])
      (simp add: uuid_hex_def)
next
  case (Some b)
  note st = uuid_stamped [OF assms(2) [OF Some] refl version_digit(1), of "CHR ''4''"]
  then show ?thesis
    using Some
    by (simp add: jent_uuid_generate_def jent_os_random_bytes_def Let_def) (simp add: uuid_hex_def)
qed

theorem uuid_generate_shape_witness:
  "sha_mem (env_stk start_env) \<and> env_random start_env (env_random_pos start_env) = None \<and>
   list_all2 uuid_fits (''xxxxxxxx-xxxx-8xxx-yxxx-xxxxxxxxxxxx'' @ [CHR 0x00]) (fst (jent_uuid_generate start_env)) \<and>
   g_uuid_counter (snd (jent_uuid_generate start_env)) = 1"
proof -
  have e: "sha_mem (env_stk start_env)" "env_random start_env (env_random_pos start_env) = None"
    "g_uuid_counter start_env = 0"
    by (simp_all add: start_env_def)
  with uuid_generate_shape [of start_env] show ?thesis
    by simp
qed

end
