(* ===== verification/Jent_Base.thy ===== *)
theory Jent_Base
  imports Jent_Noise Jent_Flags Jent_Uuid
begin

text \<open>
  \<^verbatim>\<open>src/jitterentropy-base.c\<close>: the life of a collector. Reading from it, replacing it after a health
  failure, allocating and starting it, the startup measurement of the clock and the initialization of
  the library, in the build with the internal timer.

  The functions call each other in a circle: an allocation initializes the library, which measures the
  clock on a collector of its own; a reset initializes, allocates and starts a collector, and the
  start resets. Each body takes the functions it calls as arguments; the definitions that tie them
  together count down a fuel, with \<open>None\<close> for a computation that does not finish within it.
  A null pointer is \<open>None\<close> of the inner option.
\<close>

type_synonym measure_op = "u32 \<Rightarrow> u32 \<Rightarrow> jent_env \<Rightarrow> (int \<times> jent_env) option"
type_synonym alloc_op = "u32 \<Rightarrow> u32 \<Rightarrow> jent_env \<Rightarrow> (rand_data option \<times> jent_env) option"
type_synonym startup_op = "rand_data \<Rightarrow> jent_env \<Rightarrow> (rand_data option \<times> jent_env) option"
type_synonym reset_op = "rand_data \<Rightarrow> bool \<Rightarrow> jent_env \<Rightarrow> (int \<times> rand_data \<times> jent_env) option"

subsection \<open>Freeing\<close>

definition jent_entropy_collector_free :: "rand_data option \<Rightarrow> jent_env \<Rightarrow> jent_env" where
  "jent_entropy_collector_free entropy_collector env =
     (case entropy_collector of
        None \<Rightarrow> env
      | Some ec \<Rightarrow>
          let ec = jent_notime_unsettick ec;
              (ec, env) = jent_notime_disable ec env;
              env = (case ec_mem ec of
                       None \<Rightarrow> env
                     | Some mem \<Rightarrow> jent_zfree (Bytes (length mem)) (Bytes (unat (ec_memmask ec) + 1)) env)
          in jent_zfree Sizeof_rand_data Sizeof_rand_data env)"

subsection \<open>Allocation\<close>

definition JENT_MEM_ACC_LOOP_DEFAULT :: u32 where "JENT_MEM_ACC_LOOP_DEFAULT = 128"

text \<open>The memory access region; the flag says whether the allocation succeeded.\<close>

definition collector_memory ::
  "u32 \<Rightarrow> rand_data \<Rightarrow> jent_env \<Rightarrow> bool \<times> u32 \<times> rand_data \<times> jent_env" where
  "collector_memory flags ec env =
     (if has flags JENT_DISABLE_MEMORY_ACCESS then (True, flags, ec, env)
      else let flags = jent_update_memsize (env_cache env) flags 0;
               memsize = jent_memsize flags;
               (ok, env) = jent_zalloc_unlocked memsize env
           in if \<not> ok then (False, flags, ec, env)
              else (True, flags,
                    ec\<lparr>ec_mem := Some (replicate (unat memsize) 0), ec_memmask := memsize - 1,
                       ec_memaccessloops := JENT_MEM_ACC_LOOP_DEFAULT\<rparr>, env))"

text \<open>The hash loop count, the conditioner, the compliance modes and the oversampling rate.\<close>

definition collector_configure :: "bool \<Rightarrow> u32 \<Rightarrow> u32 \<Rightarrow> rand_data \<Rightarrow> u32 \<times> rand_data" where
  "collector_configure fips osr flags ec =
     (let flags = jent_update_hashloop flags 0;
          ec = ec\<lparr>ec_hashloopcnt := jent_hashloop_cnt flags\<rparr>;
          ec = ec\<lparr>ec_hash_state := jent_shake256_init (ec_hash_state ec)\<rparr>;
          ec = (if has flags JENT_FORCE_FIPS \<or> fips
                then ec\<lparr>ec_startup_state := jent_startup_memory, ec_is_fips_enabled := True\<rparr> else ec);
          ec = ec\<lparr>ec_osr := osr, ec_flags := flags\<rparr>;
          ec = (if has flags JENT_NTG1
                then ec\<lparr>ec_startup_state := jent_startup_memory, ec_is_fips_enabled := True\<rparr> else ec)
      in (flags, ec))"

text \<open>What follows the allocation of the structure itself.\<close>

definition collector_setup :: "measure_op \<Rightarrow> alloc_op" where
  "collector_setup time_entropy_init osr flags env =
     (let ec = zero_rand_data\<lparr>ec_max_mem_set := (JENT_FLAGS_TO_MAX_MEMSIZE flags \<noteq> 0)\<rparr>;
          (ok, flags, ec, env) = collector_memory flags ec env
      in if \<not> ok then Some (None, jent_entropy_collector_free (Some ec) env)
         else let (flags, ec) = collector_configure (env_fips env) osr flags ec;
                  (ret, ec) = jent_health_init ec
                    (if has flags JENT_NTG1 then jent_health_init_type_ntg1 else jent_health_init_type_common)
              in if ret \<noteq> 0 then Some (None, jent_entropy_collector_free (Some ec) env)
                 else do {
                   (ret, ec, env) \<leftarrow>
                     (if has flags JENT_DISABLE_INTERNAL_TIMER then Some (0, ec, env)
                      else jent_notime_enable time_entropy_init ec flags env);
                   if ret \<noteq> 0 then Some (None, jent_entropy_collector_free (Some ec) env)
                   else case snd (jent_gcd_get (g_timer_gcd env) (ec_enable_notime ec)) of
                          Some g \<Rightarrow> Some (Some (ec\<lparr>ec_common_timer_gcd := g\<rparr>), env)
                        | None \<Rightarrow>
                            if \<not> has flags JENT_INT_MEASURE_CLOCK
                            then Some (None, jent_entropy_collector_free (Some ec) env)
                            else Some (Some (ec\<lparr>ec_common_timer_gcd := 1\<rparr>), env)
                 })"

definition alloc_internal_body :: "measure_op \<Rightarrow> measure_op \<Rightarrow> alloc_op" where
  "alloc_internal_body time_entropy_init init_ex osr flags env =
     (if has flags (JENT_DISABLE_INTERNAL_TIMER OR JENT_NTG1) \<and> has flags JENT_FORCE_INTERNAL_TIMER
      then Some (None, env)
      else let osr = ensure_osr_is_at_least_minimal osr
           in if osr > JENT_MAX_OSR then Some (None, env)
              else do {
                (ret, env) \<leftarrow>
                  (if \<not> has flags JENT_INT_MEASURE_CLOCK \<and> \<not> g_selftest_run env then init_ex osr flags env
                   else Some (0, env));
                if ret \<noteq> 0 then Some (None, env)
                else let flags = (if has flags JENT_NTG1 then flags OR JENT_DISABLE_INTERNAL_TIMER else flags)
                     in if jent_notime_forced env \<and> has flags JENT_DISABLE_INTERNAL_TIMER
                        then Some (None, env)
                        else let (ok, env) = jent_zalloc Sizeof_rand_data flags env
                             in if \<not> ok then Some (None, env)
                                else collector_setup time_entropy_init osr flags env
              })"

subsection \<open>The startup measurement of a clock\<close>

definition JENT_POWERUP_TESTLOOPCOUNT :: nat where "JENT_POWERUP_TESTLOOPCOUNT = 1024"
definition CLEARCACHE :: nat where "CLEARCACHE = 100"

definition JENT_STUCK_INIT_THRES :: "nat \<Rightarrow> nat" where
  "JENT_STUCK_INIT_THRES x = x * 9 div 10"

text \<open>The measuring loop over the remaining iteration numbers. Its state is the collector, the world, the
  delta history with the number of its entries, and the two counters; the left case is an exit with
  an error code.\<close>

type_synonym tei_state = "rand_data \<times> jent_env \<times> u64 list \<times> nat \<times> nat \<times> nat"

fun tei_loop :: "measurement \<Rightarrow> int list \<Rightarrow> tei_state \<Rightarrow> ((int \<times> rand_data \<times> jent_env) + tei_state) option" where
  "tei_loop measure_jitter [] st = Some (Inr st)"
| "tei_loop measure_jitter (i # is) (ec, env, delta_history, nelem, time_backwards, count_stuck) = do {
     let start_time = ec_prev_time ec;
     (stuck, delta, ec, env) \<leftarrow> measure_jitter ec env;
     let end_time = ec_prev_time ec;
     if start_time = 0 \<or> end_time = 0 then Some (Inl (ENOTIME, ec, env))
     else if delta = 0 then Some (Inl (ECOARSETIME, ec, env))
     else if i < 0
     then tei_loop measure_jitter is (ec, env, delta_history, nelem, time_backwards, count_stuck)
     else let count_stuck = (if stuck then Suc count_stuck else count_stuck)
          in if \<not> end_time > start_time
             then tei_loop measure_jitter is (ec, env, delta_history, nelem, Suc time_backwards, count_stuck)
             else tei_loop measure_jitter is
                    (ec, env, jent_gcd_add_value delta_history delta nelem, Suc nelem, time_backwards, count_stuck)
   }"

text \<open>The checks after the loop.\<close>

definition tei_verdict :: "tei_state \<Rightarrow> int \<times> rand_data \<times> jent_env" where
  "tei_verdict st =
     (let (ec, env, delta_history, nelem, time_backwards, count_stuck) = st
      in if time_backwards > 3 then (ENOMONOTONIC, ec, env)
         else let (health_test_result, env) = jent_health_failure ec env
              in if health_test_result \<noteq> 0
                 then (if has health_test_result (JENT_RCT_FAILURE OR JENT_RCT_FAILURE_PERMANENT)
                       then ERCT else EHEALTH, ec, env)
                 else case jent_gcd_verdict (Some delta_history) nelem (ucast (ec_osr ec)) of
                        Inl ret \<Rightarrow> (ret, ec, env)
                      | Inr g \<Rightarrow>
                          if JENT_STUCK_INIT_THRES JENT_POWERUP_TESTLOOPCOUNT < count_stuck
                          then (ESTUCK, ec, env)
                          else (0, ec, env\<lparr>g_timer_gcd := jent_gcd_store (g_timer_gcd env) g (ec_enable_notime ec)\<rparr>))"

text \<open>The common exit.\<close>

definition tei_out :: "u64 list \<Rightarrow> rand_data option \<Rightarrow> jent_env \<Rightarrow> jent_env" where
  "tei_out delta_history ec env =
     jent_entropy_collector_free (map_option jent_notime_unsettick ec)
       (jent_gcd_fini (Some delta_history) JENT_POWERUP_TESTLOOPCOUNT env)"

text \<open>The measurement on the collector that was allocated for it.\<close>

definition tei_measure :: "nat \<Rightarrow> u64 list \<Rightarrow> rand_data \<Rightarrow> jent_env \<Rightarrow> (int \<times> jent_env) option" where
  "tei_measure fuel delta_history ec env =
     (let (ret, ec, env) = jent_notime_settick ec env
      in if ret \<noteq> 0 then Some (EMEM, tei_out delta_history (Some ec) env)
         else do {
           (_, _, ec, env) \<leftarrow> jent_measure_jitter (jent_random_data fuel) fuel 0 False ec env;
           r \<leftarrow> tei_loop (jent_measure_jitter (jent_random_data fuel) fuel 0 True)
             [- int CLEARCACHE..int JENT_POWERUP_TESTLOOPCOUNT - 1] (ec, env, delta_history, 0, 0, 0);
           let (ret, ec, env) = (case r of Inl x \<Rightarrow> x | Inr st \<Rightarrow> tei_verdict st);
           Some (ret, tei_out delta_history (Some ec) env)
         })"

definition time_entropy_init_body :: "nat \<Rightarrow> alloc_op \<Rightarrow> measure_op" where
  "time_entropy_init_body fuel alloc_internal osr flags env =
     (let (h, env) = jent_gcd_init JENT_POWERUP_TESTLOOPCOUNT flags env
      in case h of
           None \<Rightarrow> Some (EMEM, env)
         | Some delta_history \<Rightarrow>
             let (flags, env) = (if has flags JENT_FORCE_INTERNAL_TIMER then (flags, jent_notime_force env)
                                 else (flags OR JENT_DISABLE_INTERNAL_TIMER, env))
             in if jent_notime_forced env \<and> has flags JENT_DISABLE_INTERNAL_TIMER
                then Some (ENOTIME, tei_out delta_history None env)
                else do {
                  let flags = flags OR JENT_FORCE_FIPS;
                  (c, env) \<leftarrow> alloc_internal osr (flags OR JENT_INT_MEASURE_CLOCK) env;
                  case c of
                    None \<Rightarrow> Some (EMEM, tei_out delta_history None env)
                  | Some ec \<Rightarrow> tei_measure fuel delta_history ec env
                })"

subsection \<open>Initialization of the library\<close>

definition jent_selftest :: "rand_data option \<Rightarrow> jent_env \<Rightarrow> int \<times> rand_data option" where
  "jent_selftest ec env =
     (let ret = (if jent_sha3_tester (env_stk env) \<noteq> 0 then EHASH else 0)
      in (ret, map_option (\<lambda>c. c\<lparr>ec_selftest_failed := (ret \<noteq> 0)\<rparr>) ec))"

definition jent_entropy_init_common_pre :: "u32 \<Rightarrow> jent_env \<Rightarrow> int \<times> jent_env" where
  "jent_entropy_init_common_pre flags env =
     (let env = jent_notime_block_switch env;
          env = jent_health_cb_block_switch env;
          ret = fst (jent_selftest None env);
          (ret, env) = (if ret = 0 then jent_gcd_selftest flags env else (ret, env))
      in (ret, if ret \<noteq> 0 then env\<lparr>g_selftest_run := False\<rparr> else env))"

definition jent_entropy_init_common_post :: "int \<Rightarrow> jent_env \<Rightarrow> int \<times> jent_env" where
  "jent_entropy_init_common_post ret env = (ret, env\<lparr>g_selftest_run := (ret = 0)\<rparr>)"

definition entropy_init_body :: "measure_op \<Rightarrow> jent_env \<Rightarrow> (int \<times> jent_env) option" where
  "entropy_init_body time_entropy_init env =
     (let flags = jent_update_secure_mem (env_fips env) 0;
          (ret, env) = jent_entropy_init_common_pre flags env
      in if ret \<noteq> 0 then Some (ret, env)
         else do {
           (ret, env) \<leftarrow> time_entropy_init 0 (flags OR JENT_DISABLE_INTERNAL_TIMER) env;
           (ret, env) \<leftarrow>
             (if ret \<noteq> 0 then time_entropy_init 0 (flags OR JENT_FORCE_INTERNAL_TIMER) env
              else Some (ret, env));
           Some (jent_entropy_init_common_post ret env)
         })"

definition init_ex_body :: "measure_op \<Rightarrow> measure_op" where
  "init_ex_body time_entropy_init osr flags env =
     (let flags = jent_update_secure_mem (env_fips env) flags;
          env = jent_notime_block_switch env;
          env = jent_health_cb_block_switch env
      in if osr > JENT_MAX_OSR \<or> jent_memaccess_contradicts (env_fips env) flags \<or>
            has flags JENT_DISABLE_INTERNAL_TIMER \<and> has flags JENT_FORCE_INTERNAL_TIMER
         then Some (EPROGERR, env)
         else if has flags JENT_NTG1 \<and> has flags JENT_FORCE_INTERNAL_TIMER then Some (ENOTIME, env)
         else let (ret, env) = jent_entropy_init_common_pre flags env
              in if ret \<noteq> 0 then Some (ret, env)
                 else do {
                   (ret, env) \<leftarrow>
                     (if \<not> has flags JENT_FORCE_INTERNAL_TIMER
                      then time_entropy_init osr (flags OR JENT_DISABLE_INTERNAL_TIMER) env
                      else Some (ENOTIME, env));
                   (ret, env) \<leftarrow>
                     (if ret \<noteq> 0 \<and> \<not> has flags (JENT_DISABLE_INTERNAL_TIMER OR JENT_NTG1)
                      then time_entropy_init osr (flags OR JENT_FORCE_INTERNAL_TIMER) env
                      else Some (ret, env));
                   Some (jent_entropy_init_common_post ret env)
                 })"

text \<open>The three functions that call each other.\<close>

fun jent_entropy_collector_alloc_internal :: "nat \<Rightarrow> alloc_op"
  and jent_time_entropy_init :: "nat \<Rightarrow> measure_op"
  and jent_entropy_init_ex :: "nat \<Rightarrow> measure_op" where
  "jent_entropy_collector_alloc_internal 0 = (\<lambda>_ _ _. None)"
| "jent_entropy_collector_alloc_internal (Suc fuel) =
     alloc_internal_body (jent_time_entropy_init fuel) (jent_entropy_init_ex fuel)"
| "jent_time_entropy_init 0 = (\<lambda>_ _ _. None)"
| "jent_time_entropy_init (Suc fuel) =
     time_entropy_init_body fuel (jent_entropy_collector_alloc_internal fuel)"
| "jent_entropy_init_ex 0 = (\<lambda>_ _ _. None)"
| "jent_entropy_init_ex (Suc fuel) = init_ex_body (jent_time_entropy_init fuel)"

definition jent_entropy_init :: "nat \<Rightarrow> jent_env \<Rightarrow> (int \<times> jent_env) option" where
  "jent_entropy_init fuel env = entropy_init_body (jent_time_entropy_init fuel) env"

definition jent_entropy_switch_notime_impl :: "notime_offer \<Rightarrow> jent_env \<Rightarrow> int \<times> jent_env" where
  "jent_entropy_switch_notime_impl new_thread env = jent_notime_switch new_thread env"

definition jent_entropy_set_notime_cpu :: "u64 \<Rightarrow> jent_env \<Rightarrow> int \<times> jent_env" where
  "jent_entropy_set_notime_cpu cpu env = jent_notime_set_cpu cpu env"

definition jent_set_fips_failure_callback :: "nat option \<Rightarrow> jent_env \<Rightarrow> int \<times> jent_env" where
  "jent_set_fips_failure_callback cb env = jent_set_fips_failure_callback_internal cb env"

subsection \<open>Startup and replacement of a collector\<close>

text \<open>The loop that runs the startup stages, up to the exit with the collector or the null pointer.\<close>

fun startup_loop :: "nat \<Rightarrow> reset_op \<Rightarrow> rand_op \<Rightarrow> startup_op" where
  "startup_loop 0 failure_reset random_data ec env = None"
| "startup_loop (Suc fuel) failure_reset random_data ec env = do {
     (ec, env) \<leftarrow> random_data ec env;
     let (health_failure, env) = jent_health_failure ec env;
     (ret, ec, env) \<leftarrow>
       (if health_failure \<noteq> 0
        then do {
          (ret, ec, env) \<leftarrow> failure_reset ec False env;
          Some (if ret \<noteq> 0 then (ret, ec, env) else jent_notime_settick ec env)
        }
        else Some (0, ec, env));
     if ret \<noteq> 0 then Some (None, jent_entropy_collector_free (Some ec) env)
     else if ec_startup_state ec \<noteq> jent_startup_completed
     then startup_loop fuel failure_reset random_data ec env
     else Some (Some (jent_notime_unsettick ec), env)
   }"

definition startup_body :: "nat \<Rightarrow> reset_op \<Rightarrow> startup_op" where
  "startup_body fuel failure_reset ec env =
     (let (ret, ec, env) = jent_notime_settick ec env
      in if ret \<noteq> 0 then Some (None, jent_entropy_collector_free (Some ec) env)
         else startup_loop fuel failure_reset (jent_random_data fuel) ec env)"

text \<open>Raising the oversampling rate until the initialization passes; \<open>None\<close> when the limit is reached.\<close>

function reset_init_loop ::
  "measure_op \<Rightarrow> u32 \<Rightarrow> u32 \<Rightarrow> jent_env \<Rightarrow> (u32 option \<times> jent_env) option" where
  "reset_init_loop init_ex osr flags env = do {
     (ret, env) \<leftarrow> init_ex osr flags env;
     if ret = 0 then Some (Some osr, env)
     else if osr + 1 > JENT_MAX_OSR then Some (None, env)
     else reset_init_loop init_ex (osr + 1) flags env
   }"
  by auto
termination
proof (relation "measure (\<lambda>(_, osr, _). if osr = - 1 then 22 else 21 - unat osr)")
  fix init_ex flags env env' and osr :: u32
  assume "\<not> osr + 1 > JENT_MAX_OSR"
  then have le: "unat (osr + 1) \<le> 20"
    by (simp add: JENT_MAX_OSR_def word_le_nat_alt not_less)
  have m1: "unat (- 1 :: u32) = 2 ^ 32 - 1"
    by (simp add: unsigned_minus_1_eq_mask mask_eq_exp_minus_1)
  have "osr + 1 \<noteq> - 1"
  proof
    assume "osr + 1 = - 1"
    with le m1 have "(2 :: nat) ^ 32 - 1 \<le> 20"
      by (simp only:)
    then show False
      by simp
  qed
  moreover have "unat (osr + 1) = Suc (unat osr)" if "osr \<noteq> - 1"
  proof (rule unat_inc)
    have "unat osr < 2 ^ LENGTH(32)" "unat osr \<noteq> unat (- 1 :: u32)"
      using that by (simp_all only: unsigned_less word_eq_unat not_False_eq_True)
    with m1 show "Suc (unat osr) < 2 ^ LENGTH(32)"
      by simp
  qed
  ultimately show "((init_ex, osr + 1, flags, env'), (init_ex, osr, flags, env)) \<in>
      measure (\<lambda>(_, osr, _). if osr = - 1 then 22 else 21 - unat osr)"
    using le by (cases "osr = - 1") simp_all
qed simp

declare reset_init_loop.simps [simp del]

text \<open>The flags of the replacement before the growth of the noise sources.\<close>

definition reset_flags :: "rand_data \<Rightarrow> u32" where
  "reset_flags ec =
     (if ec_is_fips_enabled ec
      then if ec_enable_notime ec then ec_flags ec OR JENT_FORCE_INTERNAL_TIMER
           else ec_flags ec OR JENT_DISABLE_INTERNAL_TIMER
      else ec_flags ec)"

text \<open>What a replacement inherits before its startup.\<close>

definition reset_inherit :: "rand_data \<Rightarrow> rand_data \<Rightarrow> rand_data" where
  "reset_inherit new_ec ec = new_ec\<lparr>ec_max_mem_set := ec_max_mem_set ec, ec_uuid := ec_uuid ec,
     ec_reinit_count := ec_reinit_count ec + 1, ec_read_invocations := ec_read_invocations ec,
     ec_bytes_output := ec_bytes_output ec\<rparr>"

definition failure_reset_body :: "measure_op \<Rightarrow> alloc_op \<Rightarrow> startup_op \<Rightarrow> reset_op" where
  "failure_reset_body init_ex alloc_internal collector_startup ec startup env =
     (let osr = ec_osr ec + 1;
          flags = reset_flags ec
      in if osr > JENT_MAX_OSR then Some (- 1, ec, env)
         else let flags = (if \<not> ec_max_mem_set ec then jent_update_memsize (env_cache env) flags 1 else flags);
                  flags = jent_update_hashloop flags 1
              in do {
                (r, env) \<leftarrow> reset_init_loop init_ex osr flags env;
                case r of
                  None \<Rightarrow> Some (- 1, ec, env)
                | Some osr \<Rightarrow> do {
                    (c, env) \<leftarrow> alloc_internal osr flags env;
                    case c of
                      None \<Rightarrow> Some (- 1, ec, env)
                    | Some new_ec \<Rightarrow> do {
                        let new_ec = reset_inherit new_ec ec;
                        (c, env) \<leftarrow> (if startup then collector_startup new_ec env else Some (Some new_ec, env));
                        case c of
                          None \<Rightarrow> Some (- 1, ec, env)
                        | Some new_ec \<Rightarrow>
                            Some (0, jent_health_duplicate new_ec ec, jent_entropy_collector_free (Some ec) env)
                      }
                  }
              })"

fun jent_health_failure_reset :: "nat \<Rightarrow> reset_op"
  and jent_entropy_collector_startup :: "nat \<Rightarrow> startup_op" where
  "jent_health_failure_reset 0 = (\<lambda>_ _ _. None)"
| "jent_health_failure_reset (Suc fuel) =
     failure_reset_body (jent_entropy_init_ex fuel) (jent_entropy_collector_alloc_internal fuel)
       (jent_entropy_collector_startup fuel)"
| "jent_entropy_collector_startup 0 = (\<lambda>_ _. None)"
| "jent_entropy_collector_startup (Suc fuel) = startup_body fuel (jent_health_failure_reset fuel)"

definition alloc_started :: "nat \<Rightarrow> alloc_op" where
  "alloc_started fuel osr flags env =
     (if jent_memaccess_contradicts (env_fips env) flags then Some (None, env)
      else do {
        let flags = jent_update_secure_mem (env_fips env) flags;
        (c, env) \<leftarrow> jent_entropy_collector_alloc_internal fuel osr flags env;
        case c of
          None \<Rightarrow> Some (None, env)
        | Some ec \<Rightarrow> do {
            (c, env) \<leftarrow> jent_entropy_collector_startup fuel ec env;
            case c of
              None \<Rightarrow> Some (None, env)
            | Some ec \<Rightarrow> let (uuid, env) = jent_uuid_generate env
                         in Some (Some (ec\<lparr>ec_uuid := uuid\<rparr>), env)
          }
      })"

definition jent_entropy_collector_alloc :: "nat \<Rightarrow> alloc_op" where
  "jent_entropy_collector_alloc fuel osr flags env =
     alloc_started fuel osr (flags AND NOT JENT_INT_MEASURE_CLOCK) env"

definition jent_raw_selftest :: "u32 \<Rightarrow> jent_env \<Rightarrow> int \<times> jent_env" where
  "jent_raw_selftest flags env = jent_entropy_init_common_pre flags env"

definition jent_entropy_collector_alloc_raw :: "nat \<Rightarrow> alloc_op" where
  "jent_entropy_collector_alloc_raw fuel osr flags env =
     (if jent_memaccess_contradicts (env_fips env) flags then Some (None, env)
      else let (ret, env) = jent_raw_selftest flags env
           in if ret \<noteq> 0 then Some (None, env)
              else jent_entropy_collector_alloc_internal fuel osr
                     (jent_update_secure_mem (env_fips env) flags OR JENT_INT_MEASURE_CLOCK) env)"

subsection \<open>Reading\<close>

definition ssize_max :: u64 where "ssize_max = drop_bit 1 (- 1)"

text \<open>The loop over the blocks; the result has the error code and how much has been written.\<close>

function read_loop ::
  "rand_op \<Rightarrow> nat \<Rightarrow> nat \<Rightarrow> u8 list \<Rightarrow> rand_data \<Rightarrow> jent_env \<Rightarrow>
   (int \<times> nat \<times> u8 list \<times> rand_data \<times> jent_env) option" where
  "read_loop random_data len p buf ec env =
     (if len = 0 then Some (0, p, buf, ec, env)
      else if ec_selftest_failed ec then Some (JENT_ERR_SELFTEST, p, buf, ec, env)
      else do {
        (ec, env) \<leftarrow> random_data ec env;
        let (health_test_result, env) = jent_health_failure ec env;
        if health_test_result \<noteq> 0 then Some (jent_health_err health_test_result, p, buf, ec, env)
        else let tocopy = (if DATA_SIZE_BITS div 8 < len then DATA_SIZE_BITS div 8 else len);
                 (ec, blk) = jent_read_random_block ec tocopy
             in read_loop random_data (len - tocopy) (p + tocopy) (memcpy_at buf p blk) ec env
      })"
  by auto
termination
  by (relation "measure (\<lambda>(_, len, _). len)")
    (auto simp: DATA_SIZE_BITS_def JENT_SHA3_256_SIZE_DIGEST_BITS_def)

declare read_loop.simps [simp del]

text \<open>A read from an existing collector into an existing buffer.\<close>

definition read_entropy_from ::
  "nat \<Rightarrow> rand_data \<Rightarrow> u8 list \<Rightarrow> u64 \<Rightarrow> jent_env \<Rightarrow> (int \<times> rand_data \<times> u8 list \<times> jent_env) option" where
  "read_entropy_from fuel ec data len env =
     (if len = 0
      then if ec_selftest_failed ec then Some (JENT_ERR_SELFTEST, ec, data, env)
           else let (health_test_result, env) = jent_health_failure ec env
                in Some (if health_test_result \<noteq> 0 then jent_health_err health_test_result else 0, ec, data, env)
      else let len = (if len > ssize_max then ssize_max else len);
               orig_len = len;
               (ret, ec, env) = jent_notime_settick ec env
           in if ret \<noteq> 0 then Some (JENT_ERR_NOTIME, ec, data, env)
              else do {
                (ret, p, data, ec, env) \<leftarrow> read_loop (jent_random_data fuel) (unat len) 0 data ec env;
                let ec = jent_notime_unsettick ec;
                let data = (if ret \<noteq> 0 \<and> p \<noteq> 0 then memset_at data 0 0 p else data);
                let ec = (if ret = 0
                          then ec\<lparr>ec_read_invocations := ec_read_invocations ec + 1,
                                  ec_bytes_output := ec_bytes_output ec + orig_len\<rparr>
                          else ec);
                Some (if ret \<noteq> 0 then ret else int (unat orig_len), ec, data, env)
              })"

definition jent_read_entropy ::
  "nat \<Rightarrow> rand_data option \<Rightarrow> u8 list option \<Rightarrow> u64 \<Rightarrow> jent_env \<Rightarrow>
   (int \<times> rand_data option \<times> u8 list option \<times> jent_env) option" where
  "jent_read_entropy fuel ec data len env =
     (case ec of
        None \<Rightarrow> Some (JENT_ERR_EINVAL, ec, data, env)
      | Some c \<Rightarrow>
          if data = None \<and> len > 0 then Some (JENT_ERR_EINVAL, ec, data, env)
          else do {
            (ret, c, buf, env) \<leftarrow> read_entropy_from fuel c (case data of Some b \<Rightarrow> b | None \<Rightarrow> []) len env;
            Some (ret, Some c, map_option (\<lambda>_. buf) data, env)
          })"

text \<open>The loop of the safe read; \<open>rounds\<close> bounds the number of reads.\<close>

fun safe_loop ::
  "nat \<Rightarrow> nat \<Rightarrow> rand_data \<Rightarrow> u8 list \<Rightarrow> nat \<Rightarrow> u64 \<Rightarrow> int \<Rightarrow> jent_env \<Rightarrow>
   (int \<times> rand_data \<times> u8 list \<times> jent_env) option" where
  "safe_loop 0 fuel ec data p len orig_len env = None"
| "safe_loop (Suc rounds) fuel ec data p len orig_len env =
     (if len = 0 then Some (orig_len, ec, data, env)
      else do {
        (ret, ec, rest, env) \<leftarrow> read_entropy_from fuel ec (drop p data) len env;
        let data = take p data @ rest;
        if ret \<in> {JENT_ERR_EINVAL, JENT_ERR_NOTIME, JENT_ERR_RCT_PERMANENT, JENT_ERR_APT_PERMANENT,
                   JENT_ERR_LAG_PERMANENT, JENT_ERR_RCT_MEM_PERMANENT, JENT_ERR_SELFTEST}
        then Some (ret, ec, data, env)
        else if ret \<in> {JENT_ERR_RCT, JENT_ERR_APT, JENT_ERR_LAG, JENT_ERR_RCT_MEM}
        then do {
          (r, ec, env) \<leftarrow> jent_health_failure_reset fuel ec True env;
          if r \<noteq> 0 then Some (ret, ec, data, env)
          else safe_loop rounds fuel ec data p len orig_len env
        }
        else if ret \<ge> 0
        then safe_loop rounds fuel ec data (p + nat ret) (len - of_int ret) orig_len env
        else Some (JENT_ERR_EINVAL, ec, data, env)
      })"

text \<open>The double pointer: the outer option is the pointer to the collector pointer.\<close>

definition jent_read_entropy_safe ::
  "nat \<Rightarrow> nat \<Rightarrow> rand_data option option \<Rightarrow> u8 list option \<Rightarrow> u64 \<Rightarrow> jent_env \<Rightarrow>
   (int \<times> rand_data option option \<times> u8 list option \<times> jent_env) option" where
  "jent_read_entropy_safe rounds fuel ec data len env =
     (case ec of
        None \<Rightarrow> Some (JENT_ERR_EINVAL, ec, data, env)
      | Some cp \<Rightarrow>
          if data = None \<and> len > 0 then Some (JENT_ERR_EINVAL, ec, data, env)
          else case cp of
                 None \<Rightarrow> Some (JENT_ERR_EINVAL, ec, data, env)
               | Some c \<Rightarrow>
                   if len = 0
                   then do {
                     (ret, cp, data, env) \<leftarrow> jent_read_entropy fuel (Some c) data 0 env;
                     Some (ret, Some cp, data, env)
                   }
                   else do {
                     let len = (if len > ssize_max then ssize_max else len);
                     (ret, c, buf, env) \<leftarrow> safe_loop rounds fuel c (case data of Some b \<Rightarrow> b | None \<Rightarrow> []) 0 len
                       (int (unat len)) env;
                     Some (ret, Some (Some c), map_option (\<lambda>_. buf) data, env)
                   })"

end
