(* ===== verification/Jent_Progress.thy ===== *)
theory Jent_Progress
  imports Jent_Noise_Laws
begin

text \<open>
  The collection of one block makes progress: in FIPS mode the generator returns, with the block
  collected or a health failure set, for every behaviour of the platform clock. Each measurement
  lowers a bound made of the measurements still to collect, the distance of the repetition count test
  to its permanent cutoff, the measurements that prime the stuck test, and whether the recovery loop
  is still available.
\<close>

subsection \<open>One measurement\<close>

lemma rct_mem_insert_recover:
  assumes ok: "run_ok ec" "window_ok ec" "\<not> ec_in_recovery ec" "recovers rd"
    and t: "rct_mem_tally ec stuck = ec\<lparr>ec_rct_mem_count := c\<rparr>" "c < ec_rct_mem_cutoff_permanent ec"
    and c: "c = ec_rct_mem_cutoff ec" "ec_health_failure ec = 0 \<longrightarrow> JENT_RCT_MEM_IN_WINDOW ec"
  shows "\<exists>ec' env'. jent_rct_mem_insert rd ec env stuck = Some (ec', env') \<and> mem_step ec ec'"
proof -
  let ?s = "ec\<lparr>ec_rct_mem_count := 0, ec_in_recovery := True, ec_startup_state := jent_startup_completed\<rparr>"
  have "run_ok ?s"
    using ok(1) by (simp add: run_ok_def source_ok_def mem_ok_def split: option.splits)
  then obtain ec1 env1 where r: "random_data_times rd JENT_RCT_MEM_RECOVERY_LOOP_CNT ?s env = Some (ec1, env1)"
    "run_ok ec1" "statics ec1 = statics ?s" "window_ok ec1" "window_done ec1"
    "ec_stuck_prime ec1 \<le> ec_stuck_prime ec" "ec_health_failure ec1 = 0 \<longrightarrow> ec_health_failure ec = 0"
    using recovers_times [OF ok(4), of ?s 9 env] by (auto simp: JENT_RCT_MEM_RECOVERY_LOOP_CNT_def)
  define ec2 where "ec2 = ec1\<lparr>ec_startup_state := ec_startup_state ec, ec_in_recovery := False\<rparr>"
  define ec3 where "ec3 = (if JENT_RCT_MEM_IN_WINDOW ec2 then ec2\<lparr>ec_rct_mem_ctr := ec_rct_mem_ctr ec2 + 1\<rparr> else ec2)"
  have "jent_rct_mem_insert rd ec env stuck = Some (ec3, env1)"
    using ok(3) t c(1) r(1)
    by (simp add: jent_rct_mem_insert_def rct_mem_recover_def Let_def ec3_def ec2_def)
  moreover have "mem_step ec ec3"
  proof (cases "ec_health_failure ec1 = 0")
    case True
    have w: "ec_rct_mem_ctr ec1 = ec_rct_mem_nosr ec1" "ec_rct_mem_count ec1 < ec_rct_mem_cutoff ec1"
      using r(5) True by (simp_all add: window_done_def)
    then have e3: "ec3 = ec2"
      by (simp add: ec3_def ec2_def JENT_RCT_MEM_IN_WINDOW_def)
    have "ec_rct_mem_nosr ec1 = ec_rct_mem_nosr ec"
      using r(3,4) ok(2) by (simp add: window_ok_def statics_def)
    moreover have "may_recover ec"
      using c(2) True r(7) ok(3) by (auto simp: may_recover_def JENT_RCT_MEM_IN_WINDOW_def)
    ultimately show ?thesis
      using r w ok(3) True unfolding mem_step_def e3 ec2_def
      by (simp add: run_ok_def source_ok_def mem_ok_def window_ok_def statics_def may_recover_def split: option.splits)
  next
    case False
    then show ?thesis
      using r ok(3) unfolding mem_step_def ec3_def ec2_def
      by (simp add: run_ok_def source_ok_def mem_ok_def window_ok_def statics_def may_recover_def split: option.splits)
  qed
  ultimately show ?thesis
    by blast
qed

text \<open>The cases that end without the recovery loop.\<close>

lemma mem_step_failed:
  assumes "run_ok ec" "window_ok ec" "ec_health_failure ec' \<noteq> 0"
    and "ec' = ec\<lparr>ec_rct_mem_count := c, ec_health_failure := f, ec_rct_mem_ctr := k\<rparr>"
  shows "mem_step ec ec'"
  using assms
  by (simp add: mem_step_def run_ok_def source_ok_def mem_ok_def window_ok_def statics_def split: option.splits)

lemma mem_step_plain:
  assumes ok: "run_ok ec" "window_ok ec"
    and c: "ec_health_failure ec = 0 \<longrightarrow> c < ec_rct_mem_cutoff ec"
  defines "ec' \<equiv> (if JENT_RCT_MEM_IN_WINDOW ec
      then ec\<lparr>ec_rct_mem_count := c, ec_rct_mem_ctr := ec_rct_mem_ctr ec + 1\<rparr>
      else ec\<lparr>ec_rct_mem_count := c\<rparr>)"
  shows "mem_step ec ec'"
proof (cases "JENT_RCT_MEM_IN_WINDOW ec")
  case True
  then have "unat (ec_rct_mem_ctr ec) < unat (ec_rct_mem_nosr ec)" "unat (ec_rct_mem_nosr ec) < 2 ^ LENGTH(16)"
    by (simp_all add: JENT_RCT_MEM_IN_WINDOW_def word_less_nat_alt unsigned_less del: len_num0 len_bit0)
  then have "unat (ec_rct_mem_ctr ec + 1) = Suc (unat (ec_rct_mem_ctr ec))"
    by (intro unat_inc) simp
  moreover have "ec_rct_mem_ctr ec \<noteq> ec_rct_mem_nosr ec"
    using True by (auto simp: JENT_RCT_MEM_IN_WINDOW_def)
  ultimately show ?thesis
    using True c ok unfolding ec'_def mem_step_def
    by (simp add: run_ok_def source_ok_def mem_ok_def window_ok_def statics_def may_recover_def
        JENT_RCT_MEM_IN_WINDOW_def word_le_nat_alt word_less_nat_alt min_def split: option.splits)
next
  case False
  then show ?thesis
    using c ok unfolding ec'_def mem_step_def
    by (simp add: run_ok_def source_ok_def mem_ok_def window_ok_def statics_def may_recover_def
        JENT_RCT_MEM_IN_WINDOW_def split: option.splits)
qed

lemma rct_mem_insert_step:
  assumes ok: "run_ok ec" "window_ok ec" and rd: "ec_in_recovery ec \<or> recovers rd"
  shows "\<exists>ec' env'. jent_rct_mem_insert rd ec env stuck = Some (ec', env') \<and> mem_step ec ec'"
proof -
  obtain c where t: "rct_mem_tally ec stuck = ec\<lparr>ec_rct_mem_count := c\<rparr>"
    and c: "ec_health_failure ec = 0 \<longrightarrow> c \<le> ec_rct_mem_cutoff ec \<and>
      (c = ec_rct_mem_cutoff ec \<longrightarrow> JENT_RCT_MEM_IN_WINDOW ec)"
    using tally_upd [OF ok] by blast
  have perm: "ec_rct_mem_cutoff ec < ec_rct_mem_cutoff_permanent ec"
    using ok(1) by (simp add: run_ok_def)
  let ?w = "JENT_RCT_MEM_IN_WINDOW ec"
  have failed: "\<exists>ec' env'. jent_rct_mem_insert rd ec env stuck = Some (ec', env') \<and> mem_step ec ec'"
    if "jent_rct_mem_insert rd ec env stuck = Some (ec\<lparr>ec_rct_mem_count := c, ec_health_failure := f,
        ec_rct_mem_ctr := k\<rparr>, env)" "f \<noteq> 0" for f k
    using that mem_step_failed [OF ok, where c = c and f = f and k = k] by simp
  consider "ec_rct_mem_cutoff_permanent ec \<le> c" | "c < ec_rct_mem_cutoff_permanent ec" "c = ec_rct_mem_cutoff ec"
    | "c < ec_rct_mem_cutoff_permanent ec" "c \<noteq> ec_rct_mem_cutoff ec"
    by (meson not_le)
  then show ?thesis
  proof cases
    case 1
    then have "ec_health_failure ec \<noteq> 0"
      using c perm by (meson not_le order_trans)
    then show ?thesis
      using 1 t by (intro failed [where f = "if ?w then ec_health_failure ec OR JENT_RCT_MEM_FAILURE_PERMANENT
            else ec_health_failure ec" and k = "if ?w then ec_rct_mem_ctr ec + 1 else ec_rct_mem_ctr ec"])
        (simp_all add: jent_rct_mem_insert_def Let_def JENT_RCT_MEM_IN_WINDOW_def)
  next
    case 2
    show ?thesis
    proof (cases "ec_in_recovery ec")
      case True
      with 2 t c show ?thesis
        by (intro failed [where f = "if ?w then ec_health_failure ec OR JENT_RCT_MEM_FAILURE
              else ec_health_failure ec" and k = "if ?w then ec_rct_mem_ctr ec + 1 else ec_rct_mem_ctr ec"])
          (auto simp: jent_rct_mem_insert_def Let_def JENT_RCT_MEM_IN_WINDOW_def)
    next
      case False
      with rd 2 c show ?thesis
        by (intro rct_mem_insert_recover [OF ok False _ t]) auto
    qed
  next
    case 3
    then have "ec_health_failure ec = 0 \<longrightarrow> c < ec_rct_mem_cutoff ec"
      using c by (simp add: order.strict_iff_order)
    from mem_step_plain [OF ok this] 3 t show ?thesis
      by (auto simp: jent_rct_mem_insert_def Let_def JENT_RCT_MEM_IN_WINDOW_def not_le [symmetric])
  qed
qed

text \<open>The bound on the measurements still to come, for the number of unstuck measurements collected so far.\<close>

definition bound :: "nat \<Rightarrow> rand_data \<Rightarrow> nat" where
  "bound ctr ec = (if may_recover ec then 1300 else 0) + (unat (ec_rct_mem_nosr ec) - ctr) * 1300 +
     (unat (ec_rct_cutoff_permanent ec) - unat (ec_rct_count ec)) + unat (ec_stuck_prime ec)"

text \<open>One measurement from a state without failure: it returns, keeps everything in order, and unless it
  sets a failure it lowers the bound, also when the recovery loop runs inside it.\<close>

definition progress :: "nat \<Rightarrow> rand_data \<Rightarrow> bool \<Rightarrow> rand_data \<Rightarrow> bool" where
  "progress ctr ec stuck ec' \<longleftrightarrow> run_ok ec' \<and> statics ec' = statics ec \<and> window_ok ec' \<and>
     ec_stuck_prime ec' \<le> ec_stuck_prime ec \<and>
     (ec_health_failure ec' = 0 \<longrightarrow>
        bound (if stuck then ctr else Suc ctr) ec' < bound ctr ec \<and>
        (if stuck then ctr else Suc ctr) \<le> unat (ec_rct_mem_ctr ec'))"

lemma rct_insert_upd:
  assumes "run_ok ec" "ec_health_failure e = 0 \<longrightarrow> ec_health_failure ec = 0"
    and "ec_rct_count e = ec_rct_count ec" "ec_rct_cutoff_permanent e = ec_rct_cutoff_permanent ec"
  shows "\<exists>n f. jent_rct_insert e stuck = e\<lparr>ec_rct_count := n, ec_health_failure := f\<rparr> \<and>
    (f = 0 \<longrightarrow> ec_health_failure e = 0 \<and> n < ucast (ec_rct_cutoff_permanent ec) \<and>
      unat n = (if stuck then Suc (unat (ec_rct_count ec)) else 0))"
proof (cases stuck)
  case True
  have n: "unat (ec_rct_count ec + 1) = Suc (unat (ec_rct_count ec))" if "ec_health_failure ec = 0"
  proof (rule unat_inc)
    have "unat (ec_rct_count ec) < unat (ec_rct_cutoff_permanent ec)" "unat (ec_rct_cutoff_permanent ec) \<le> 1200"
      using assms(1) that by (simp_all add: run_ok_def word_less_nat_alt)
    then show "Suc (unat (ec_rct_count ec)) < 2 ^ LENGTH(32)"
      by simp
  qed
  define f where "f = ec_health_failure (jent_rct_insert e stuck)"
  have "jent_rct_insert e stuck = e\<lparr>ec_rct_count := ec_rct_count ec + 1, ec_health_failure := f\<rparr>"
    using True assms(3,4) by (simp add: f_def jent_rct_insert_def Let_def)
  moreover have "f = 0 \<longrightarrow> ec_health_failure e = 0 \<and> ec_rct_count ec + 1 < ucast (ec_rct_cutoff_permanent ec)"
    using True assms(3,4) by (auto simp: f_def jent_rct_insert_def Let_def or_eq_0_iff failure_masks split: if_splits)
  ultimately show ?thesis
    using n assms(2) True by (intro exI [of _ "ec_rct_count ec + 1"] exI [of _ f]) simp
next
  case False
  have "(0 :: u32) < ucast (ec_rct_cutoff_permanent ec)"
    using assms(1) by (simp add: run_ok_def word_less_nat_alt)
  with False show ?thesis
    by (intro exI [of _ 0] exI [of _ "ec_health_failure e"]) (simp add: jent_rct_insert_def)
qed

text \<open>The two ways the bound goes down.\<close>

lemma bound_lowered:
  assumes "statics ec' = statics ec" "ec_rct_mem_nosr ec' = ec_rct_mem_nosr ec"
    and "ec_stuck_prime ec' \<le> ec_stuck_prime ec" "ctr < unat (ec_rct_mem_nosr ec)"
    and "unat (ec_rct_cutoff_permanent ec) \<le> 1200" "unat (ec_rct_count ec) < unat (ec_rct_cutoff_permanent ec)"
    and "may_recover ec' \<longrightarrow> may_recover ec"
    and "stuck \<Longrightarrow> \<not> may_recover ec' \<and> may_recover ec \<or> unat (ec_rct_count ec') = Suc (unat (ec_rct_count ec))"
  shows "bound (if stuck then ctr else Suc ctr) ec' < bound ctr ec"
proof -
  define N where "N = unat (ec_rct_mem_nosr ec)"
  have P: "ec_rct_cutoff_permanent ec' = ec_rct_cutoff_permanent ec"
    using assms(1) by (simp add: statics_def)
  have prime: "unat (ec_stuck_prime ec') \<le> unat (ec_stuck_prime ec)"
    using assms(3) by (simp add: word_le_nat_alt)
  have "(N - Suc ctr) * 1300 + 1300 = (N - ctr) * 1300"
    using assms(4) by (simp add: N_def diff_mult_distrib)
  then show ?thesis
    using assms(5-8) prime unfolding bound_def P assms(2) N_def [symmetric]
    by (cases stuck; cases "may_recover ec"; cases "may_recover ec'") simp_all
qed

lemma stuck_progress_prime:
  assumes ok: "run_ok ec" "window_ok ec" "ec_health_failure ec = 0" "ctr \<le> unat (ec_rct_mem_ctr ec)"
    and prime: "ec_stuck_prime ec \<noteq> 0"
  shows "\<exists>ec'. jent_stuck rd ec env d = Some (True, ec', env) \<and> progress ctr ec True ec'"
proof -
  define e where "e = jent_lag_insert (ec\<lparr>ec_stuck_prime := ec_stuck_prime ec - 1\<rparr>) d"
  obtain f where e: "\<exists>x1 x2 x3 x4 x5 x6. e = ec\<lparr>ec_stuck_prime := ec_stuck_prime ec - 1,
      ec_lag_prediction_success_count := x1, ec_lag_prediction_success_run := x2,
      ec_lag_best_predictor := x3, ec_lag_observations := x4, ec_lag_delta_history := x5, ec_lag_scoreboard := x6,
      ec_health_failure := f\<rparr>"
    using lag_insert_upd [of "ec\<lparr>ec_stuck_prime := ec_stuck_prime ec - 1\<rparr>" d] unfolding e_def by blast
  have less: "unat (ec_stuck_prime ec - 1) < unat (ec_stuck_prime ec)"
    using prime by (simp add: unat_minus_one unat_gt_0)
  have "progress ctr ec True e"
    using e ok less unfolding progress_def
    by (auto simp: run_ok_def source_ok_def mem_ok_def window_ok_def statics_def bound_def may_recover_def
        word_le_nat_alt split: option.splits)
  with prime show ?thesis
    by (simp add: jent_stuck_def Let_def e_def)
qed

lemma stuck_tests_upd:
  "\<exists>f y1 y2 y3 y4 x1 x2 x3 x4 x5 x6. jent_lag_insert (jent_apt_insert ec d) d = ec\<lparr>ec_apt_observations := y1,
     ec_apt_count := y2, ec_apt_base := y3, ec_apt_base_set := y4, ec_lag_prediction_success_count := x1,
     ec_lag_prediction_success_run := x2, ec_lag_best_predictor := x3, ec_lag_observations := x4,
     ec_lag_delta_history := x5, ec_lag_scoreboard := x6, ec_health_failure := f\<rparr>"
proof -
  obtain y1 y2 y3 y4 g where a: "jent_apt_insert ec d = ec\<lparr>ec_apt_observations := y1, ec_apt_count := y2,
      ec_apt_base := y3, ec_apt_base_set := y4, ec_health_failure := g\<rparr>"
    using apt_insert_upd by blast
  obtain x1 x2 x3 x4 x5 x6 f where "jent_lag_insert (jent_apt_insert ec d) d = (jent_apt_insert ec d)
      \<lparr>ec_lag_prediction_success_count := x1, ec_lag_prediction_success_run := x2,
       ec_lag_best_predictor := x3, ec_lag_observations := x4, ec_lag_delta_history := x5, ec_lag_scoreboard := x6,
       ec_health_failure := f\<rparr>"
    using lag_insert_upd by blast
  then have "jent_lag_insert (jent_apt_insert ec d) d = ec\<lparr>ec_apt_observations := y1,
     ec_apt_count := y2, ec_apt_base := y3, ec_apt_base_set := y4, ec_lag_prediction_success_count := x1,
     ec_lag_prediction_success_run := x2, ec_lag_best_predictor := x3, ec_lag_observations := x4,
     ec_lag_delta_history := x5, ec_lag_scoreboard := x6, ec_health_failure := f\<rparr>"
    by (simp only: a) simp
  then show ?thesis
    by blast
qed

lemma stuck_progress_test:
  assumes ok: "run_ok ec" "window_ok ec" and rd: "ec_in_recovery ec \<or> recovers rd"
    and ctr: "ec_health_failure ec = 0" "ctr \<le> unat (ec_rct_mem_ctr ec)" "ctr < unat (ec_rct_mem_nosr ec)"
    and prime: "ec_stuck_prime ec = 0"
  shows "\<exists>stuck ec' env'. jent_stuck rd ec env d = Some (stuck, ec', env') \<and> progress ctr ec stuck ec'"
proof -
  define stuck where "stuck \<longleftrightarrow> d = 0 \<or> jent_delta2 ec d = 0 \<or> jent_delta3 ec (jent_delta2 ec d) = 0"
  define e where "e = jent_lag_insert (jent_apt_insert ec d) d"
  obtain f where e: "\<exists>y1 y2 y3 y4 x1 x2 x3 x4 x5 x6. e = ec\<lparr>ec_apt_observations := y1, ec_apt_count := y2,
      ec_apt_base := y3, ec_apt_base_set := y4, ec_lag_prediction_success_count := x1, ec_lag_prediction_success_run := x2,
      ec_lag_best_predictor := x3, ec_lag_observations := x4, ec_lag_delta_history := x5, ec_lag_scoreboard := x6,
      ec_health_failure := f\<rparr>"
    using stuck_tests_upd [of ec d] unfolding e_def [symmetric] by (rule exE) (rule that)
  have e_frame: "ec_rct_count e = ec_rct_count ec" "ec_rct_cutoff_permanent e = ec_rct_cutoff_permanent ec"
    using e by auto
  obtain n g where r: "jent_rct_insert e stuck = e\<lparr>ec_rct_count := n, ec_health_failure := g\<rparr>"
    and n: "g = 0 \<longrightarrow> n < ucast (ec_rct_cutoff_permanent ec) \<and> unat n = (if stuck then Suc (unat (ec_rct_count ec)) else 0)"
    using rct_insert_upd [OF ok(1), of e stuck] ctr(1) e_frame by auto
  define e3 where "e3 = e\<lparr>ec_rct_count := n, ec_health_failure := g\<rparr>"
  have e3: "run_ok e3" "window_ok e3" "statics e3 = statics ec" "ec_stuck_prime e3 = ec_stuck_prime ec"
    "ec_rct_mem_nosr e3 = ec_rct_mem_nosr ec" "ec_rct_mem_ctr e3 = ec_rct_mem_ctr ec"
    "may_recover e3 = may_recover ec" "ec_in_recovery e3 = ec_in_recovery ec"
    using e ok ctr(1) n unfolding e3_def
    by (auto simp: run_ok_def source_ok_def mem_ok_def window_ok_def statics_def may_recover_def split: option.splits)
  obtain ec' env' where m: "jent_rct_mem_insert rd e3 env stuck = Some (ec', env')" "mem_step e3 ec'"
    using rct_mem_insert_step [OF e3(1,2), of rd env stuck] rd e3(8) by auto
  have "jent_stuck rd ec env d = Some (stuck, ec', env')"
    using prime r m(1) by (simp add: jent_stuck_def Let_def stuck_def [symmetric] e_def [symmetric] e3_def)
  moreover have "progress ctr ec stuck ec'"
  proof -
    have st: "statics ec' = statics ec" and nosr: "ec_rct_mem_nosr ec' = ec_rct_mem_nosr ec"
      using m(2) e3(3) ok(2) by (simp_all add: mem_step_def window_ok_def statics_def)
    have "bound (if stuck then ctr else Suc ctr) ec' < bound ctr ec \<and>
        (if stuck then ctr else Suc ctr) \<le> unat (ec_rct_mem_ctr ec')" if "ec_health_failure ec' = 0"
    proof
      have g: "g = 0"
        using m(2) that by (simp add: mem_step_def e3_def)
      have cnt: "unat (ec_rct_count e3) = (if stuck then Suc (unat (ec_rct_count ec)) else 0)"
        using n g by (simp add: e3_def)
      show "bound (if stuck then ctr else Suc ctr) ec' < bound ctr ec"
        using m(2) that e3(4,7) cnt ok(1) ctr(1,3) st nosr
        by (intro bound_lowered) (auto simp: mem_step_def run_ok_def word_less_nat_alt split: if_splits)
      show "(if stuck then ctr else Suc ctr) \<le> unat (ec_rct_mem_ctr ec')"
        using m(2) that e3(5,6) ctr(2,3) by (auto simp: mem_step_def)
    qed
    with m(2) st e3(4) show ?thesis
      by (simp add: progress_def mem_step_def)
  qed
  ultimately show ?thesis
    by blast
qed

lemma stuck_progress:
  assumes "run_ok ec" "window_ok ec" "ec_in_recovery ec \<or> recovers rd"
    and "ec_health_failure ec = 0" "ctr \<le> unat (ec_rct_mem_ctr ec)" "ctr < unat (ec_rct_mem_nosr ec)"
  shows "\<exists>stuck ec' env'. jent_stuck rd ec env d = Some (stuck, ec', env') \<and> progress ctr ec stuck ec'"
  using assms stuck_progress_prime [of ec ctr rd env d] stuck_progress_test [of ec rd ctr env d] by blast

end
