(* ===== verification/Jent_Frame.thy ===== *)
theory Jent_Frame
  imports Jent_Progress Jent_Sponge
begin

text \<open>
  What generating random data leaves alone: the configuration and the accounting of the collector, and
  of the world everything but the clocks. This holds for every execution that returns.
\<close>

text \<open>A computation that has returned came through each of its steps.\<close>

lemma bind_SomeE:
  assumes "Option.bind m f = Some x"
  obtains y where "m = Some y" "f y = Some x"
  using assms by (auto simp: bind_eq_Some_conv)

lemma bind_pairE:
  assumes "Option.bind m (\<lambda>(a, b). f a b) = Some x"
  obtains a b where "m = Some (a, b)" "f a b = Some x"
  using assms by (auto simp: bind_eq_Some_conv)

lemma bind_tripleE:
  assumes "Option.bind m (\<lambda>(a, b, c). f a b c) = Some x"
  obtains a b c where "m = Some (a, b, c)" "f a b c = Some x"
  using assms by (auto simp: bind_eq_Some_conv)

lemma bind_quadE:
  assumes "Option.bind m (\<lambda>(a, b, c, d). f a b c d) = Some x"
  obtains a b c d where "m = Some (a, b, c, d)" "f a b c d = Some x"
  using assms by (auto simp: bind_eq_Some_conv)

subsection \<open>Configuration of a collector, rest of the world\<close>

definition cfg :: "rand_data \<Rightarrow> _" where
  "cfg ec = (ec_osr ec, ec_flags ec, ec_uuid ec, ec_reinit_count ec, ec_read_invocations ec, ec_bytes_output ec,
     map_option length (ec_mem ec), ec_memmask ec, ec_memaccessloops ec, ec_hashloopcnt ec, ec_is_fips_enabled ec,
     ec_enable_notime ec, ec_notime_thread_ctx ec, ec_max_mem_set ec, ec_common_timer_gcd ec, ec_selftest_failed ec,
     length (sha_xdrbg_block (ec_hash_state ec)))"

definition rest :: "jent_env \<Rightarrow> jent_env" where
  "rest env = env\<lparr>env_clock_pos := 0, env_tick_pos := 0\<rparr>"

lemma rest_simps [simp]:
  "rest (env\<lparr>env_clock_pos := n\<rparr>) = rest env" "rest (env\<lparr>env_tick_pos := n\<rparr>) = rest env"
  by (simp_all add: rest_def)

text \<open>An operation keeps the configuration and the rest of the world whenever it returns.\<close>

definition keeps :: "rand_op \<Rightarrow> bool" where
  "keeps rd \<longleftrightarrow> (\<forall>ec env ec' env'. rd ec env = Some (ec', env') \<longrightarrow> cfg ec' = cfg ec \<and> rest env' = rest env)"

definition keeps_measuring :: "measurement \<Rightarrow> bool" where
  "keeps_measuring m \<longleftrightarrow> (\<forall>ec env b d ec' env'. m ec env = Some (b, d, ec', env') \<longrightarrow>
     cfg ec' = cfg ec \<and> rest env' = rest env)"

lemma keepsD: "keeps rd \<Longrightarrow> rd ec env = Some (ec', env') \<Longrightarrow> cfg ec' = cfg ec \<and> rest env' = rest env"
  by (auto simp: keeps_def)

lemma notime_wait_rest: "notime_wait n prev env = Some (now, env') \<Longrightarrow> rest env' = rest env"
  by (induction n prev env rule: notime_wait.induct) (auto simp: jent_notime_read_def Let_def split: if_splits)

lemma nstime_keeps:
  "jent_get_nstime_internal fuel ec env = Some (t, ec', env') \<Longrightarrow> cfg ec' = cfg ec \<and> rest env' = rest env \<and> ec_mem ec' = ec_mem ec"
  by (auto simp: jent_get_nstime_internal_def jent_get_nstime_def cfg_def bind_eq_Some_conv notime_wait_rest
      split: if_splits)

lemma prng_mix_keeps:
  "prng_mix fuel ec env bs = Some (bs', ec', env') \<Longrightarrow> cfg ec' = cfg ec \<and> rest env' = rest env \<and> ec_mem ec' = ec_mem ec"
proof (induction bs arbitrary: bs' ec env)
  case (Cons b bs)
  then show ?case
    by (fastforce simp: bind_eq_Some_conv dest: nstime_keeps)
qed simp

lemma memaccess_delta_keeps:
  "memaccess_delta fuel m t ec env = Some (d, ec', env') \<Longrightarrow> cfg ec' = cfg ec \<and> rest env' = rest env \<and> ec_mem ec' = ec_mem ec"
  by (auto simp: memaccess_delta_def bind_eq_Some_conv dest: nstime_keeps split: if_splits)

lemma random_loop_length: "memaccess_random_loop n m prng mem = Some mem' \<Longrightarrow> length mem' = length mem"
  by (induction n arbitrary: prng mem) (auto simp: mem_touch_def split_beta Let_def bind_eq_Some_conv split: if_splits)

lemma walk_length: "memaccess_walk n w mem loc = Some (mem', loc') \<Longrightarrow> length mem' = length mem"
  by (induction n arbitrary: loc mem) (auto simp: mem_touch_def Let_def bind_eq_Some_conv split: if_splits)

lemma cfg_mem [simp]:
  "map_option length m = map_option length (ec_mem ec) \<Longrightarrow> cfg (ec\<lparr>ec_mem := m\<rparr>) = cfg ec"
  "cfg (ec\<lparr>ec_memlocation := l\<rparr>) = cfg ec" "cfg (ec\<lparr>ec_prev_time := t\<rparr>) = cfg ec"
  "length (sha_xdrbg_block h) = length (sha_xdrbg_block (ec_hash_state ec)) \<Longrightarrow> cfg (ec\<lparr>ec_hash_state := h\<rparr>) = cfg ec"
  "cfg (ec\<lparr>ec_health_failure := f\<rparr>) = cfg ec"
  "cfg (ec\<lparr>ec_rct_mem_ctr := c\<rparr>) = cfg ec" "cfg (ec\<lparr>ec_rct_mem_nosr := c\<rparr>) = cfg ec"
  "cfg (ec\<lparr>ec_rct_mem_count := c\<rparr>) = cfg ec" "cfg (ec\<lparr>ec_rct_count := k\<rparr>) = cfg ec"
  "cfg (ec\<lparr>ec_in_recovery := b\<rparr>) = cfg ec" "cfg (ec\<lparr>ec_startup_state := s\<rparr>) = cfg ec"
  "cfg (ec\<lparr>ec_stuck_prime := p\<rparr>) = cfg ec" "cfg (ec\<lparr>ec_apt_base := d\<rparr>) = cfg ec"
  "cfg (ec\<lparr>ec_apt_base_set := b\<rparr>) = cfg ec" "cfg (ec\<lparr>ec_apt_count := k\<rparr>) = cfg ec"
  "cfg (ec\<lparr>ec_apt_observations := k\<rparr>) = cfg ec"
  by (simp_all add: cfg_def)

lemma start_keeps:
  "(if m then jent_get_nstime_internal fuel ec env else Some (0, ec, env)) = Some (t, ec', env') \<Longrightarrow>
   cfg ec' = cfg ec \<and> rest env' = rest env \<and> ec_mem ec' = ec_mem ec"
  by (auto dest: nstime_keeps split: if_splits)

lemma memaccess_deterministic_keeps:
  assumes "jent_memaccess_deterministic fuel ec env lc m = Some (d, ec', env')"
  shows "cfg ec' = cfg ec \<and> rest env' = rest env"
proof (cases "ec_mem ec")
  case None
  with assms show ?thesis
    by (simp add: jent_memaccess_deterministic_def)
next
  case (Some mem)
  with assms obtain t ec1 env1 n w mem' loc l where
    st: "(if m then jent_get_nstime_internal fuel ec env else Some (0, ec, env)) = Some (t, ec1, env1)" and
    wk: "memaccess_walk n w mem l = Some (mem', loc)" and
    dl: "memaccess_delta fuel m t (ec1\<lparr>ec_mem := Some mem', ec_memlocation := loc\<rparr>) env1 = Some (d, ec', env')"
    by (simp only: jent_memaccess_deterministic_def option.case Let_def bind_eq_Some_conv split_paired_Ex prod.case)
      blast
  have "map_option length (Some mem') = map_option length (ec_mem ec1)"
    using start_keeps [OF st] walk_length [OF wk] Some by simp
  then have "cfg (ec1\<lparr>ec_mem := Some mem', ec_memlocation := loc\<rparr>) = cfg ec1"
    by (simp only: cfg_mem)
  with memaccess_delta_keeps [OF dl] start_keeps [OF st] show ?thesis
    by simp
qed

lemma memaccess_pseudorandom_keeps:
  assumes "jent_memaccess_pseudorandom fuel ec env lc m = Some (d, ec', env')"
  shows "cfg ec' = cfg ec \<and> rest env' = rest env"
proof (cases "ec_mem ec")
  case None
  with assms show ?thesis
    by (simp add: jent_memaccess_pseudorandom_def)
next
  case (Some mem)
  with assms obtain bs b ec0 env0 t ec1 env1 n w prng mem' where
    mx: "prng_mix fuel ec env bs = Some (b, ec0, env0)" and
    st: "(if m then jent_get_nstime_internal fuel ec0 env0 else Some (0, ec0, env0)) = Some (t, ec1, env1)" and
    wk: "memaccess_random_loop n w prng mem = Some mem'" and
    dl: "memaccess_delta fuel m t (ec1\<lparr>ec_mem := Some mem'\<rparr>) env1 = Some (d, ec', env')"
    by (simp only: jent_memaccess_pseudorandom_def option.case Let_def bind_eq_Some_conv split_paired_Ex prod.case)
      blast
  have "map_option length (Some mem') = map_option length (ec_mem ec1)"
    using start_keeps [OF st] prng_mix_keeps [OF mx] random_loop_length [OF wk] Some by simp
  then have "cfg (ec1\<lparr>ec_mem := Some mem'\<rparr>) = cfg ec1"
    by (simp only: cfg_mem)
  with memaccess_delta_keeps [OF dl] start_keeps [OF st] prng_mix_keeps [OF mx] show ?thesis
    by simp
qed

subsection \<open>Health tests\<close>

lemma apt_insert_cfg: "cfg (jent_apt_insert ec d) = cfg ec"
  by (simp add: jent_apt_insert_def jent_apt_reinit_def jent_apt_reset_def Let_def)

lemma lag_insert_cfg: "cfg (jent_lag_insert ec d) = cfg ec"
  using lag_insert_upd [of ec d] by (elim exE ssubst) (simp add: cfg_def)

lemma rct_insert_cfg: "cfg (jent_rct_insert ec b) = cfg ec"
  by (simp add: jent_rct_insert_def Let_def)

lemma tally_cfg: "cfg (rct_mem_tally ec b) = cfg ec"
  by (simp add: rct_mem_tally_def Let_def)

lemma health_init_cfg: "cfg (snd (jent_health_init ec t)) = cfg ec"
  by (simp add: health_init_defs cfg_def Let_def jent_rct_init_def jent_apt_init_def jent_apt_init_ntg1_def
      jent_rct_mem_init_def jent_rct_mem_init_ntg1_def split: jent_health_init_type.split)

lemma times_keeps: "keeps rd \<Longrightarrow> keeps (random_data_times rd n)"
proof (induction n)
  case (Suc n)
  then show ?case
    by (fastforce simp: keeps_def bind_eq_Some_conv)
qed (simp add: keeps_def)

lemma recover_keeps: "keeps rd \<Longrightarrow> keeps (rct_mem_recover rd)"
  using times_keeps [of rd JENT_RCT_MEM_RECOVERY_LOOP_CNT]
  by (auto simp: keeps_def [of "rct_mem_recover rd"] rct_mem_recover_def Let_def bind_eq_Some_conv dest!: keepsD)

lemma rct_mem_insert_keeps:
  assumes rd: "keeps rd" and ins: "jent_rct_mem_insert rd ec env b = Some (ec', env')"
  shows "cfg ec' = cfg ec \<and> rest env' = rest env"
proof -
  define t where "t = rct_mem_tally ec b"
  have t: "cfg t = cfg ec"
    by (simp add: t_def tally_cfg)
  from ins obtain e v where
    br: "(if ec_rct_mem_count t \<ge> ec_rct_mem_cutoff_permanent t
        then Some (if JENT_RCT_MEM_IN_WINDOW t
                   then t\<lparr>ec_health_failure := ec_health_failure t OR JENT_RCT_MEM_FAILURE_PERMANENT\<rparr> else t, env)
        else if ec_rct_mem_count t = ec_rct_mem_cutoff t
        then if \<not> ec_in_recovery t then rct_mem_recover rd t env
             else Some (if JENT_RCT_MEM_IN_WINDOW t
                        then t\<lparr>ec_health_failure := ec_health_failure t OR JENT_RCT_MEM_FAILURE\<rparr> else t, env)
        else Some (t, env)) = Some (e, v)" and
    fin: "ec' = (if JENT_RCT_MEM_IN_WINDOW e then e\<lparr>ec_rct_mem_ctr := ec_rct_mem_ctr e + 1\<rparr> else e)" "env' = v"
    unfolding jent_rct_mem_insert_def Let_def t_def [symmetric]
    by (elim bind_pairE) (simp only: option.inject prod.inject that)
  have "cfg e = cfg t \<and> rest v = rest env"
    using br keepsD [OF recover_keeps [OF rd], of t env e v] by (auto split: if_splits)
  with t fin show ?thesis
    by simp
qed

lemma stuck_keeps:
  assumes "keeps rd" "jent_stuck rd ec env d = Some (b, ec', env')"
  shows "cfg ec' = cfg ec \<and> rest env' = rest env"
  using assms(2) rct_mem_insert_keeps [OF assms(1)]
  by (fastforce simp: jent_stuck_def Let_def bind_eq_Some_conv lag_insert_cfg apt_insert_cfg rct_insert_cfg
      split: if_splits)

lemma stuck_if_health_keeps:
  assumes "keeps rd" "stuck_if_health rd h ec env d = Some (b, ec', env')"
  shows "cfg ec' = cfg ec \<and> rest env' = rest env"
  using assms(2) stuck_keeps [OF assms(1)] by (auto simp: stuck_if_health_def split: if_splits)

subsection \<open>Measurements and blocks\<close>

lemma hash_insert_cfg [simp]: "cfg (jent_hash_insert ec d im) = cfg ec"
  by (simp add: jent_hash_insert_def Let_def update_frame)

lemma measure_memaccess_keeps:
  assumes "keeps rd" shows "keeps_measuring (jent_measure_jitter_ntg1_memaccess rd fuel lc h)"
  unfolding keeps_measuring_def jent_measure_jitter_ntg1_memaccess_def Let_def
  by (auto simp: bind_eq_Some_conv dest!: memaccess_deterministic_keeps stuck_if_health_keeps [OF assms])

lemma measure_sha3_keeps:
  assumes "keeps rd" shows "keeps_measuring (jent_measure_jitter_ntg1_sha3 rd fuel lc h)"
  unfolding keeps_measuring_def jent_measure_jitter_ntg1_sha3_def Let_def
  by (auto simp: bind_eq_Some_conv dest!: nstime_keeps stuck_if_health_keeps [OF assms])

lemma measure_jitter_keeps:
  assumes "keeps rd" shows "keeps_measuring (jent_measure_jitter rd fuel lc h)"
  unfolding keeps_measuring_def jent_measure_jitter_def Let_def
  by (auto simp: bind_eq_Some_conv dest!: memaccess_pseudorandom_keeps nstime_keeps stuck_if_health_keeps [OF assms])

lemma collect_loop_keeps:
  assumes "keeps_measuring m"
  shows "collect_loop fuel m ctr ec env = Some (ec', env') \<Longrightarrow> cfg ec' = cfg ec \<and> rest env' = rest env"
proof (induction fuel arbitrary: ctr ec env)
  case (Suc fuel)
  from Suc.prems show ?case
    using assms [unfolded keeps_measuring_def, rule_format]
    by (fastforce simp: bind_eq_Some_conv dest: Suc.IH split: if_splits)
qed simp

lemma random_data_one_keeps: "keeps_measuring m \<Longrightarrow> keeps (jent_random_data_one fuel m)"
  by (auto simp: keeps_def jent_random_data_one_def Let_def dest: collect_loop_keeps split: if_splits)

lemma random_data_sha3_keeps: "keeps rd \<Longrightarrow> keeps (random_data_sha3 rd fuel)"
  unfolding keeps_def [of "random_data_sha3 rd fuel"] random_data_sha3_def
  by (auto simp: bind_eq_Some_conv Let_def health_init_cfg
      dest!: keepsD [OF random_data_one_keeps [OF measure_sha3_keeps]])

lemma random_data_body_keeps:
  assumes "keeps rd" shows "keeps (random_data_body rd fuel)"
  unfolding keeps_def [of "random_data_body rd fuel"] random_data_body_def
  using measure_jitter_keeps [OF assms, unfolded keeps_measuring_def]
  by (fastforce simp: bind_eq_Some_conv Let_def health_init_cfg split: jent_startup_state.splits
      dest!: keepsD [OF random_data_one_keeps [OF measure_memaccess_keeps [OF assms]]]
      keepsD [OF random_data_one_keeps [OF measure_jitter_keeps [OF assms]]]
      keepsD [OF random_data_sha3_keeps [OF assms]])

lemma random_data_keeps: "keeps (jent_random_data fuel)"
proof (induction fuel)
  case (Suc fuel)
  have "jent_random_data (Suc fuel) = random_data_body (jent_random_data fuel) fuel"
    by (simp add: fun_eq_iff)
  with random_data_body_keeps [OF Suc] show ?case
    by simp
qed (simp add: keeps_def)

end
