(* ===== verification/Jent_Collect.thy ===== *)
theory Jent_Collect
  imports Jent_Progress
begin

text \<open>
  The collection of a block and the startup sequence: they return for every noise source that keeps
  the contract of a measurement, and they return in a well-formed collector.
\<close>

subsection \<open>The collection loop over any noise source\<close>

text \<open>What the collection of a block leaves behind.\<close>

definition collected :: "rand_data \<Rightarrow> rand_data \<Rightarrow> bool" where
  "collected ec ec' \<longleftrightarrow> run_ok ec' \<and> statics ec' = statics ec \<and> window_ok ec' \<and> window_done ec' \<and>
     ec_stuck_prime ec' \<le> ec_stuck_prime ec \<and> (ec_health_failure ec' = 0 \<longrightarrow> ec_health_failure ec = 0)"

lemma run_ok_query: "run_ok ec \<Longrightarrow> jent_health_failure_query ec = ec_health_failure ec"
  by (simp add: run_ok_def jent_health_failure_query_def)

lemma measured_frame:
  assumes "source_ok (ec\<lparr>ec_mem := m, ec_memlocation := l, ec_prev_time := p\<rparr>)" "run_ok ec" "window_ok ec"
  shows "run_ok (ec\<lparr>ec_mem := m, ec_memlocation := l, ec_prev_time := p\<rparr>)"
    "window_ok (ec\<lparr>ec_mem := m, ec_memlocation := l, ec_prev_time := p\<rparr>)"
  using assms by (auto simp: run_ok_def window_ok_def)

lemma pool_frame [simp]:
  "run_ok (ec\<lparr>ec_hash_state := h\<rparr>) = run_ok ec" "window_ok (ec\<lparr>ec_hash_state := h\<rparr>) = window_ok ec"
  "statics (ec\<lparr>ec_hash_state := h\<rparr>) = statics ec" "bound ctr (ec\<lparr>ec_hash_state := h\<rparr>) = bound ctr ec"
  "statics (ec\<lparr>ec_mem := m, ec_memlocation := l, ec_prev_time := p\<rparr>) = statics ec"
  "bound ctr (ec\<lparr>ec_mem := m, ec_memlocation := l, ec_prev_time := p\<rparr>) = bound ctr ec"
  by (simp_all add: run_ok_def source_ok_def mem_ok_def window_ok_def statics_def bound_def may_recover_def
      split: option.splits)

lemma progress_frame:
  assumes "progress ctr (ec\<lparr>ec_mem := m, ec_memlocation := l, ec_prev_time := p\<rparr>) stuck ec'"
  shows "progress ctr ec stuck (ec'\<lparr>ec_hash_state := h\<rparr>)"
  using assms by (simp add: progress_def)

text \<open>The start of a block in FIPS mode.\<close>

lemma block_start:
  assumes "run_ok ec"
  defines "ec' \<equiv> ec\<lparr>ec_rct_mem_ctr := 0, ec_rct_mem_nosr := ucast (fips_nosr (ec_osr ec))\<rparr>"
  shows "run_ok ec'" "window_ok ec'" "0 < unat (ec_rct_mem_nosr ec')" "bound 0 ec' \<le> 8400000"
proof -
  show ok: "run_ok ec'" "window_ok ec'"
    using assms(1) by (auto simp: ec'_def run_ok_def source_ok_def mem_ok_def window_ok_def split: option.splits)
  have n: "unat (ec_rct_mem_nosr ec') \<le> 6420"
    using window_nosr(1) [OF ok] fips_nosr_unat(3) [of "ec_osr ec'"] ok(1) by (simp add: run_ok_def)
  have "0 < ec_rct_mem_nosr ec'"
    by (rule window_nosr(2) [OF ok])
  then show "0 < unat (ec_rct_mem_nosr ec')"
    by (simp add: word_less_nat_alt)
  have "unat (ec_stuck_prime ec') < 2 ^ LENGTH(2)"
    by (rule unsigned_less)
  moreover have "unat (ec_rct_cutoff_permanent ec') \<le> 1200"
    using ok(1) by (simp add: run_ok_def)
  ultimately show "bound 0 ec' \<le> 8400000"
    using n diff_le_self [of "unat (ec_rct_cutoff_permanent ec')" "unat (ec_rct_count ec')"]
    unfolding bound_def by (cases "may_recover ec'") simp_all
qed

lemma random_data_one_fips:
  assumes "run_ok ec"
  shows "jent_random_data_one n m ec env =
    collect_loop n m 0 (ec\<lparr>ec_rct_mem_ctr := 0, ec_rct_mem_nosr := ucast (fips_nosr (ec_osr ec))\<rparr>) env"
proof -
  have "256 \<le> unat (fips_nosr (ec_osr ec))" "unat (fips_nosr (ec_osr ec)) \<le> 6420"
    using fips_nosr_unat [of "ec_osr ec"] assms by (simp_all add: run_ok_def)
  then have "\<not> fips_nosr (ec_osr ec) > 0xffff" "\<not> fips_nosr (ec_osr ec) < of_nat DATA_SIZE_BITS"
    by (simp_all add: word_less_nat_alt DATA_SIZE_BITS_def JENT_SHA3_256_SIZE_DIGEST_BITS_def)
  moreover have "ec_is_fips_enabled ec"
    using assms by (simp add: run_ok_def)
  ultimately show ?thesis
    by (simp add: jent_random_data_one_def Let_def fips_nosr_def)
qed

text \<open>A sequence of measurements, none of which is made after a failure, with the number of those that were
  not stuck; and a block, for which enough of them have been made or a failure has ended the collection.\<close>

inductive measured :: "measurement \<Rightarrow> rand_data \<times> jent_env \<Rightarrow> nat \<Rightarrow> rand_data \<times> jent_env \<Rightarrow> bool" for m :: measurement where
  measured_none: "measured m st 0 st"
| measured_more: "measured m (ec, env) (if stuck then k else Suc k) st"
  if "jent_health_failure_query ec = 0" "m ec env = Some (stuck, d, ec1, env1)" "measured m (ec1, env1) k st"

definition block_gathered :: "measurement \<Rightarrow> rand_data \<Rightarrow> jent_env \<Rightarrow> rand_data \<Rightarrow> jent_env \<Rightarrow> bool" where
  "block_gathered m ec env ec' env' \<longleftrightarrow>
     (\<exists>k. measured m (ec\<lparr>ec_rct_mem_ctr := 0, ec_rct_mem_nosr := ucast (fips_nosr (ec_osr ec))\<rparr>, env) k (ec', env') \<and>
        (ec_health_failure ec' \<noteq> 0 \<or> unat (fips_nosr (ec_osr ec)) \<le> k))"

lemma collect_loop_measured:
  "collect_loop n m ctr ec env = Some (ec', env') \<Longrightarrow>
   \<exists>k. measured m (ec, env) k (ec', env') \<and>
     (jent_health_failure_query ec' \<noteq> 0 \<or> unat (ec_rct_mem_nosr ec') \<le> unat ctr + k)"
proof (induction n arbitrary: ctr ec env)
  case (Suc n)
  show ?case
  proof (cases "jent_health_failure_query ec = 0")
    case False
    with Suc.prems show ?thesis
      by (auto intro: measured_none)
  next
    case True
    with Suc.prems obtain stuck d ec1 env1 where m: "m ec env = Some (stuck, d, ec1, env1)" and
      k: "(if stuck then collect_loop n m ctr ec1 env1
        else if ctr + 1 \<ge> ucast (ec_rct_mem_nosr ec1) then Some (ec1, env1)
        else collect_loop n m (ctr + 1) ec1 env1) = Some (ec', env')"
      by (auto simp: bind_eq_Some_conv split: if_splits)
    note step = measured_more [of ec m env stuck d ec1 env1, OF True m]
    have inc: "unat (ctr + 1) \<le> unat ctr + 1"
      by (simp add: unat_word_ariths(1))
    consider stuck | "\<not> stuck" "ctr + 1 \<ge> ucast (ec_rct_mem_nosr ec1)" | "\<not> stuck" "\<not> ctr + 1 \<ge> ucast (ec_rct_mem_nosr ec1)"
      by blast
    then show ?thesis
    proof cases
      case 1
      with k Suc.IH [of ctr ec1 env1] step show ?thesis
        by (auto simp del: split_paired_Ex)
    next
      case 2
      then have "unat (ec_rct_mem_nosr ec1) \<le> unat ctr + 1"
        using inc by (simp add: word_le_nat_alt)
      with 2 k step [OF measured_none] show ?thesis
        by (auto intro!: exI [of _ 1])
    next
      case 3
      with k Suc.IH [of "ctr + 1" ec1 env1] obtain j where
        j: "measured m (ec1, env1) j (ec', env')"
          "jent_health_failure_query ec' \<noteq> 0 \<or> unat (ec_rct_mem_nosr ec') \<le> unat (ctr + 1) + j"
        by auto
      with step [OF j(1)] 3 inc show ?thesis
        by (auto intro!: exI [of _ "Suc j"])
    qed
  qed
qed simp

lemma block_gathered_fips:
  assumes "run_ok ec" "jent_random_data_one n m ec env = Some (ec', env')" "run_ok ec'" "window_ok ec'" "ec_osr ec' = ec_osr ec"
  shows "block_gathered m ec env ec' env'"
proof -
  let ?ec = "ec\<lparr>ec_rct_mem_ctr := 0, ec_rct_mem_nosr := ucast (fips_nosr (ec_osr ec))\<rparr>"
  have "collect_loop n m 0 ?ec env = Some (ec', env')"
    using assms(2) random_data_one_fips [OF assms(1)] by simp
  from collect_loop_measured [OF this] obtain k where "measured m (?ec, env) k (ec', env')"
      "jent_health_failure_query ec' \<noteq> 0 \<or> unat (ec_rct_mem_nosr ec') \<le> k"
    by auto
  then show ?thesis
    using window_nosr(1) [OF assms(3,4)] run_ok_query [OF assms(3)] assms(5) unfolding block_gathered_def by auto
qed

context noise_source
begin

lemma measurement_progress:
  assumes "run_ok ec" "window_ok ec" "ec_in_recovery ec \<or> recovers rd"
    and "ec_health_failure ec = 0" "ctr \<le> unat (ec_rct_mem_ctr ec)" "ctr < unat (ec_rct_mem_nosr ec)"
  shows "\<exists>stuck d ec' env'. measurement rd fuel ec env = Some (stuck, d, ec', env') \<and> progress ctr ec stuck ec'"
proof -
  have "source_ok ec"
    using assms(1) by (simp add: run_ok_def)
  then obtain d p m l env1 pool where
    ok: "source_ok (ec\<lparr>ec_mem := m, ec_memlocation := l, ec_prev_time := p\<rparr>)" and
    eq: "measurement rd fuel ec env =
      map_option (\<lambda>(stuck, ec', env'). (stuck, d, ec'\<lparr>ec_hash_state := pool ec' env'\<rparr>, env'))
        (jent_stuck rd (ec\<lparr>ec_mem := m, ec_memlocation := l, ec_prev_time := p\<rparr>) env1 d)"
    using measures by blast
  let ?ec = "ec\<lparr>ec_mem := m, ec_memlocation := l, ec_prev_time := p\<rparr>"
  obtain stuck ec' env' where "jent_stuck rd ?ec env1 d = Some (stuck, ec', env')" "progress ctr ?ec stuck ec'"
    using stuck_progress [OF measured_frame [OF ok assms(1,2)], of rd ctr env1 d] assms(3-6) by auto
  with eq progress_frame show ?thesis
    by auto
qed

lemma collect_loop_returns:
  assumes "run_ok ec" "window_ok ec" "ec_in_recovery ec \<or> recovers rd"
    and "ec_health_failure ec = 0 \<longrightarrow> unat ctr \<le> unat (ec_rct_mem_ctr ec)" "unat ctr < unat (ec_rct_mem_nosr ec)"
    and "0 < n" "ec_health_failure ec = 0 \<longrightarrow> Suc (bound (unat ctr) ec) < n"
  shows "\<exists>ec' env'. collect_loop n (measurement rd fuel) ctr ec env = Some (ec', env') \<and> collected ec ec'"
  using assms
proof (induction n arbitrary: ctr ec env)
  case (Suc n)
  show ?case
  proof (cases "ec_health_failure ec = 0")
    case False
    with Suc.prems(1,2) show ?thesis
      by (simp add: run_ok_query collected_def window_done_def)
  next
    case True
    then obtain stuck d ec1 env1 where m: "measurement rd fuel ec env = Some (stuck, d, ec1, env1)"
      "progress (unat ctr) ec stuck ec1"
      using measurement_progress [OF Suc.prems(1-3), of "unat ctr"] Suc.prems(4,5) by blast
    note p = m(2) [unfolded progress_def]
    have eq: "ec_in_recovery ec1 = ec_in_recovery ec" "ec_rct_mem_nosr ec1 = ec_rct_mem_nosr ec"
      using p Suc.prems(2) by (simp_all add: statics_def window_ok_def)
    have inc: "unat (ctr + 1) = Suc (unat ctr)"
      using Suc.prems(5) unsigned_less [of "ec_rct_mem_nosr ec", where 'a = nat] by (intro unat_inc) simp
    have step: "\<exists>ec' env'. collect_loop n (measurement rd fuel) c ec1 env1 = Some (ec', env') \<and> collected ec ec'"
      if "unat c = (if stuck then unat ctr else Suc (unat ctr))" "unat c < unat (ec_rct_mem_nosr ec)" for c
    proof -
      have "\<exists>ec' env'. collect_loop n (measurement rd fuel) c ec1 env1 = Some (ec', env') \<and> collected ec1 ec'"
        using p eq Suc.prems(3,7) True that by (intro Suc.IH) auto
      then show ?thesis
        using p True by (fastforce simp: collected_def intro: order_trans)
    qed
    show ?thesis
    proof (cases "\<not> stuck \<and> ctr + 1 \<ge> ucast (ec_rct_mem_nosr ec1)")
      case fin: True
      then have "unat (ec_rct_mem_nosr ec) \<le> Suc (unat ctr)"
        using inc eq(2) by (simp add: word_le_nat_alt)
      then have "window_done ec1"
        using p fin eq(2) by (auto simp: window_done_def window_ok_def word_le_nat_alt word_eq_unat [of "ec_rct_mem_ctr ec1"])
      with fin m(1) p True Suc.prems(1) show ?thesis
        by (simp add: run_ok_query collected_def)
    next
      case False
      then show ?thesis
        using step [of ctr] step [of "ctr + 1"] inc eq(2) m(1) True Suc.prems(1,5)
        by (cases stuck) (auto simp: run_ok_query word_le_nat_alt)
    qed
  qed
qed simp

lemma random_data_one_returns:
  assumes "run_ok ec" "ec_in_recovery ec \<or> recovers rd" "9000000 \<le> n"
  shows "\<exists>ec' env'. jent_random_data_one n (measurement rd fuel) ec env = Some (ec', env') \<and> collected ec ec' \<and>
    block_gathered (measurement rd fuel) ec env ec' env'"
proof -
  let ?ec = "ec\<lparr>ec_rct_mem_ctr := 0, ec_rct_mem_nosr := ucast (fips_nosr (ec_osr ec))\<rparr>"
  note b = block_start [OF assms(1)]
  have eq: "jent_random_data_one n (measurement rd fuel) ec env = collect_loop n (measurement rd fuel) 0 ?ec env"
    by (rule random_data_one_fips [OF assms(1)])
  have "0 < n" "Suc (bound 0 ?ec) < n"
    using b(4) assms(3) by simp_all
  then obtain ec' env' where "collect_loop n (measurement rd fuel) 0 ?ec env = Some (ec', env')" "collected ?ec ec'"
    using collect_loop_returns [OF b(1,2), of rd 0 n fuel env] b(3) assms(2) by auto
  moreover have "collected ?ec ec' \<Longrightarrow> collected ec ec'"
    by (simp add: collected_def statics_def)
  moreover have "block_gathered (measurement rd fuel) ec env ec' env'" if "collected ec ec'"
    using that block_gathered_fips [OF assms(1), of n "measurement rd fuel" env ec' env'] eq calculation(1)
    by (simp add: collected_def statics_def)
  ultimately show ?thesis
    using eq by auto
qed

end

lemma recovers_random_data:
  assumes "9000000 \<le> n"
  shows "recovers (jent_random_data (Suc n))"
  unfolding recovers_def
proof (intro allI impI)
  fix ec env
  assume ec: "run_ok ec \<and> ec_in_recovery ec \<and> ec_startup_state ec = jent_startup_completed"
  let ?rd = "jent_random_data n"
  obtain d p mem env1 pool where m: "jent_measure_jitter ?rd n 0 False ec env =
      Some (False, d, ec\<lparr>ec_mem := mem, ec_prev_time := p, ec_hash_state := pool\<rparr>, env1)"
    "source_ok (ec\<lparr>ec_mem := mem, ec_prev_time := p, ec_hash_state := pool\<rparr>)"
    using measure_jitter_prime [of ec ?rd n env] ec by (auto simp: run_ok_def)
  let ?ec = "ec\<lparr>ec_mem := mem, ec_prev_time := p, ec_hash_state := pool\<rparr>"
  have "run_ok ?ec" "ec_in_recovery ?ec"
    using ec m(2) by (simp_all add: run_ok_def)
  then obtain ec' env' where "jent_random_data_one n (jent_measure_jitter ?rd n 0 True) ?ec env1 = Some (ec', env')"
    "collected ?ec ec'"
    using combined_source.random_data_one_returns [of ?ec ?rd n n env1] assms by auto
  with ec m(1) show "\<exists>ec' env'. jent_random_data (Suc n) ec env = Some (ec', env') \<and> run_ok ec' \<and>
      statics ec' = statics ec \<and> window_ok ec' \<and> window_done ec' \<and> ec_stuck_prime ec' \<le> ec_stuck_prime ec \<and>
      (ec_health_failure ec' = 0 \<longrightarrow> ec_health_failure ec = 0)"
    by (simp add: random_data_body_def collected_def statics_def)
qed

text \<open>Restarting the health tests keeps a collector in order.\<close>

lemma rct_permanent_le:
  assumes "ec_osr ec \<le> JENT_MAX_OSR" "s = 0 \<or> s = 8"
  shows "unat (ec_rct_cutoff_permanent (jent_rct_init ec s)) \<le> 1200"
proof -
  define n where "n = unat (ec_osr ec)"
  have n: "n \<le> 20"
    using assms(1) by (simp add: word_le_nat_alt JENT_MAX_OSR_def n_def)
  then have "unat (ucast (ec_osr ec) :: u16) = n"
    by (simp add: n_def unsigned_ucast_eq take_bit_nat_eq_self)
  then have "unat (ucast (ec_osr ec) * 60 :: u16) = n * 60"
    using n by (simp add: unat_word_ariths)
  moreover have "(n * 60 + 7) div 8 \<le> 1200"
    using n by simp
  ultimately show ?thesis
    using assms(2) n
    by (auto simp: jent_rct_init_def Let_def JENT_HEALTH_RCT_PERMANENT_CUTOFF_def unat_of_nat take_bit_nat_eq_self)
qed

lemma health_init_frame:
  assumes "1 \<le> ec_osr ec" "ec_osr ec \<le> JENT_MAX_OSR" and e: "e = snd (jent_health_init ec t)"
  shows "ec_rct_count e = 0" "ec_health_failure e = ec_health_failure ec" "ec_startup_state e = ec_startup_state ec"
    "ec_in_recovery e = ec_in_recovery ec" "ec_mem e = ec_mem ec" "ec_memmask e = ec_memmask ec"
    "ec_memlocation e = ec_memlocation ec" "ec_common_timer_gcd e = ec_common_timer_gcd ec"
    "ec_enable_notime e = ec_enable_notime ec" "ec_is_fips_enabled e = ec_is_fips_enabled ec" "ec_osr e = ec_osr ec"
    "ec_flags e = ec_flags ec" "unat (ec_rct_cutoff_permanent e) \<le> 1200"
proof -
  have max: "\<not> ec_osr ec > JENT_MAX_OSR" "ec_osr ec \<noteq> 0"
    using assms(1,2) by auto
  have p: "unat (ec_rct_cutoff_permanent (jent_rct_init x s)) \<le> 1200"
    if "ec_osr x = ec_osr ec" "s = 0 \<or> s = 8" for x s
    using rct_permanent_le [of x s] assms(2) that by simp
  show "ec_rct_count e = 0" "ec_health_failure e = ec_health_failure ec" "ec_startup_state e = ec_startup_state ec"
    "ec_in_recovery e = ec_in_recovery ec" "ec_mem e = ec_mem ec" "ec_memmask e = ec_memmask ec"
    "ec_memlocation e = ec_memlocation ec" "ec_common_timer_gcd e = ec_common_timer_gcd ec"
    "ec_enable_notime e = ec_enable_notime ec" "ec_is_fips_enabled e = ec_is_fips_enabled ec" "ec_osr e = ec_osr ec"
    "ec_flags e = ec_flags ec"
    using max unfolding e by (simp_all add: health_init_defs jent_rct_init_def Let_def split: jent_health_init_type.splits)
  show "unat (ec_rct_cutoff_permanent e) \<le> 1200"
    using max p unfolding e by (simp add: health_init_defs Let_def split: jent_health_init_type.splits)
qed

lemma run_ok_health_init:
  assumes "run_ok ec" and e: "e = snd (jent_health_init (ec\<lparr>ec_startup_state := st\<rparr>) t)"
  shows "run_ok e" "ec_health_failure e = ec_health_failure ec" "ec_startup_state e = st"
    "ec_in_recovery e = ec_in_recovery ec"
proof -
  have osr: "1 \<le> ec_osr (ec\<lparr>ec_startup_state := st\<rparr>)" "ec_osr (ec\<lparr>ec_startup_state := st\<rparr>) \<le> JENT_MAX_OSR"
    using assms(1) by (simp_all add: run_ok_def)
  note f = health_init_frame [OF osr e]
  have "cutoffs_ok e"
    using health_init_cutoffs [OF osr, of t] by (simp add: e)
  then have "0 < ec_rct_cutoff_permanent e" "ec_rct_cutoff e < ec_rct_cutoff_permanent e" "0 < ec_rct_mem_cutoff e" "ec_rct_mem_cutoff e < ec_rct_mem_cutoff_permanent e"
    by (auto simp: cutoffs_ok_def)
  then show "run_ok e"
    using f assms(1) by (simp add: run_ok_def source_ok_def mem_ok_def word_less_nat_alt split: option.splits)
  show "ec_health_failure e = ec_health_failure ec" "ec_startup_state e = st" "ec_in_recovery e = ec_in_recovery ec"
    using f by simp_all
qed

subsection \<open>The startup sequence\<close>

text \<open>The end of a startup stage, and what a generation consists of: one block with the combined noise source
  after a measurement that primes it, or the remaining startup stages, each a block with its own source.\<close>

definition next_stage :: "jent_startup_state \<Rightarrow> rand_data \<Rightarrow> rand_data" where
  "next_stage st ec = snd (jent_health_init (ec\<lparr>ec_startup_state := st\<rparr>) (startup_health_type ec))"

definition sha3_stage :: "rand_op \<Rightarrow> nat \<Rightarrow> rand_data \<Rightarrow> jent_env \<Rightarrow> rand_data \<Rightarrow> jent_env \<Rightarrow> bool" where
  "sha3_stage rd n ec env ec' env' \<longleftrightarrow>
     (\<exists>ec1. block_gathered (jent_measure_jitter_ntg1_sha3 rd n 0 True) ec env ec1 env' \<and>
        ec' = next_stage jent_startup_completed ec1)"

definition generated :: "rand_op \<Rightarrow> nat \<Rightarrow> rand_data \<Rightarrow> jent_env \<Rightarrow> rand_data \<Rightarrow> jent_env \<Rightarrow> bool" where
  "generated rd n ec env ec' env' \<longleftrightarrow>
     (case ec_startup_state ec of
        jent_startup_memory \<Rightarrow>
          \<exists>ec1 env1. block_gathered (jent_measure_jitter_ntg1_memaccess rd n 0 True) ec env ec1 env1 \<and>
            sha3_stage rd n (next_stage jent_startup_sha3 ec1) env1 ec' env'
      | jent_startup_sha3 \<Rightarrow> sha3_stage rd n ec env ec' env'
      | jent_startup_completed \<Rightarrow>
          \<exists>d ec1 env1. jent_measure_jitter rd n 0 False ec env = Some (False, d, ec1, env1) \<and>
            block_gathered (jent_measure_jitter rd n 0 True) ec1 env1 ec' env')"

lemma startup_health_type_state [simp]: "startup_health_type (ec\<lparr>ec_startup_state := st\<rparr>) = startup_health_type ec"
  by (simp add: startup_health_type_def)

lemma sha3_stage_returns:
  assumes "run_ok ec" "recovers rd" "9000000 \<le> n"
  shows "\<exists>ec' env'. random_data_sha3 rd n ec env = Some (ec', env') \<and> run_ok ec' \<and>
    ec_startup_state ec' = jent_startup_completed \<and> (ec_health_failure ec' = 0 \<longrightarrow> ec_health_failure ec = 0) \<and>
    sha3_stage rd n ec env ec' env'"
proof -
  obtain ec1 env1 where r: "jent_random_data_one n (jent_measure_jitter_ntg1_sha3 rd n 0 True) ec env = Some (ec1, env1)"
    "collected ec ec1" "block_gathered (jent_measure_jitter_ntg1_sha3 rd n 0 True) ec env ec1 env1"
    using hash_source.random_data_one_returns [of ec rd n n env] assms by auto
  let ?ec = "ec1\<lparr>ec_startup_state := jent_startup_completed\<rparr>"
  have "run_ok ec1"
    using r(2) by (simp add: collected_def)
  from run_ok_health_init [OF this refl, of jent_startup_completed "startup_health_type ?ec"] r show ?thesis
    by (auto simp: random_data_sha3_def Let_def collected_def sha3_stage_def next_stage_def)
qed

lemma random_data_body_returns:
  assumes "run_ok ec" "recovers rd" "9000000 \<le> n"
  shows "\<exists>ec' env'. random_data_body rd n ec env = Some (ec', env') \<and> run_ok ec' \<and>
    ec_startup_state ec' = jent_startup_completed \<and> (ec_health_failure ec' = 0 \<longrightarrow> ec_health_failure ec = 0) \<and>
    generated rd n ec env ec' env'"
proof (cases "ec_startup_state ec")
  case jent_startup_completed
  obtain d p mem env1 pool where m: "jent_measure_jitter rd n 0 False ec env =
      Some (False, d, ec\<lparr>ec_mem := mem, ec_prev_time := p, ec_hash_state := pool\<rparr>, env1)"
    "source_ok (ec\<lparr>ec_mem := mem, ec_prev_time := p, ec_hash_state := pool\<rparr>)"
    using measure_jitter_prime [of ec rd n env] assms(1) by (auto simp: run_ok_def)
  let ?ec = "ec\<lparr>ec_mem := mem, ec_prev_time := p, ec_hash_state := pool\<rparr>"
  have "run_ok ?ec"
    using assms(1) m(2) by (simp add: run_ok_def)
  then obtain ec' env' where "jent_random_data_one n (jent_measure_jitter rd n 0 True) ?ec env1 = Some (ec', env')"
    "collected ?ec ec'" "block_gathered (jent_measure_jitter rd n 0 True) ?ec env1 ec' env'"
    using combined_source.random_data_one_returns [of ?ec rd n n env1] assms by auto
  with jent_startup_completed m(1) show ?thesis
    by (simp add: random_data_body_def collected_def statics_def generated_def)
next
  case jent_startup_sha3
  with sha3_stage_returns [OF assms] show ?thesis
    by (simp add: random_data_body_def generated_def)
next
  case jent_startup_memory
  obtain ec1 env1 where r: "jent_random_data_one n (jent_measure_jitter_ntg1_memaccess rd n 0 True) ec env = Some (ec1, env1)"
    "collected ec ec1" "block_gathered (jent_measure_jitter_ntg1_memaccess rd n 0 True) ec env ec1 env1"
    using memory_source.random_data_one_returns [of ec rd n n env] assms by auto
  let ?ec = "ec1\<lparr>ec_startup_state := jent_startup_sha3\<rparr>"
  let ?e2 = "snd (jent_health_init ?ec (startup_health_type ?ec))"
  have "run_ok ec1"
    using r(2) by (simp add: collected_def)
  note h = run_ok_health_init [OF this refl, of jent_startup_sha3 "startup_health_type ?ec"]
  have next_: "?e2 = next_stage jent_startup_sha3 ec1"
    by (simp add: next_stage_def)
  from sha3_stage_returns [OF h(1) assms(2,3), of env1] h r jent_startup_memory show ?thesis
    unfolding generated_def by (fastforce simp: random_data_body_def Let_def collected_def next_ [simplified])
qed

lemma random_data_total:
  assumes "run_ok ec" "9000002 \<le> fuel"
  shows "\<exists>ec' env'. jent_random_data fuel ec env = Some (ec', env') \<and> run_ok ec' \<and>
    ec_startup_state ec' = jent_startup_completed \<and> (ec_health_failure ec' = 0 \<longrightarrow> ec_health_failure ec = 0) \<and>
    generated (jent_random_data (fuel - 1)) (fuel - 1) ec env ec' env'"
proof -
  define n where "n = fuel - 2"
  have n: "fuel = Suc (Suc n)" "9000000 \<le> n"
    using assms(2) by (simp_all add: n_def)
  then show ?thesis
    using random_data_body_returns [OF assms(1) recovers_random_data, of n "Suc n" env] by simp
qed

subsection \<open>The properties of the generation\<close>

text \<open>C12: in FIPS mode on the platform clock the generation of a block returns, whatever the clock does and
  however the measurements turn out, with a well-formed collector past its startup stages. Its result is
  that of a sequence of measurements with the noise source of each stage, none of them made after a
  failure: either a health failure is set, or in every stage as many measurements that were not stuck have
  been mixed in as the oversampling rate with the safety factor asks for. A failure that was set before
  stays set. The fuel bounds the rounds of each single loop and the depth of the calls.\<close>

theorem random_data_returns:
  assumes "run_ok ec" "9000002 \<le> fuel"
  shows "\<exists>ec' env'. jent_random_data fuel ec env = Some (ec', env') \<and> run_ok ec' \<and>
    ec_startup_state ec' = jent_startup_completed \<and> (ec_health_failure ec' = 0 \<longrightarrow> ec_health_failure ec = 0) \<and>
    generated (jent_random_data (fuel - 1)) (fuel - 1) ec env ec' env'"
  using assms by (rule random_data_total)

definition sample_collector :: rand_data where
  "sample_collector = snd (jent_health_init (zero_rand_data\<lparr>ec_osr := 3, ec_is_fips_enabled := True,
     ec_common_timer_gcd := 1, ec_startup_state := jent_startup_memory\<rparr>) jent_health_init_type_common)"

lemma sample_collector_ok: "run_ok sample_collector"
  by (simp add: sample_collector_def run_ok_def source_ok_def mem_ok_def health_init_defs jent_rct_init_def Let_def
      cutoff_tables JENT_MAX_OSR_def JENT_HEALTH_RCT_INTERMITTENT_CUTOFF_def JENT_HEALTH_RCT_PERMANENT_CUTOFF_def)

theorem random_data_returns_witness:
  "run_ok sample_collector \<and> (9000002 :: nat) \<le> 9000002 \<and>
   (\<exists>ec' env'. jent_random_data 9000002 sample_collector start_env = Some (ec', env') \<and> run_ok ec' \<and>
      ec_startup_state ec' = jent_startup_completed)"
  using random_data_returns [OF sample_collector_ok, of 9000002 start_env] sample_collector_ok by blast

end
