(* ===== verification/Jent_Read.thy ===== *)
theory Jent_Read
  imports Jent_Base Jent_Frame Jent_Collect
begin

text \<open>
  Reading from a collector: what \<^verbatim>\<open>jent_read_entropy\<close> delivers on success, what it leaves in the buffer on
  a failure, and that it returns in FIPS mode.
\<close>

subsection \<open>Frames of the steps of a read\<close>

lemma settick_cfg:
  "jent_notime_settick ec env = (ret, ec', env') \<Longrightarrow> cfg ec' = cfg ec \<and> ec_hash_state ec' = ec_hash_state ec"
  by (auto simp: jent_notime_settick_def Let_def cfg_def split: if_splits prod.splits)

lemma unsettick_cfg [simp]: "cfg (jent_notime_unsettick ec) = cfg ec"
  by (simp add: jent_notime_unsettick_def cfg_def)

text \<open>The scratch block of the generator has its size.\<close>

definition drbg_mem :: "rand_data \<Rightarrow> bool" where
  "drbg_mem ec \<longleftrightarrow> length (sha_xdrbg_block (ec_hash_state ec)) = 96"

lemma cfg_drbg_mem: "cfg ec' = cfg ec \<Longrightarrow> drbg_mem ec' \<longleftrightarrow> drbg_mem ec"
  by (simp add: cfg_def drbg_mem_def)

lemma length_words: "length (concat (map (\<lambda>i. le64_to_ptr (f i)) xs)) = 8 * length xs"
  by (induction xs) (simp_all add: le64_to_ptr_word_bytes)

lemma final_block_length:
  assumes "length (sha_xdrbg_block ctx) = 96" "unat (sha_digestsize ctx) \<le> 96"
  shows "length (sha_xdrbg_block (sha3_final_block ctx)) = 96"
  using assms
  by (simp add: sha3_final_block_def jent_sha3_final_def jent_sha3_init_def Let_def length_words sha3_absorb_frame)

lemma generate_length:
  assumes "length (sha_xdrbg_block ctx) = 96" "jent_drbg_generate_block ctx n = (ctx', dst)"
  shows "length dst = min n 32 \<and> length (sha_xdrbg_block ctx') = 96"
  using assms
  by (auto simp: jent_drbg_generate_block_def jent_xdrbg256_generate_block_def Let_def jent_shake256_set_digestsize_def
      final_block_length update_frame)

lemma read_block:
  assumes "drbg_mem ec" "jent_read_random_block ec n = (ec', blk)"
  shows "length blk = min n 32 \<and> cfg ec' = cfg ec \<and> drbg_mem ec'"
proof -
  obtain ctx dst where g: "jent_drbg_generate_block (ec_hash_state ec) n = (ctx, dst)"
    by fastforce
  with assms(2) have e: "ec' = ec\<lparr>ec_hash_state := ctx\<rparr>" "blk = dst"
    by (simp_all add: jent_read_random_block_def)
  from generate_length [OF _ g] assms(1) show ?thesis
    unfolding e by (simp add: drbg_mem_def)
qed

lemma health_err_neg: "jent_health_err h < 0"
  unfolding jent_health_err_def by (simp add: read_errors)

lemma health_failure_zero:
  "jent_health_failure ec env = (0, env') \<longleftrightarrow> jent_health_failure_query ec = 0 \<and> env' = env"
  by (cases "jent_health_failure_query ec = 0") (auto simp: jent_health_failure_def Let_def)

subsection \<open>What a read delivers\<close>

text \<open>The bytes of a read, block by block: every block comes out of the generator after entropy has been
  collected into it without a health failure, from a collector whose self test has passed.\<close>

inductive delivers :: "nat \<Rightarrow> rand_data \<times> jent_env \<Rightarrow> u8 list \<Rightarrow> rand_data \<times> jent_env \<Rightarrow> bool" for fuel :: nat where
  delivers_none: "delivers fuel st [] st"
| delivers_block: "delivers fuel (ec, env) (blk @ out) st"
  if "\<not> ec_selftest_failed ec" "jent_random_data fuel ec env = Some (ec1, env1)" "jent_health_failure_query ec1 = 0"
    "n \<le> 32" "jent_read_random_block ec1 n = (ec2, blk)" "length blk = n" "delivers fuel (ec2, env1) out st"

lemma memcpy_at_then:
  assumes "p + length s \<le> length d"
  shows "take (p + length s) (memcpy_at d p s) = take p d @ s"
    "drop (p + length s) (memcpy_at d p s) = drop (p + length s) d"
  using assms by (simp_all add: memcpy_at_def)

text \<open>One round of the loop, and the frame around the loop.\<close>

lemma read_loop_stop:
  "read_loop rd 0 p buf ec env = Some (0, p, buf, ec, env)"
  "len \<noteq> 0 \<Longrightarrow> ec_selftest_failed ec \<Longrightarrow> read_loop rd len p buf ec env = Some (JENT_ERR_SELFTEST, p, buf, ec, env)"
  by (simp_all add: read_loop.simps [of _ 0] read_loop.simps [of _ len])

lemma read_loop_block:
  assumes "len \<noteq> 0" "\<not> ec_selftest_failed ec" "rd ec env = Some (ec1, env1)" "jent_health_failure ec1 env1 = (h, env2)"
    and "jent_read_random_block ec1 (min len 32) = (ec2, blk)"
  shows "read_loop rd len p buf ec env =
    (if h \<noteq> 0 then Some (jent_health_err h, p, buf, ec1, env2)
     else read_loop rd (len - min len 32) (p + min len 32) (memcpy_at buf p blk) ec2 env2)"
  using assms by (simp add: read_loop.simps [of _ len] Let_def min_def DATA_SIZE_BITS_def split: if_splits)

lemma read_entropy_from_body:
  assumes "len \<noteq> 0" "jent_notime_settick ec env = (0, ec0, env0)" "n = (if len > ssize_max then ssize_max else len)"
  shows "read_entropy_from fuel ec data len env = Option.bind (read_loop (jent_random_data fuel) (unat n) 0 data ec0 env0)
     (\<lambda>(r, q, buf, ec1, env'). Some (if r \<noteq> 0 then r else int (unat n),
        if r = 0 then (jent_notime_unsettick ec1)\<lparr>
          ec_read_invocations := ec_read_invocations (jent_notime_unsettick ec1) + 1,
          ec_bytes_output := ec_bytes_output (jent_notime_unsettick ec1) + n\<rparr> else jent_notime_unsettick ec1,
        if r \<noteq> 0 \<and> q \<noteq> 0 then memset_at buf 0 0 q else buf, env'))"
  using assms(1,2) by (simp add: read_entropy_from_def assms(3) [symmetric] Let_def)

lemma read_loop_spec:
  assumes "read_loop (jent_random_data fuel) len p buf ec env = Some (ret, q, buf', ec', env')"
    and "p + len \<le> length buf" "drbg_mem ec"
  shows "p \<le> q \<and> q \<le> p + len \<and> cfg ec' = cfg ec \<and> ret \<le> 0 \<and>
    (\<exists>out. length out = q - p \<and> buf' = take p buf @ out @ drop q buf \<and>
      (ret = 0 \<longrightarrow> q = p + len \<and> delivers fuel (ec, env) out (ec', env')))"
  using assms
proof (induction len arbitrary: p buf ec env rule: less_induct)
  case (less len)
  show ?case
  proof (cases "len = 0 \<or> ec_selftest_failed ec")
    case True
    with less.prems(1) show ?thesis
      by (auto simp: read_loop.simps [of _ len] JENT_ERR_SELFTEST_def intro: delivers_none split: if_splits)
  next
    case False
    with less.prems(1) obtain ec1 env1 where rd: "jent_random_data fuel ec env = Some (ec1, env1)"
      by (auto simp: read_loop.simps [of _ len] elim!: bind_pairE)
    from keepsD [OF random_data_keeps rd] have c1: "cfg ec1 = cfg ec" "drbg_mem ec1"
      using cfg_drbg_mem less.prems(3) by blast+
    obtain h env2 where h: "jent_health_failure ec1 env1 = (h, env2)"
      by fastforce
    define k where "k = min len 32"
    obtain ec2 blk where blk: "jent_read_random_block ec1 k = (ec2, blk)"
      by fastforce
    note b = read_block [OF c1(2) blk]
    have step: "read_loop (jent_random_data fuel) len p buf ec env =
      (if h \<noteq> 0 then Some (jent_health_err h, p, buf, ec1, env2)
       else read_loop (jent_random_data fuel) (len - k) (p + k) (memcpy_at buf p blk) ec2 env2)"
      using False rd h blk by (simp add: read_loop_block k_def)
    show ?thesis
    proof (cases "h = 0")
      case h0: False
      with step less.prems c1 health_err_neg [of h] show ?thesis
        by auto
    next
      case True
      with h have q: "jent_health_failure_query ec1 = 0" "env2 = env1"
        by (simp_all add: health_failure_zero)
      have k: "length blk = k" "k \<le> 32" "k \<le> len" "0 < k" "cfg ec2 = cfg ec1" "drbg_mem ec2"
        using b False by (auto simp: k_def)
      have "p + k + (len - k) \<le> length (memcpy_at buf p blk)" "len - k < len"
        using less.prems(2) k by simp_all
      note IH = less.IH [OF this(2) _ this(1) k(6), of env2]
      from step True less.prems(1) obtain out where o: "p + k \<le> q" "q \<le> p + len" "cfg ec' = cfg ec2" "ret \<le> 0"
          "length out = q - (p + k)" "buf' = take (p + k) (memcpy_at buf p blk) @ out @ drop q (memcpy_at buf p blk)"
          "ret = 0 \<longrightarrow> q = p + len \<and> delivers fuel (ec2, env2) out (ec', env')"
        using IH k(3) by auto
      have fit: "p + length blk \<le> length buf"
        using less.prems(2) k by simp
      obtain j where j: "q = j + (p + length blk)"
        using o(1) k(1) by (metis le_iff_add add.commute)
      have "drop q (memcpy_at buf p blk) = drop q buf"
        unfolding j drop_drop [symmetric, of j "p + length blk"] memcpy_at_then(2) [OF fit] ..
      then have "buf' = take p buf @ (blk @ out) @ drop q buf"
        using o(6) k(1) memcpy_at_then(1) [OF fit] by simp
      moreover have "ret = 0 \<longrightarrow> q = p + len \<and> delivers fuel (ec, env) (blk @ out) (ec', env')"
        using o(7) False rd q k blk by (auto intro: delivers_block)
      ultimately show ?thesis
        using o k c1 by (intro conjI exI [of _ "blk @ out"]) simp_all
    qed
  qed
qed

subsection \<open>Reads return in FIPS mode\<close>

lemma run_ok_upd [simp]:
  "run_ok (ec\<lparr>ec_hash_state := h\<rparr>) = run_ok ec"
  "run_ok (ec\<lparr>ec_read_invocations := i, ec_bytes_output := j\<rparr>) = run_ok ec"
  by (simp_all add: run_ok_def source_ok_def mem_ok_def split: option.splits)

lemma read_loop_returns:
  assumes "run_ok ec" "9000002 \<le> fuel"
  shows "\<exists>ret q buf' ec' env'. read_loop (jent_random_data fuel) len p buf ec env = Some (ret, q, buf', ec', env') \<and> run_ok ec'"
  using assms(1)
proof (induction len arbitrary: p buf ec env rule: less_induct)
  case (less len)
  obtain ec1 env1 where rd: "jent_random_data fuel ec env = Some (ec1, env1)" "run_ok ec1"
    using random_data_total [OF less.prems assms(2)] by blast
  obtain h env2 where h: "jent_health_failure ec1 env1 = (h, env2)"
    by fastforce
  define k where "k = min len 32"
  obtain ctx blk where blk: "jent_drbg_generate_block (ec_hash_state ec1) k = (ctx, blk)"
    by fastforce
  have step: "read_loop (jent_random_data fuel) len p buf ec env =
    (if len = 0 then Some (0, p, buf, ec, env)
     else if ec_selftest_failed ec then Some (JENT_ERR_SELFTEST, p, buf, ec, env)
     else if h \<noteq> 0 then Some (jent_health_err h, p, buf, ec1, env2)
     else read_loop (jent_random_data fuel) (len - k) (p + k) (memcpy_at buf p blk) (ec1\<lparr>ec_hash_state := ctx\<rparr>) env2)"
    using rd(1) h blk read_loop_block [of len ec "jent_random_data fuel" env ec1 env1 h env2 _ blk p buf]
    by (simp add: read_loop_stop k_def jent_read_random_block_def)
  show ?case
  proof (cases "len = 0 \<or> ec_selftest_failed ec \<or> h \<noteq> 0")
    case True
    with step less.prems rd(2) show ?thesis
      by auto
  next
    case False
    then have "len - k < len"
      by (simp add: k_def)
    from less.IH [OF this, of "ec1\<lparr>ec_hash_state := ctx\<rparr>" "p + k" "memcpy_at buf p blk" env2] False rd(2) show ?thesis
      unfolding step by simp
  qed
qed

lemma unsettick_platform: "\<not> ec_enable_notime ec \<Longrightarrow> jent_notime_unsettick ec = ec"
  by (simp add: jent_notime_unsettick_def)

lemma read_entropy_from_total:
  assumes "run_ok ec" "9000002 \<le> fuel"
  shows "\<exists>ret ec' data' env'. read_entropy_from fuel ec buf len env = Some (ret, ec', data', env') \<and> run_ok ec'"
proof -
  define n where "n = (if len > ssize_max then ssize_max else len)"
  obtain ret q buf' ec' env' where r: "read_loop (jent_random_data fuel) (unat n) 0 buf ec env = Some (ret, q, buf', ec', env')"
    "run_ok ec'"
    using read_loop_returns [OF assms] by blast
  have pl: "\<not> ec_enable_notime ec" "\<not> ec_enable_notime ec'"
    using assms(1) r(2) by (simp_all add: run_ok_def source_ok_def)
  with r assms(1) show ?thesis
    by (simp add: read_entropy_from_def n_def [symmetric] Let_def jent_notime_settick_def unsettick_platform split_beta)
qed

lemma read_entropy_total:
  assumes "run_ok ec" "9000002 \<le> fuel"
  shows "\<exists>ret ec' data' env'. jent_read_entropy fuel (Some ec) data len env = Some (ret, Some ec', data', env') \<and> run_ok ec'"
  using read_entropy_from_total [OF assms, of "case data of Some b \<Rightarrow> b | None \<Rightarrow> []" len env] assms(1)
  by (auto simp: jent_read_entropy_def)

subsection \<open>The properties of a read\<close>

lemma bind_quintE:
  assumes "Option.bind m (\<lambda>(a, b, c, d, e). f a b c d e) = Some x"
  obtains a b c d e where "m = Some (a, b, c, d, e)" "f a b c d e = Some x"
  using assms by (auto simp: bind_eq_Some_conv)

lemma unat_ssize_max: "unat ssize_max = 2 ^ 63 - 1"
  by (simp add: ssize_max_def mask_eq_exp_minus_1)

lemma read_entropy_from_spec:
  assumes "read_entropy_from fuel ec data len env = Some (ret, ec', data', env')"
    and "len \<noteq> 0" "unat len \<le> length data" "drbg_mem ec"
  shows "if ret < 0 then (\<exists>p \<le> unat len. data' = replicate p 0 @ drop p data) \<and> cfg ec' = cfg ec
    else \<exists>ec0 env0 out ec1. ret = int (min (unat len) (2 ^ 63 - 1)) \<and> data' = out @ drop (nat ret) data \<and>
      length out = nat ret \<and> jent_notime_settick ec env = (0, ec0, env0) \<and>
      delivers fuel (ec0, env0) out (ec1, env') \<and> cfg ec1 = cfg ec \<and>
      ec' = (jent_notime_unsettick ec1)\<lparr>ec_read_invocations := ec_read_invocations ec + 1,
        ec_bytes_output := ec_bytes_output ec + of_int ret\<rparr>"
proof -
  define n where "n = (if len > ssize_max then ssize_max else len)"
  have n: "unat n = min (unat len) (2 ^ 63 - 1)" "n \<noteq> 0"
    using assms(2) unat_ssize_max by (auto simp: n_def word_less_nat_alt min_def)
  obtain st ec0 env0 where tick: "jent_notime_settick ec env = (st, ec0, env0)"
    by (cases "jent_notime_settick ec env")
  show ?thesis
  proof (cases "st = 0")
    case False
    with assms tick settick_cfg [OF tick] show ?thesis
      by (auto simp: read_entropy_from_def Let_def JENT_ERR_NOTIME_def)
  next
    case True
    note body = read_entropy_from_body [OF assms(2) tick [unfolded True] n_def, of fuel data]
    obtain r q buf ec1 where
      loop: "read_loop (jent_random_data fuel) (unat n) 0 data ec0 env0 = Some (r, q, buf, ec1, env')" and
      res: "ret = (if r \<noteq> 0 then r else int (unat n))" "data' = (if r \<noteq> 0 \<and> q \<noteq> 0 then memset_at buf 0 0 q else buf)"
        "ec' = (if r = 0 then (jent_notime_unsettick ec1)\<lparr>
           ec_read_invocations := ec_read_invocations (jent_notime_unsettick ec1) + 1,
           ec_bytes_output := ec_bytes_output (jent_notime_unsettick ec1) + n\<rparr> else jent_notime_unsettick ec1)"
      using assms(1) unfolding body by (elim bind_quintE) (simp only: option.inject prod.inject that)
    have fit: "0 + unat n \<le> length data" "drbg_mem ec0"
      using n(1) assms(3,4) settick_cfg [OF tick] cfg_drbg_mem [of ec0 ec] by simp_all
    obtain out where l: "q \<le> unat n" "cfg ec1 = cfg ec0" "r \<le> 0" "length out = q" "buf = out @ drop q data"
        "r = 0 \<longrightarrow> q = unat n \<and> delivers fuel (ec0, env0) out (ec1, env')"
      using read_loop_spec [OF loop fit] by auto
    have c: "cfg ec1 = cfg ec"
      using l(2) settick_cfg [OF tick] by simp
    then have u: "ec_read_invocations (jent_notime_unsettick ec1) = ec_read_invocations ec"
        "ec_bytes_output (jent_notime_unsettick ec1) = ec_bytes_output ec"
      using unsettick_cfg [of ec1] by (simp_all add: cfg_def)
    show ?thesis
    proof (cases "r = 0")
      case r0: True
      have "word_of_int (int (unat n)) = n"
        by simp
      with r0 True res l tick c u n(1) show ?thesis
        by (auto intro!: exI [of _ out])
    next
      case False
      have "memset_at buf 0 0 q = replicate q 0 @ drop q data"
        using l(4,5) by (simp add: memset_at_def memcpy_at_def)
      moreover have "q \<le> unat len"
        using l(1) n(1) by simp
      ultimately show ?thesis
        using False l res c by (auto intro!: exI [of _ q])
    qed
  qed
qed

text \<open>C5: a read of a positive length is all or nothing. On success it reports the requested length, limited
  to \<^verbatim>\<open>SSIZE_MAX\<close>, and has written exactly that many bytes, each block of which was generated after a
  collection of entropy without a health failure; the counters are advanced by one read and by these bytes.
  On an error nothing of the output is left in the buffer, the bytes that had been written are zero, and
  the counters are as before. Bytes behind the requested length are never touched.\<close>

theorem read_entropy_contract:
  assumes "jent_read_entropy fuel (Some ec) (Some data) len env = Some (ret, c, buf, env')"
    and "len \<noteq> 0" "unat len \<le> length data" "drbg_mem ec"
  shows "\<exists>ec' data'. c = Some ec' \<and> buf = Some data' \<and>
    (if ret < 0 then (\<exists>p \<le> unat len. data' = replicate p 0 @ drop p data) \<and> cfg ec' = cfg ec
     else \<exists>ec0 env0 out ec1. ret = int (min (unat len) (2 ^ 63 - 1)) \<and> data' = out @ drop (nat ret) data \<and>
       length out = nat ret \<and> jent_notime_settick ec env = (0, ec0, env0) \<and>
       delivers fuel (ec0, env0) out (ec1, env') \<and> cfg ec1 = cfg ec \<and>
       ec' = (jent_notime_unsettick ec1)\<lparr>ec_read_invocations := ec_read_invocations ec + 1,
         ec_bytes_output := ec_bytes_output ec + of_int ret\<rparr>)"
proof -
  obtain ec' data' where r: "read_entropy_from fuel ec data len env = Some (ret, ec', data', env')" "c = Some ec'" "buf = Some data'"
    using assms(1) by (auto simp: jent_read_entropy_def bind_eq_Some_conv)
  from read_entropy_from_spec [OF r(1) assms(2-4)] r(2,3) show ?thesis
    by blast
qed

text \<open>C11: a read in FIPS mode on the platform clock returns, whatever the clock does and however the health
  tests turn out, for every buffer and every length, and leaves a collector that can be read again.\<close>

theorem read_entropy_returns:
  assumes "run_ok ec" "9000002 \<le> fuel"
  shows "\<exists>ret ec' data' env'. jent_read_entropy fuel (Some ec) data len env = Some (ret, Some ec', data', env') \<and> run_ok ec'"
  using assms by (rule read_entropy_total)

theorem read_entropy_returns_witness:
  "\<exists>ret ec' data' env'. jent_read_entropy 9000002 (Some sample_collector) (Some (replicate 40 0)) 40 start_env =
     Some (ret, Some ec', data', env') \<and> run_ok ec'"
  by (rule read_entropy_returns [OF sample_collector_ok]) simp

lemma sample_collector_drbg: "drbg_mem sample_collector"
  by (simp add: drbg_mem_def sample_collector_def health_init_defs jent_rct_init_def Let_def JENT_MAX_OSR_def zero_sha_ctx_def)

theorem read_entropy_contract_witness:
  "\<exists>ret ec' data' env'. jent_read_entropy 9000002 (Some sample_collector) (Some (replicate 48 0)) 40 start_env =
     Some (ret, Some ec', Some data', env') \<and>
     (ret < 0 \<longrightarrow> data' = replicate 48 0) \<and> (\<not> ret < 0 \<longrightarrow> ret = 40 \<and> drop 40 data' = replicate 8 0)"
proof -
  obtain ret c data' env' where r: "jent_read_entropy 9000002 (Some sample_collector) (Some (replicate 48 0)) 40 start_env =
      Some (ret, Some c, data', env')"
    using read_entropy_total [OF sample_collector_ok order_refl, of "Some (replicate 48 0)" 40 start_env] by blast
  from read_entropy_contract [OF r _ _ sample_collector_drbg] show ?thesis
    using r by (fastforce simp flip: replicate_add split: if_splits)
qed

subsection \<open>Reports to the application\<close>

text \<open>The codes of a health failure.\<close>

definition health_errs :: "int set" where
  "health_errs = {JENT_ERR_RCT, JENT_ERR_APT, JENT_ERR_LAG, JENT_ERR_RCT_MEM, JENT_ERR_RCT_PERMANENT,
     JENT_ERR_APT_PERMANENT, JENT_ERR_LAG_PERMANENT, JENT_ERR_RCT_MEM_PERMANENT}"

lemma health_errs_mem: "jent_health_err h \<in> health_errs" "0 \<notin> health_errs" "int n \<notin> health_errs"
  "JENT_ERR_SELFTEST \<notin> health_errs" "JENT_ERR_NOTIME \<notin> health_errs" "JENT_ERR_EINVAL \<notin> health_errs"
  by (auto simp: health_errs_def jent_health_err_def read_errors)

text \<open>What the callback gets to see of a result.\<close>

definition reported :: "int \<Rightarrow> rand_data \<Rightarrow> jent_env \<Rightarrow> jent_env \<Rightarrow> bool" where
  "reported ret ec' env env' \<longleftrightarrow> g_fips_cb env' = g_fips_cb env \<and>
     (if ret \<in> health_errs
      then ec_is_fips_enabled ec' \<and> ec_health_failure ec' \<noteq> 0 \<and> ret = jent_health_err (ec_health_failure ec') \<and>
        g_fips_cb_calls env' = g_fips_cb_calls env @
          (case g_fips_cb env of None \<Rightarrow> [] | Some cb \<Rightarrow> [(cb, ec_health_failure ec')])
      else g_fips_cb_calls env' = g_fips_cb_calls env)"

lemma rest_cb: "rest env' = rest env \<Longrightarrow> g_fips_cb env' = g_fips_cb env \<and> g_fips_cb_calls env' = g_fips_cb_calls env"
proof -
  have "g_fips_cb (rest e) = g_fips_cb e" "g_fips_cb_calls (rest e) = g_fips_cb_calls e" for e
    by (simp_all add: rest_def)
  then show "rest env' = rest env \<Longrightarrow> ?thesis"
    by metis
qed

lemma health_failure_reported:
  "jent_health_failure ec env = (h, env') \<Longrightarrow> h \<noteq> 0 \<Longrightarrow> reported (jent_health_err h) ec env env'"
  by (auto simp: jent_health_failure_def jent_health_failure_query_def Let_def reported_def health_errs_mem
      split: if_splits option.splits)

lemma reported_after:
  "g_fips_cb env = g_fips_cb env0 \<Longrightarrow> g_fips_cb_calls env = g_fips_cb_calls env0 \<Longrightarrow> reported ret ec' env env' \<Longrightarrow>
   reported ret ec' env0 env'"
  by (simp add: reported_def)

lemma read_loop_reported:
  "read_loop (jent_random_data fuel) len p buf ec env = Some (ret, q, buf', ec', env') \<Longrightarrow> reported ret ec' env env'"
proof (induction len arbitrary: p buf ec env rule: less_induct)
  case (less len)
  show ?case
  proof (cases "len = 0 \<or> ec_selftest_failed ec")
    case True
    with less.prems show ?thesis
      by (cases "len = 0") (auto simp: read_loop_stop reported_def health_errs_mem)
  next
    case False
    with less.prems obtain ec1 env1 where rd: "jent_random_data fuel ec env = Some (ec1, env1)"
      by (auto simp: read_loop.simps [of _ len] elim!: bind_pairE)
    note r = rest_cb [OF conjunct2 [OF keepsD [OF random_data_keeps rd]]]
    obtain h env2 where h: "jent_health_failure ec1 env1 = (h, env2)"
      by fastforce
    define k where "k = min len 32"
    obtain ec2 blk where blk: "jent_read_random_block ec1 k = (ec2, blk)"
      by fastforce
    have step: "read_loop (jent_random_data fuel) len p buf ec env =
      (if h \<noteq> 0 then Some (jent_health_err h, p, buf, ec1, env2)
       else read_loop (jent_random_data fuel) (len - k) (p + k) (memcpy_at buf p blk) ec2 env2)"
      using False rd h blk by (simp add: read_loop_block k_def)
    show ?thesis
    proof (cases "h = 0")
      case h0: False
      with step less.prems have "ret = jent_health_err h" "ec' = ec1" "env' = env2"
        by simp_all
      with health_failure_reported [OF h h0] r show ?thesis
        by (auto intro: reported_after)
    next
      case True
      have "len - k < len" "env2 = env1"
        using False h True by (simp_all add: k_def health_failure_zero)
      with less.IH [of "len - k" "p + k" "memcpy_at buf p blk" ec2 env2] step True less.prems r show ?thesis
        by (auto intro: reported_after)
    qed
  qed
qed

lemma settick_cb:
  "jent_notime_settick ec env = (ret, ec', env') \<Longrightarrow> g_fips_cb env' = g_fips_cb env \<and> g_fips_cb_calls env' = g_fips_cb_calls env"
  by (auto simp: jent_notime_settick_def jent_notime_start_def Let_def split: if_splits)

lemma read_entropy_from_reported:
  assumes "read_entropy_from fuel ec data len env = Some (ret, ec', data', env')"
  shows "reported ret ec' env env'"
proof (cases "len = 0")
  case True
  obtain h env1 where h: "jent_health_failure ec env = (h, env1)"
    by fastforce
  have z: "env1 = env" if "h = 0"
    using h that by (simp add: health_failure_zero)
  from True assms h z health_failure_reported [OF h] show ?thesis
    by (cases "h = 0") (auto simp: read_entropy_from_def reported_def health_errs_mem split: if_splits)
next
  case False
  define n where "n = (if len > ssize_max then ssize_max else len)"
  obtain st ec0 env0 where tick: "jent_notime_settick ec env = (st, ec0, env0)"
    by (cases "jent_notime_settick ec env")
  show ?thesis
  proof (cases "st = 0")
    case st: False
    with False assms tick settick_cb [OF tick] show ?thesis
      by (auto simp: read_entropy_from_def Let_def reported_def health_errs_mem)
  next
    case True
    note body = read_entropy_from_body [OF False tick [unfolded True] n_def, of fuel data]
    obtain r q buf ec1 where
      loop: "read_loop (jent_random_data fuel) (unat n) 0 data ec0 env0 = Some (r, q, buf, ec1, env')" and
      res: "ret = (if r \<noteq> 0 then r else int (unat n))" "ec' = (if r = 0 then (jent_notime_unsettick ec1)\<lparr>
           ec_read_invocations := ec_read_invocations (jent_notime_unsettick ec1) + 1,
           ec_bytes_output := ec_bytes_output (jent_notime_unsettick ec1) + n\<rparr> else jent_notime_unsettick ec1)"
      using assms unfolding body by (elim bind_quintE) (simp only: option.inject prod.inject that)
    have "ec_health_failure ec' = ec_health_failure ec1" "ec_is_fips_enabled ec' = ec_is_fips_enabled ec1"
      unfolding res(2) by (simp_all add: jent_notime_unsettick_def)
    moreover have "reported r ec1 env env'"
      using reported_after [OF _ _ read_loop_reported [OF loop]] settick_cb [OF tick] by blast
    ultimately have r: "reported r ec' env env'"
      by (simp add: reported_def cong: option.case_cong)
    show ?thesis
    proof (cases "r = 0")
      case True
      with r health_errs_mem(2) health_errs_mem(3) [of "unat n"] show ?thesis
        unfolding res(1) reported_def by simp
    qed (use r res(1) in simp)
  qed
qed

text \<open>C25: the failure callback of the application and the result of a read agree. A read that returns with the
  code of a health failure runs in FIPS mode and has called the registered callback exactly once, with the
  failure bits the tests have set, and its code is the one of these bits; a read that succeeds or fails
  for another reason has not called it, however many blocks it has collected.\<close>

theorem read_callback_agrees:
  assumes "jent_read_entropy fuel (Some ec) data len env = Some (ret, Some ec', data', env')"
  shows "if ret \<in> health_errs
    then ec_is_fips_enabled ec' \<and> ec_health_failure ec' \<noteq> 0 \<and> ret = jent_health_err (ec_health_failure ec') \<and>
      g_fips_cb_calls env' = g_fips_cb_calls env @
        (case g_fips_cb env of None \<Rightarrow> [] | Some cb \<Rightarrow> [(cb, ec_health_failure ec')])
    else g_fips_cb_calls env' = g_fips_cb_calls env"
proof (cases "data = None \<and> len > 0")
  case True
  with assms show ?thesis
    by (simp add: jent_read_entropy_def health_errs_mem)
next
  case False
  with assms obtain d where "read_entropy_from fuel ec (case data of Some b \<Rightarrow> b | None \<Rightarrow> []) len env = Some (ret, ec', d, env')"
    by (auto simp: jent_read_entropy_def bind_eq_Some_conv)
  from read_entropy_from_reported [OF this] show ?thesis
    by (simp add: reported_def)
qed

theorem read_callback_agrees_witness:
  "\<exists>ret ec'. jent_read_entropy 0 (Some (zero_rand_data\<lparr>ec_is_fips_enabled := True, ec_health_failure := JENT_APT_FAILURE\<rparr>))
     None 0 (start_env\<lparr>g_fips_cb := Some 4\<rparr>) =
     Some (ret, Some ec', None, start_env\<lparr>g_fips_cb := Some 4, g_fips_cb_calls := [(4, JENT_APT_FAILURE)]\<rparr>) \<and>
     ret = JENT_ERR_APT \<and> ret = jent_health_err (ec_health_failure ec')"
proof -
  let ?ec = "zero_rand_data\<lparr>ec_is_fips_enabled := True, ec_health_failure := JENT_APT_FAILURE\<rparr>"
  let ?env = "start_env\<lparr>g_fips_cb := Some 4\<rparr>" and ?env' = "start_env\<lparr>g_fips_cb := Some 4, g_fips_cb_calls := [(4, JENT_APT_FAILURE)]\<rparr>"
  have e: "jent_read_entropy 0 (Some ?ec) None 0 ?env = Some (JENT_ERR_APT, Some ?ec, None, ?env')"
    by (simp add: jent_read_entropy_def read_entropy_from_def jent_health_failure_def jent_health_failure_query_def
        start_env_def jent_health_err_def has_def failure_masks)
  from read_callback_agrees [OF e] e show ?thesis
    by (auto simp: health_errs_def)
qed

end
