(* ===== verification/Jent_World.thy ===== *)
theory Jent_World
  imports Jent_Read
begin

text \<open>
  How the world evolves under the operations of the library, and what an allocated collector looks like.
  Every operation keeps the divisor of a clock once it is set, the forced internal timer, the closed
  configuration windows and what was configured through them. What it does to the memory is a transition
  between the blocks it takes over and the blocks it hands on, in any surrounding memory.
\<close>

subsection \<open>Evolution of the world\<close>

definition closed :: "jent_env \<Rightarrow> bool" where
  "closed env \<longleftrightarrow> g_notime_switch_blocked env \<and> g_health_cb_switch_blocked env"

definition evolves :: "jent_env \<Rightarrow> jent_env \<Rightarrow> bool" where
  "evolves env env' \<longleftrightarrow> env_fips env' = env_fips env \<and>
     length (g_timer_gcd env') = length (g_timer_gcd env) \<and>
     (\<forall>i < length (g_timer_gcd env). g_timer_gcd env ! i \<noteq> 0 \<longrightarrow> g_timer_gcd env' ! i = g_timer_gcd env ! i) \<and>
     (g_force_internal_timer env \<longrightarrow> g_force_internal_timer env') \<and>
     (g_notime_switch_blocked env \<longrightarrow> g_notime_switch_blocked env' \<and>
        g_notime_cpu env' = g_notime_cpu env \<and> g_notime_thread env' = g_notime_thread env) \<and>
     (g_health_cb_switch_blocked env \<longrightarrow> g_health_cb_switch_blocked env' \<and> g_fips_cb env' = g_fips_cb env) \<and>
     (g_selftest_run env' \<longrightarrow> g_selftest_run env \<or> closed env')"

lemma evolves_refl [simp]: "evolves env env"
  by (simp add: evolves_def)

lemma evolves_trans [trans]: "evolves a b \<Longrightarrow> evolves b c \<Longrightarrow> evolves a c"
  by (auto simp: evolves_def closed_def)

lemma evolves_closed: "evolves env env' \<Longrightarrow> closed env \<Longrightarrow> closed env'"
  by (simp add: evolves_def closed_def)

subsection \<open>Memory\<close>

text \<open>The live blocks, as long as no call of the deallocator was wrong.\<close>

definition owns :: "jent_env \<Rightarrow> mem_size multiset \<Rightarrow> bool" where
  "owns env H \<longleftrightarrow> env_heap env = H \<and> \<not> env_bad_free env"

text \<open>From \<open>env\<close> to \<open>env'\<close> the library evolves, takes over the blocks \<open>A\<close> and hands on the blocks \<open>B\<close>;
  the handler of the counting thread, which says how its context is released, is the same.\<close>

definition steps :: "mem_size multiset \<Rightarrow> mem_size multiset \<Rightarrow> jent_env \<Rightarrow> jent_env \<Rightarrow> bool" where
  "steps A B env env' \<longleftrightarrow> evolves env env' \<and> g_notime_thread env' = g_notime_thread env \<and>
     (\<forall>F. owns env (F + A) \<longrightarrow> owns env' (F + B))"

lemma steps_refl [simp]: "steps A A env env"
  by (simp add: steps_def)

lemma steps_trans [trans]: "steps A B a b \<Longrightarrow> steps B C b c \<Longrightarrow> steps A C a c"
  by (auto simp: steps_def intro: evolves_trans)

lemma steps_frame: "steps A B env env' \<Longrightarrow> steps (A + D) (B + D) env env'"
proof -
  assume "steps A B env env'"
  then have s: "evolves env env'" "g_notime_thread env' = g_notime_thread env" "\<And>F. owns env (F + A) \<Longrightarrow> owns env' (F + B)"
    by (simp_all add: steps_def)
  have "owns env' (F + (B + D))" if "owns env (F + (A + D))" for F
    using s(3) [of "F + D"] that by (simp add: ac_simps)
  with s(1,2) show ?thesis
    by (simp add: steps_def)
qed

lemma steps_frame0: "steps {#} B env env' \<Longrightarrow> steps D (B + D) env env'"
  using steps_frame [of "{#}" B env env' D] by simp

lemma steps_same: "steps {#} {#} env env' \<Longrightarrow> steps D D env env'"
  using steps_frame0 [of "{#}"] by simp

lemma steps_evolves: "steps A B env env' \<Longrightarrow> evolves env env'"
  by (simp add: steps_def)

lemma steps_thread: "steps A B env env' \<Longrightarrow> g_notime_thread env' = g_notime_thread env"
  by (simp add: steps_def)

lemma steps_fips: "steps A B env env' \<Longrightarrow> env_fips env' = env_fips env"
  by (simp add: steps_def evolves_def)

text \<open>The fields the relation looks at.\<close>

definition seen :: "jent_env \<Rightarrow> _" where
  "seen env = (env_fips env, g_timer_gcd env, g_force_internal_timer env, g_notime_switch_blocked env,
     g_health_cb_switch_blocked env, g_notime_cpu env, g_notime_thread env, g_fips_cb env, g_selftest_run env,
     env_heap env, env_bad_free env)"

lemma seen_steps: "seen env' = seen env \<Longrightarrow> steps A A env env'"
  by (auto simp: seen_def evolves_def steps_def owns_def)

lemma seen_upd [simp]:
  "seen (env\<lparr>env_zalloc_pos := n\<rparr>) = seen env" "seen (env\<lparr>env_thread_pos := n\<rparr>) = seen env"
  "seen (env\<lparr>env_clock_pos := n\<rparr>) = seen env" "seen (env\<lparr>env_tick_pos := n\<rparr>) = seen env"
  "seen (env\<lparr>env_random_pos := n\<rparr>) = seen env" "seen (env\<lparr>g_uuid_counter := u\<rparr>) = seen env"
  "seen (env\<lparr>g_fips_cb_calls := l\<rparr>) = seen env"
  by (simp_all add: seen_def)

lemma rest_seen: "rest env' = rest env \<Longrightarrow> seen env' = seen env"
proof -
  have "seen (rest e) = seen e" for e
    by (simp add: rest_def)
  then show "rest env' = rest env \<Longrightarrow> seen env' = seen env"
    by metis
qed

lemma keeps_steps: "keeps rd \<Longrightarrow> rd ec env = Some (ec', env') \<Longrightarrow> steps A A env env'"
  by (auto intro: seen_steps rest_seen dest: keepsD)

lemma health_failure_seen: "jent_health_failure ec env = (h, env') \<Longrightarrow> seen env' = seen env"
  by (auto simp: jent_health_failure_def Let_def split: if_splits option.splits)

lemma settick_seen: "jent_notime_settick ec env = (ret, ec', env') \<Longrightarrow> seen env' = seen env"
  by (auto simp: jent_notime_settick_def jent_notime_start_def Let_def split: if_splits)

lemma store_steps: "steps A A env (env\<lparr>g_timer_gcd := jent_gcd_store (g_timer_gcd env) g notime\<rparr>)"
proof -
  have "evolves env (env\<lparr>g_timer_gcd := jent_gcd_store (g_timer_gcd env) g notime\<rparr>)"
    by (auto simp: evolves_def jent_gcd_store_def jent_atomic_cmpxchg_u32_def) (metis nth_list_update_neq)
  then show ?thesis
    by (simp add: steps_def owns_def)
qed

lemma zalloc_steps:
  assumes "jent_zalloc len flags env = (ok, env')"
  shows "steps {#} (if ok then {#len#} else {#}) env env'"
proof -
  have e: "env' = alloc_block ok len env"
    using assms by (auto simp: jent_zalloc_def Let_def)
  show ?thesis
    by (simp add: e alloc_block_def steps_def evolves_def owns_def)
qed

lemma zalloc_unlocked_steps:
  assumes "jent_zalloc_unlocked len env = (ok, env')"
  shows "steps {#} (if ok then {#Bytes (unat len)#} else {#}) env env'"
proof -
  have e: "env' = alloc_block ok (Bytes (unat len)) env"
    using assms by (auto simp: jent_zalloc_unlocked_def Let_def)
  show ?thesis
    by (simp add: e alloc_block_def steps_def evolves_def owns_def)
qed

lemma zfree_steps: "steps {#len#} {#} env (jent_zfree len len env)"
  by (simp add: jent_zfree_def steps_def evolves_def owns_def)

text \<open>The blocks of a collector under a handler, and freeing a collector whose address mask matches its memory.\<close>

definition mem_block :: "rand_data \<Rightarrow> mem_size multiset" where
  "mem_block ec = (case ec_mem ec of None \<Rightarrow> {#} | Some mem \<Rightarrow> {#Bytes (length mem)#})"

definition ctx_block :: "notime_handler \<Rightarrow> rand_data \<Rightarrow> mem_size multiset" where
  "ctx_block th ec = (if ec_notime_thread_ctx ec \<noteq> None \<and> th = Notime_Builtin then {#Sizeof_notime_ctx#} else {#})"

definition ec_blocks :: "notime_handler \<Rightarrow> rand_data \<Rightarrow> mem_size multiset" where
  "ec_blocks th ec = {#Sizeof_rand_data#} + mem_block ec + ctx_block th ec"

definition held :: "notime_handler \<Rightarrow> rand_data option \<Rightarrow> mem_size multiset" where
  "held th c = (case c of None \<Rightarrow> {#} | Some ec \<Rightarrow> ec_blocks th ec)"

lemma held_simps [simp]: "held th None = {#}" "held th (Some ec) = ec_blocks th ec"
  by (simp_all add: held_def)

lemma ec_blocks_cfg: "cfg ec' = cfg ec \<Longrightarrow> ec_blocks th ec' = ec_blocks th ec"
proof -
  have mem: "mem_block ec = (case map_option length (ec_mem ec) of None \<Rightarrow> {#} | Some n \<Rightarrow> {#Bytes n#})" for ec
    by (simp add: mem_block_def split: option.splits)
  assume "cfg ec' = cfg ec"
  then have "map_option length (ec_mem ec') = map_option length (ec_mem ec)" "ec_notime_thread_ctx ec' = ec_notime_thread_ctx ec"
    by (simp_all add: cfg_def)
  then show ?thesis
    by (simp only: ec_blocks_def ctx_block_def mem)
qed

definition mem_match :: "rand_data \<Rightarrow> bool" where
  "mem_match ec \<longleftrightarrow> (case ec_mem ec of None \<Rightarrow> True | Some mem \<Rightarrow> length mem = Suc (unat (ec_memmask ec)))"

lemma mem_match_cfg: "cfg ec' = cfg ec \<Longrightarrow> mem_match ec \<Longrightarrow> mem_match ec'"
  by (auto simp: cfg_def mem_match_def split: option.splits)

lemma disable_steps:
  assumes "jent_notime_disable ec env = (ec', env')"
  shows "steps (ctx_block (g_notime_thread env) ec) {#} env env' \<and> ec' = ec\<lparr>ec_notime_thread_ctx := None\<rparr>"
  using assms zfree_steps
  by (auto simp: jent_notime_disable_def jent_notime_fini_def ctx_block_def split: if_splits notime_handler.splits)

lemma unsettick_fields: "ctx_block th (jent_notime_unsettick ec) = ctx_block th ec"
  "ec_mem (jent_notime_unsettick ec) = ec_mem ec" "ec_memmask (jent_notime_unsettick ec) = ec_memmask ec"
  by (simp_all add: jent_notime_unsettick_def ctx_block_def)

lemma free_steps:
  assumes "mem_match ec" "th = g_notime_thread env"
  shows "steps (ec_blocks th ec) {#} env (jent_entropy_collector_free (Some ec) env)"
proof -
  let ?ctx = "ctx_block th ec" and ?mem = "mem_block ec"
  obtain ec1 env1 where d: "jent_notime_disable (jent_notime_unsettick ec) env = (ec1, env1)"
    by fastforce
  note ds = disable_steps [OF d, unfolded unsettick_fields, folded assms(2)]
  define env2 where "env2 = (case ec_mem ec1 of None \<Rightarrow> env1
    | Some mem \<Rightarrow> jent_zfree (Bytes (length mem)) (Bytes (unat (ec_memmask ec1) + 1)) env1)"
  have ec1: "ec_mem ec1 = ec_mem ec" "ec_memmask ec1 = ec_memmask ec"
    using ds by (simp_all add: unsettick_fields)
  have "steps ?mem {#} env1 env2"
    using assms(1) zfree_steps unfolding env2_def ec1 by (auto simp: mem_match_def mem_block_def split: option.splits)
  note m = steps_frame [OF this, of "{#Sizeof_rand_data#}"]
  have free: "jent_entropy_collector_free (Some ec) env = jent_zfree Sizeof_rand_data Sizeof_rand_data env2"
    by (simp add: jent_entropy_collector_free_def d env2_def)
  have "steps (?ctx + (?mem + {#Sizeof_rand_data#})) ({#} + (?mem + {#Sizeof_rand_data#})) env env1"
    using ds by (intro steps_frame) blast
  then have "steps (?ctx + (?mem + {#Sizeof_rand_data#})) {#} env (jent_entropy_collector_free (Some ec) env)"
    unfolding free using m zfree_steps by (auto elim!: steps_trans)
  then show ?thesis
    unfolding ec_blocks_def by (simp add: ac_simps)
qed

text \<open>The history of the startup measurement, and the self test that has one of its own.\<close>

lemma gcd_init_steps:
  assumes "jent_gcd_init n flags env = (h, env')"
  shows "steps {#} (if h = None then {#} else {#Bytes (n * 8)#}) env env' \<and> (\<forall>x. h = Some x \<longrightarrow> length x = n)"
proof -
  obtain ok env1 where z: "jent_zalloc (Bytes (n * 8)) flags env = (ok, env1)"
    by fastforce
  with assms have "h = (if ok then Some (replicate n 0) else None)" "env' = env1"
    by (auto simp: jent_gcd_init_def split: if_splits)
  with zalloc_steps [OF z] show ?thesis
    by (auto split: if_splits)
qed

lemma gcd_fini_steps: "length h = n \<Longrightarrow> steps {#Bytes (n * 8)#} {#} env (jent_gcd_fini (Some h) n env)"
  by (simp add: jent_gcd_fini_def zfree_steps)

lemma gcd_selftest_steps: "steps {#} {#} env (snd (jent_gcd_selftest flags env))"
proof -
  obtain h env1 where i: "jent_gcd_init 10 flags env = (h, env1)"
    by fastforce
  note s = gcd_init_steps [OF i]
  show ?thesis
  proof (cases h)
    case None
    with s i show ?thesis
      by (simp add: jent_gcd_selftest_def)
  next
    case (Some x)
    have len: "length (foldl (\<lambda>h i. jent_gcd_add_value h (of_nat i * 3) i) l is) = length l" for l :: "u64 list" and "is"
      by (induction "is" arbitrary: l) (simp_all add: jent_gcd_add_value_def)
    define y where "y = foldl (\<lambda>h i. jent_gcd_add_value h (of_nat i * 3) i) x [0..<10]"
    have "length y = 10"
      using s Some by (simp add: y_def len)
    from gcd_fini_steps [OF this, of env1] have "steps {#} {#} env (jent_gcd_fini (Some y) 10 env1)"
      using s Some by (auto elim: steps_trans)
    with i Some show ?thesis
      by (simp add: jent_gcd_selftest_def Let_def y_def [symmetric])
  qed
qed

subsection \<open>What an allocation returns\<close>

text \<open>The work of the noise sources of a collector is what its flags say, and a memory size that the caller
  has chosen is in them.\<close>

definition sized :: "rand_data \<Rightarrow> bool" where
  "sized ec \<longleftrightarrow> ec_hashloopcnt ec = jent_hashloop_cnt (ec_flags ec) \<and>
     (ec_max_mem_set ec \<longrightarrow> JENT_FLAGS_TO_MAX_MEMSIZE (ec_flags ec) \<noteq> 0) \<and>
     map_option length (ec_mem ec) =
       (if has (ec_flags ec) JENT_DISABLE_MEMORY_ACCESS then None else Some (unat (jent_memsize (ec_flags ec))))"

lemma sized_cfg: "cfg ec' = cfg ec \<Longrightarrow> sized ec' = sized ec"
  by (simp add: sized_def cfg_def)

text \<open>Flags that stand for the same work, where the memory size is given.\<close>

definition same_work :: "u32 \<Rightarrow> u32 \<Rightarrow> bool" where
  "same_work f f' \<longleftrightarrow> jent_hashloop_cnt f' = jent_hashloop_cnt f \<and>
     (JENT_FLAGS_TO_MAX_MEMSIZE f \<noteq> 0 \<longrightarrow> JENT_FLAGS_TO_MAX_MEMSIZE f' \<noteq> 0 \<and> jent_memsize f' = jent_memsize f)"

lemma same_work_refl [simp]: "same_work f f"
  by (simp add: same_work_def)

lemma same_work_trans: "same_work f g \<Longrightarrow> same_work g h \<Longrightarrow> same_work f h"
  by (simp add: same_work_def)

lemma same_work_updates: "same_work f (jent_update_memsize cache f 0)" "same_work f (jent_update_hashloop f 0)"
  using memsize_step(2,3) [of f] by (auto simp: same_work_def field_disjoint hashloop_step)

text \<open>A collector as it leaves the allocation, for the effective rate and flags.\<close>

definition fresh :: "bool \<Rightarrow> u32 \<Rightarrow> u32 \<Rightarrow> rand_data \<Rightarrow> bool" where
  "fresh fips osr flags ec \<longleftrightarrow> mem_ok ec \<and> ec_common_timer_gcd ec \<noteq> 0 \<and> ec_osr ec = osr \<and>
     cutoffs_ok ec \<and> lag_ok ec \<and> unat (ec_rct_cutoff_permanent ec) \<le> 1200 \<and> drbg_mem ec \<and>
     ec_health_failure ec = 0 \<and> ec_rct_count ec = 0 \<and> \<not> ec_in_recovery ec \<and> \<not> ec_selftest_failed ec \<and>
     ec_rct_mem_ctr ec = 0 \<and> ec_rct_mem_nosr ec = 0 \<and>
     ec_is_fips_enabled ec = (has flags JENT_FORCE_FIPS \<or> has flags JENT_NTG1 \<or> fips) \<and>
     ec_startup_state ec = (if ec_is_fips_enabled ec then jent_startup_memory else jent_startup_completed) \<and>
     (has flags JENT_DISABLE_INTERNAL_TIMER \<longrightarrow> \<not> ec_enable_notime ec) \<and>
     (\<forall>n < 23. bit (ec_flags ec) n = bit flags n) \<and> sized ec \<and> same_work flags (ec_flags ec)"

lemma has_bit: "has f JENT_FORCE_FIPS = bit f 5" "has f JENT_NTG1 = bit f 6" "has f JENT_DISABLE_INTERNAL_TIMER = bit f 4"
  "has f JENT_FORCE_INTERNAL_TIMER = bit f 3" "has f JENT_DISABLE_MEMORY_ACCESS = bit f 2" "has f JENT_INT_MEASURE_CLOCK = bit f 22"
proof -
  have pow: "has f (2 ^ k) = bit f k" if "k < 32" for k
    using that by (simp add: has_def and_exp_eq_0_iff_not_bit)
  show "has f JENT_FORCE_FIPS = bit f 5" "has f JENT_NTG1 = bit f 6" "has f JENT_DISABLE_INTERNAL_TIMER = bit f 4"
    "has f JENT_FORCE_INTERNAL_TIMER = bit f 3" "has f JENT_DISABLE_MEMORY_ACCESS = bit f 2" "has f JENT_INT_MEASURE_CLOCK = bit f 22"
    using pow [of 5] pow [of 6] pow [of 4] pow [of 3] pow [of 2] pow [of 22] by (simp_all add: flag_defs)
qed

lemma timer_bits: "bit JENT_FORCE_INTERNAL_TIMER n \<longleftrightarrow> n = 3" "bit JENT_DISABLE_INTERNAL_TIMER n \<longleftrightarrow> n = 4"
proof -
  have e: "JENT_FORCE_INTERNAL_TIMER = 2 ^ 3" "JENT_DISABLE_INTERNAL_TIMER = 2 ^ 4"
    by (simp_all add: JENT_FORCE_INTERNAL_TIMER_def JENT_DISABLE_INTERNAL_TIMER_def)
  show "bit JENT_FORCE_INTERNAL_TIMER n \<longleftrightarrow> n = 3" "bit JENT_DISABLE_INTERNAL_TIMER n \<longleftrightarrow> n = 4"
    unfolding e bit_exp_iff by auto
qed

lemma collector_memory_spec:
  assumes "collector_memory flags ec env = (ok, flags', ec', env')" "ec_mem ec = None" "ec_memlocation ec = 0"
  shows "steps {#} (mem_block ec') env env' \<and> mem_match ec' \<and> mem_ok ec' \<and> (\<forall>n < 23. bit flags' n = bit flags n) \<and>
    same_work flags flags' \<and> (ok \<longrightarrow> map_option length (ec_mem ec') =
      (if has flags JENT_DISABLE_MEMORY_ACCESS then None else Some (unat (jent_memsize flags')))) \<and>
    (\<exists>m k l. ec' = ec\<lparr>ec_mem := m, ec_memmask := k, ec_memaccessloops := l\<rparr>)"
proof -
  have "ec = ec\<lparr>ec_mem := ec_mem ec, ec_memmask := ec_memmask ec, ec_memaccessloops := ec_memaccessloops ec\<rparr>"
    by simp
  then have same: "\<exists>m k l. ec = ec\<lparr>ec_mem := m, ec_memmask := k, ec_memaccessloops := l\<rparr>"
    by (intro exI)
  define f where "f = jent_update_memsize (env_cache env) flags 0"
  define m where "m = jent_memsize f"
  have e: "unat m = 2 ^ (if JENT_FLAGS_TO_MAX_MEMSIZE f = 0 then 18 else min 20 (unat (JENT_FLAGS_TO_MAX_MEMSIZE f)) + 9)"
    by (simp only: m_def memsize_eq)
  have "(if JENT_FLAGS_TO_MAX_MEMSIZE f = 0 then 18 else min 20 (unat (JENT_FLAGS_TO_MAX_MEMSIZE f)) + 9) \<le> (29 :: nat)"
    by simp
  then have m: "0 < unat m" "unat m \<le> 2 ^ 29"
    unfolding e by (simp, intro power_increasing) simp_all
  then have "m \<noteq> 0"
    by auto
  from unat_minus_one [OF this] m(1) have m1: "Suc (unat (m - 1)) = unat m"
    by simp
  obtain b env1 where z: "jent_zalloc_unlocked m env = (b, env1)"
    by fastforce
  note zs = zalloc_unlocked_steps [OF z]
  have f: "same_work flags f" "\<forall>n < 23. bit f n = bit flags n"
    by (simp_all add: f_def same_work_updates update_memsize_other)
  consider "has flags JENT_DISABLE_MEMORY_ACCESS" | "\<not> has flags JENT_DISABLE_MEMORY_ACCESS" "\<not> b"
    | "\<not> has flags JENT_DISABLE_MEMORY_ACCESS" b
    by blast
  then show ?thesis
  proof cases
    case 1
    with assms same show ?thesis
      by (simp add: collector_memory_def mem_match_def mem_ok_def mem_block_def)
  next
    case 2
    then have "collector_memory flags ec env = (False, f, ec, env1)"
      using z by (simp add: collector_memory_def Let_def f_def m_def)
    with assms(1) have r: "ec' = ec" "flags' = f" "env' = env1"
      by simp_all
    show ?thesis
      using assms 2 \<open>collector_memory flags ec env = (False, f, ec, env1)\<close> same zs f
      unfolding r by (simp add: mem_match_def mem_ok_def mem_block_def)
  next
    case 3
    let ?ec = "ec\<lparr>ec_mem := Some (replicate (unat m) 0), ec_memmask := m - 1, ec_memaccessloops := JENT_MEM_ACC_LOOP_DEFAULT\<rparr>"
    from 3 have "collector_memory flags ec env = (True, f, ?ec, env1)"
      using z by (simp add: collector_memory_def Let_def f_def m_def)
    with assms(1) have r: "ec' = ?ec" "flags' = f" "env' = env1"
      by simp_all
    have "mem_match ?ec" "mem_ok ?ec"
      using m1 m assms(3) by (simp_all add: mem_match_def mem_ok_def)
    moreover have "steps {#} (mem_block ?ec) env env1"
      using zs 3 by (simp add: mem_block_def)
    moreover have "map_option length (ec_mem ?ec) = Some (unat (jent_memsize f))"
      by (simp add: m_def)
    ultimately show ?thesis
      unfolding r using f 3 by auto
  qed
qed

lemma collector_configure_spec:
  assumes "collector_configure fips osr flags ec = (flags', ec')"
    and "\<not> ec_is_fips_enabled ec" "ec_startup_state ec = jent_startup_completed"
  shows "(\<forall>n < 23. bit flags' n = bit flags n) \<and> same_work flags flags' \<and> jent_memsize flags' = jent_memsize flags \<and>
    (\<exists>s b. ec' = ec\<lparr>ec_hashloopcnt := jent_hashloop_cnt flags', ec_hash_state := jent_shake256_init (ec_hash_state ec), ec_startup_state := s,
       ec_is_fips_enabled := b, ec_osr := osr, ec_flags := flags'\<rparr> \<and>
       b = (has flags JENT_FORCE_FIPS \<or> has flags JENT_NTG1 \<or> fips) \<and>
       s = (if b then jent_startup_memory else jent_startup_completed))"
proof -
  define f where "f = jent_update_hashloop flags 0"
  have f: "\<forall>n < 23. bit f n = bit flags n" and w: "same_work flags f" "jent_memsize f = jent_memsize flags"
    by (simp_all add: f_def update_hashloop_other same_work_updates field_disjoint)
  then have "has f JENT_FORCE_FIPS = has flags JENT_FORCE_FIPS" "has f JENT_NTG1 = has flags JENT_NTG1"
    by (simp_all add: has_bit)
  note h = this
  define b where "b = (has flags JENT_FORCE_FIPS \<or> has flags JENT_NTG1 \<or> fips)"
  have r: "flags' = f" "ec' = snd (collector_configure fips osr flags ec)"
    using assms(1) by (auto simp: collector_configure_def Let_def f_def)
  have "ec' = ec\<lparr>ec_hashloopcnt := jent_hashloop_cnt f, ec_hash_state := jent_shake256_init (ec_hash_state ec),
      ec_startup_state := (if b then jent_startup_memory else jent_startup_completed), ec_is_fips_enabled := b,
      ec_osr := osr, ec_flags := f\<rparr>"
    unfolding r(2) collector_configure_def f_def [symmetric] Let_def
    by (rule rand_data.equality) (simp_all add: h b_def assms(2,3))
  with f w r(1) show ?thesis
    unfolding b_def by blast
qed

text \<open>An operation under which the world evolves and which leaves no memory behind.\<close>

definition evolving :: "(u32 \<Rightarrow> u32 \<Rightarrow> jent_env \<Rightarrow> ('r \<times> jent_env) option) \<Rightarrow> bool" where
  "evolving f \<longleftrightarrow> (\<forall>osr flags env r env'. f osr flags env = Some (r, env') \<longrightarrow> steps {#} {#} env env')"

lemma evolvingD: "evolving f \<Longrightarrow> f osr flags env = Some (r, env') \<Longrightarrow> steps A A env env'"
  unfolding evolving_def using steps_same by blast

lemma init_flags_steps:
  assumes "jent_notime_init_flags flags env = ((ret, ctx), env')"
  shows "steps {#} (if ret = 0 \<and> ctx \<noteq> None then {#Sizeof_notime_ctx#} else {#}) env env'"
proof -
  obtain ok env1 where z: "jent_zalloc Sizeof_notime_ctx flags env = (ok, env1)"
    by fastforce
  with assms zalloc_steps [OF z] show ?thesis
    by (auto simp: jent_notime_init_flags_def Let_def ENOENT_def ENOMEM_def split: if_splits)
qed

lemma enable_thread_spec:
  assumes "jent_notime_enable_thread ec flags env = (ret, ec', env')"
  shows "steps {#} (ctx_block (g_notime_thread env) ec') env env' \<and> (\<exists>c. ec' = ec\<lparr>ec_notime_thread_ctx := c\<rparr>)"
proof (cases "g_notime_thread env")
  case Notime_Builtin
  obtain r c env1 where i: "jent_notime_init_flags flags env = ((r, c), env1)"
    by (metis surj_pair)
  with assms Notime_Builtin init_flags_steps [OF i] show ?thesis
    by (auto simp: jent_notime_enable_thread_def ctx_block_def split: if_splits)
next
  case (Notime_External h)
  with assms show ?thesis
    by (auto simp: jent_notime_enable_thread_def ctx_block_def split: prod.splits)
qed

lemma notime_enable_spec:
  assumes tei: "evolving tei" and en: "jent_notime_enable tei ec flags env = Some (ret, ec', env')"
    and none: "ec_notime_thread_ctx ec = None"
  shows "steps {#} (ctx_block (g_notime_thread env) ec') env env' \<and> (\<exists>b c. ec' = ec\<lparr>ec_enable_notime := b, ec_notime_thread_ctx := c\<rparr>)"
proof -
  have no: "ctx_block th ec = {#}" for th
    by (simp add: ctx_block_def none)
  have "ec = ec\<lparr>ec_enable_notime := ec_enable_notime ec, ec_notime_thread_ctx := ec_notime_thread_ctx ec\<rparr>"
    by simp
  then have same: "\<exists>b c. ec = ec\<lparr>ec_enable_notime := b, ec_notime_thread_ctx := c\<rparr>"
    by (intro exI)
  show ?thesis
  proof (cases "g_force_internal_timer env \<or> has flags JENT_FORCE_INTERNAL_TIMER")
    case False
    with en same no show ?thesis
      by (simp add: jent_notime_enable_def)
  next
    case True
    from en obtain r env1 where m: "(if \<not> g_force_internal_timer env
          then tei (ec_osr ec) (flags OR JENT_FORCE_INTERNAL_TIMER) env else Some (0, env)) = Some (r, env1)"
      and k: "(if r \<noteq> 0 then Some (EHEALTH, ec, env1)
        else Some (jent_notime_enable_thread (ec\<lparr>ec_enable_notime := True\<rparr>) flags env1)) = Some (ret, ec', env')"
      using True by (simp only: jent_notime_enable_def Let_def if_True) (elim bind_pairE, blast)
    have e1: "steps {#} {#} env env1"
      using m evolvingD [OF tei] by (auto split: if_splits)
    show ?thesis
    proof (cases "r = 0")
      case False
      with k e1 same no show ?thesis
        by simp
    next
      case True
      with k enable_thread_spec [of "ec\<lparr>ec_enable_notime := True\<rparr>" flags env1 ret ec' env'] e1 steps_thread [OF e1]
      show ?thesis
        by (auto intro: steps_trans)
    qed
  qed
qed

lemma health_init_lag_ok: "lag_ok ec \<Longrightarrow> lag_ok (snd (jent_health_init ec t))"
  by (simp add: health_init_defs lag_ok_def Let_def jent_rct_init_def lag_consts split: jent_health_init_type.split)

lemma health_init_counters:
  "ec_rct_mem_ctr (snd (jent_health_init ec t)) = ec_rct_mem_ctr ec"
  "ec_rct_mem_nosr (snd (jent_health_init ec t)) = ec_rct_mem_nosr ec"
  by (simp_all add: health_init_defs Let_def jent_rct_init_def split: jent_health_init_type.split)

text \<open>The collector before the choice of its clock.\<close>

lemma configured_fresh:
  fixes flags :: u32 and osr :: u32
  assumes m: "collector_memory flags (zero_rand_data\<lparr>ec_max_mem_set := (JENT_FLAGS_TO_MAX_MEMSIZE flags \<noteq> 0)\<rparr>) env = (ok, f1, e1, env1)"
    and cf: "collector_configure fips osr f1 e1 = (f2, e2)"
    and hi: "jent_health_init e2 t = (ret, e3)"
    and osr: "1 \<le> osr" "osr \<le> JENT_MAX_OSR"
  shows "ret = 0 \<and> mem_match e3 \<and> (\<forall>n < 23. bit f2 n = bit flags n) \<and> \<not> ec_enable_notime e3 \<and>
    ec_notime_thread_ctx e3 = None \<and> ec_mem e3 = ec_mem e1 \<and> (ok \<longrightarrow> fresh fips osr flags (e3\<lparr>ec_common_timer_gcd := 1\<rparr>))"
proof -
  obtain mm k l where e1: "e1 = zero_rand_data\<lparr>ec_max_mem_set := (JENT_FLAGS_TO_MAX_MEMSIZE flags \<noteq> 0), ec_mem := mm, ec_memmask := k, ec_memaccessloops := l\<rparr>"
      "mem_match e1" "mem_ok e1" "\<forall>n < 23. bit f1 n = bit flags n"
    and w1: "same_work flags f1" "ok \<longrightarrow> map_option length (ec_mem e1) =
      (if has flags JENT_DISABLE_MEMORY_ACCESS then None else Some (unat (jent_memsize f1)))"
    using collector_memory_spec [OF m] by auto
  obtain s b where e2: "e2 = e1\<lparr>ec_hashloopcnt := jent_hashloop_cnt f2, ec_hash_state := jent_shake256_init (ec_hash_state e1),
      ec_startup_state := s, ec_is_fips_enabled := b, ec_osr := osr, ec_flags := f2\<rparr>"
      "b = (has f1 JENT_FORCE_FIPS \<or> has f1 JENT_NTG1 \<or> fips)"
      "s = (if b then jent_startup_memory else jent_startup_completed)" "\<forall>n < 23. bit f2 n = bit f1 n"
    and w2: "same_work f1 f2" "jent_memsize f2 = jent_memsize f1"
    using collector_configure_spec [OF cf] e1(1) by auto
  have o: "1 \<le> ec_osr e2" "ec_osr e2 \<le> JENT_MAX_OSR"
    using osr by (simp_all add: e2(1))
  have e3: "e3 = snd (jent_health_init e2 t)"
    by (simp add: hi)
  note fr = health_init_frame [OF o e3]
  have ok: "ret = 0" "cutoffs_ok e3"
    using health_init_cutoffs [OF o, of t] hi by simp_all
  have "lag_ok e2"
    by (simp add: lag_ok_def e2(1) e1(1) lag_consts)
  from health_init_lag_ok [OF this, of t] have lag: "lag_ok e3"
    by (simp add: e3)
  have c: "cfg e3 = cfg e2"
    using health_init_cfg e3 by simp
  have bits: "has f1 JENT_FORCE_FIPS = has flags JENT_FORCE_FIPS" "has f1 JENT_NTG1 = has flags JENT_NTG1"
    using e1(4) by (simp_all add: has_bit)
  have "mem_match e2" "mem_ok e2"
    using e1(2,3) by (simp_all add: e2(1) mem_match_def mem_ok_def split: option.splits)
  then have mem: "mem_match e3" "mem_ok e3"
    using fr by (simp_all add: mem_match_def mem_ok_def split: option.splits)
  have "drbg_mem e2" "\<not> ec_selftest_failed e2"
    by (simp_all add: drbg_mem_def e2(1) e1(1) jent_shake256_init_def jent_sha3_init_def zero_sha_ctx_def)
  with c have drbg: "drbg_mem e3" "\<not> ec_selftest_failed e3"
    using cfg_drbg_mem [OF c] by (simp_all add: cfg_def)
  have "has f2 JENT_DISABLE_MEMORY_ACCESS = has flags JENT_DISABLE_MEMORY_ACCESS"
    using e1(4) e2(4) by (simp add: has_bit)
  then have "sized e2" if ok
    using w1(2) w2(2) that same_work_trans [OF w1(1) w2(1)] by (simp add: sized_def e2(1) e1(1) same_work_def)
  then have work: "ok \<longrightarrow> sized e3" "same_work flags f2" "ec_notime_thread_ctx e3 = None"
    using sized_cfg [OF c] same_work_trans [OF w1(1) w2(1)] c by (auto simp: cfg_def e2(1) e1(1))
  have ctr: "ec_rct_mem_ctr e3 = 0" "ec_rct_mem_nosr e3 = 0"
    using health_init_counters [of e2 t] by (simp_all add: e3 e2(1) e1(1))
  show ?thesis
    using ok lag mem drbg ctr fr e2 e1 bits work
    by (simp add: fresh_def cutoffs_ok_def lag_ok_def mem_match_def mem_ok_def drbg_mem_def sized_def split: option.splits)
qed

lemma configured_max:
  assumes "collector_configure fips osr f1 e1 = (f2, e2)" "jent_health_init e2 t = (ret, e3)"
  shows "ec_max_mem_set e3 = ec_max_mem_set e1"
proof -
  have "cfg e3 = cfg e2"
    using health_init_cfg [of e2 t] assms(2) by simp
  moreover have "ec_max_mem_set e2 = ec_max_mem_set e1"
    using assms(1) by (auto simp: collector_configure_def Let_def split: if_splits)
  ultimately show ?thesis
    by (simp add: cfg_def)
qed

lemma gcd_get_nonzero:
  assumes "snd (jent_gcd_get tbl notime) = Some g"
  shows "g \<noteq> 0"
proof -
  have "x = 0" if "ucast x = (0 :: u64)" for x :: u32
  proof (rule bit_word_eqI)
    fix n
    assume "n < LENGTH(32)"
    then show "bit x n = bit 0 n"
      using arg_cong [OF that, of "\<lambda>w. bit w n"] by (simp add: bit_simps)
  qed
  with assms show ?thesis
    by (auto simp: jent_gcd_get_def jent_gcd_tested_def split: if_splits)
qed

lemma fresh_clock:
  assumes "fresh fips osr flags (ec\<lparr>ec_common_timer_gcd := 1\<rparr>)" "g \<noteq> 0" "has flags JENT_DISABLE_INTERNAL_TIMER \<longrightarrow> \<not> b"
  shows "fresh fips osr flags (ec\<lparr>ec_enable_notime := b, ec_notime_thread_ctx := c, ec_common_timer_gcd := g\<rparr>)"
  using assms by (simp add: fresh_def cutoffs_ok_def lag_ok_def mem_ok_def drbg_mem_def sized_def split: option.splits)

end
