(* ===== verification/Jent_Alloc.thy ===== *)
theory Jent_Alloc
  imports Jent_World
begin

text \<open>
  The allocation of a collector, the startup measurement of a clock and the initialization of the library:
  what they return, and that the world evolves under them.
\<close>

subsection \<open>Allocation\<close>

lemma collector_setup_spec:
  assumes tei: "evolving tei" and set: "collector_setup tei osr flags env = Some (c, env')"
    and osr: "1 \<le> osr" "osr \<le> JENT_MAX_OSR"
  shows "steps {#Sizeof_rand_data#} (held (g_notime_thread env) c) env env' \<and>
    (\<forall>ec. c = Some ec \<longrightarrow> fresh (env_fips env) osr flags ec \<and> (ec_max_mem_set ec \<longleftrightarrow> JENT_FLAGS_TO_MAX_MEMSIZE flags \<noteq> 0))"
proof -
  let ?th = "g_notime_thread env"
  let ?e0 = "zero_rand_data\<lparr>ec_max_mem_set := (JENT_FLAGS_TO_MAX_MEMSIZE flags \<noteq> 0)\<rparr>"
  obtain ok f1 e1 env1 where m: "collector_memory flags ?e0 env = (ok, f1, e1, env1)"
    by (cases "collector_memory flags ?e0 env")
  have ms: "steps {#} (mem_block e1) env env1" "mem_match e1" and e1: "ec_notime_thread_ctx e1 = None"
      "ec_max_mem_set e1 = (JENT_FLAGS_TO_MAX_MEMSIZE flags \<noteq> 0)"
    using collector_memory_spec [OF m] by auto
  have fips: "env_fips env1 = env_fips env" "g_notime_thread env1 = ?th"
    using steps_fips [OF ms(1)] steps_thread [OF ms(1)] by simp_all
  have mem: "steps {#Sizeof_rand_data#} ({#Sizeof_rand_data#} + mem_block e1) env env1"
    using steps_frame0 [OF ms(1), of "{#Sizeof_rand_data#}"] by (simp add: ac_simps)
  obtain f2 e2 where cf: "collector_configure (env_fips env) osr f1 e1 = (f2, e2)"
    by fastforce
  define t where "t = (if has f2 JENT_NTG1 then jent_health_init_type_ntg1 else jent_health_init_type_common)"
  obtain ret e3 where hi: "jent_health_init e2 t = (ret, e3)"
    by fastforce
  note fr = configured_fresh [OF m cf hi osr]
  show ?thesis
  proof (cases ok)
    case False
    have "ec_blocks ?th e1 = {#Sizeof_rand_data#} + mem_block e1"
      by (simp add: ec_blocks_def ctx_block_def e1)
    with False set m steps_trans [OF mem] free_steps [OF ms(2), of ?th env1] fips(2) show ?thesis
      by (auto simp: collector_setup_def Let_def)
  next
    case True
    with set fr have "do {
         (ret, ec, env) \<leftarrow> (if has f2 JENT_DISABLE_INTERNAL_TIMER then Some (0, e3, env1) else jent_notime_enable tei e3 f2 env1);
         if ret \<noteq> 0 then Some (None, jent_entropy_collector_free (Some ec) env)
         else case snd (jent_gcd_get (g_timer_gcd env) (ec_enable_notime ec)) of
                Some g \<Rightarrow> Some (Some (ec\<lparr>ec_common_timer_gcd := g\<rparr>), env)
              | None \<Rightarrow> if \<not> has f2 JENT_INT_MEASURE_CLOCK then Some (None, jent_entropy_collector_free (Some ec) env)
                        else Some (Some (ec\<lparr>ec_common_timer_gcd := 1\<rparr>), env) } = Some (c, env')"
      by (simp add: collector_setup_def Let_def m cf fips t_def [symmetric] hi)
    then obtain r e4 env2 where
      en: "(if has f2 JENT_DISABLE_INTERNAL_TIMER then Some (0, e3, env1) else jent_notime_enable tei e3 f2 env1) = Some (r, e4, env2)"
      and fin: "(if r \<noteq> 0 then Some (None, jent_entropy_collector_free (Some e4) env2)
         else case snd (jent_gcd_get (g_timer_gcd env2) (ec_enable_notime e4)) of
                Some g \<Rightarrow> Some (Some (e4\<lparr>ec_common_timer_gcd := g\<rparr>), env2)
              | None \<Rightarrow> if \<not> has f2 JENT_INT_MEASURE_CLOCK then Some (None, jent_entropy_collector_free (Some e4) env2)
                        else Some (Some (e4\<lparr>ec_common_timer_gcd := 1\<rparr>), env2)) = Some (c, env')"
      by (elim bind_tripleE)
    have self: "e3 = e3\<lparr>ec_enable_notime := False, ec_notime_thread_ctx := ec_notime_thread_ctx e3\<rparr>"
      and ctx: "ec_notime_thread_ctx e3 = None" "ec_mem e3 = ec_mem e1"
      using fr by simp_all
    obtain b cx where e4: "e4 = e3\<lparr>ec_enable_notime := b, ec_notime_thread_ctx := cx\<rparr>"
        "has f2 JENT_DISABLE_INTERNAL_TIMER \<longrightarrow> \<not> b" and ev: "steps {#} (ctx_block ?th e4) env1 env2"
    proof (cases "has f2 JENT_DISABLE_INTERNAL_TIMER")
      case True
      with en have "e4 = e3" "env2 = env1"
        by simp_all
      with that [OF trans [OF _ self]] ctx show thesis
        by (simp add: ctx_block_def)
    next
      case False
      with en notime_enable_spec [OF tei, of e3 f2 env1 r e4 env2] ctx that fips(2) show thesis
        by auto
    qed
    have "has flags JENT_DISABLE_INTERNAL_TIMER \<longrightarrow> \<not> b"
      using e4(2) fr by (simp add: has_bit)
    then have fresh: "fresh (env_fips env) osr flags (e4\<lparr>ec_common_timer_gcd := g\<rparr>)" if "g \<noteq> 0" for g
      using fresh_clock [of "env_fips env" osr flags e3 g b cx] fr \<open>ok\<close> that by (simp add: e4(1))
    have "mem_match e4" "g_notime_thread env2 = ?th"
      using fr fips(2) steps_thread [OF ev] by (simp_all add: e4(1) mem_match_def split: option.splits)
    note free = free_steps [OF this(1), of ?th env2, OF this(2) [symmetric]]
    have blocks: "ec_blocks ?th e4 = ctx_block ?th e4 + ({#Sizeof_rand_data#} + mem_block e1)"
      using ctx(2) by (simp add: ec_blocks_def mem_block_def e4(1))
    have e2: "steps {#Sizeof_rand_data#} (ec_blocks ?th e4) env env2"
      unfolding blocks by (rule steps_trans [OF mem steps_frame0 [OF ev]])
    have gcd: "ec_blocks ?th (e4\<lparr>ec_common_timer_gcd := g\<rparr>) = ec_blocks ?th e4" for g
      by (simp add: ec_blocks_def mem_block_def ctx_block_def)
    have max: "ec_max_mem_set e4 = (JENT_FLAGS_TO_MAX_MEMSIZE flags \<noteq> 0)"
      using configured_max [OF cf hi] e1(2) by (simp add: e4(1))
    show ?thesis
      using fin e2 steps_trans [OF e2 free] fresh gcd_get_nonzero max
      by (auto simp: gcd split: if_splits option.splits)
  qed
qed

text \<open>The flags an allocation works with.\<close>

definition effective :: "u32 \<Rightarrow> u32" where
  "effective flags = (if has flags JENT_NTG1 then flags OR JENT_DISABLE_INTERNAL_TIMER else flags)"

lemma ensure_osr_ge: "JENT_MIN_OSR \<le> ensure_osr_is_at_least_minimal osr" "osr \<le> ensure_osr_is_at_least_minimal osr"
  by (auto simp: ensure_osr_is_at_least_minimal_def not_less)

lemma secure_mem_bits: "n \<noteq> 8 \<Longrightarrow> bit (jent_update_secure_mem fips flags) n = bit flags n"
  using bit_exp_iff [of 8 n, where 'a = "32 word"]
  by (auto simp: jent_update_secure_mem_def JENT_FORCE_SECURE_MEM_def bit_or_iff)

text \<open>What is shown of an allocation.\<close>

definition alloc_result :: "u32 \<Rightarrow> u32 \<Rightarrow> jent_env \<Rightarrow> rand_data option \<Rightarrow> jent_env \<Rightarrow> bool" where
  "alloc_result osr flags env c env' \<longleftrightarrow> steps {#} (held (g_notime_thread env) c) env env' \<and>
     (\<forall>ec. c = Some ec \<longrightarrow> ensure_osr_is_at_least_minimal osr \<le> JENT_MAX_OSR \<and>
        fresh (env_fips env) (ensure_osr_is_at_least_minimal osr) (effective flags) ec \<and>
        (ec_max_mem_set ec \<longleftrightarrow> JENT_FLAGS_TO_MAX_MEMSIZE flags \<noteq> 0) \<and>
        (has flags JENT_INT_MEASURE_CLOCK \<or> g_selftest_run env \<or> closed env'))"

lemma alloc_resultD:
  assumes "alloc_result osr flags env c env'"
  shows "steps {#} (held (g_notime_thread env) c) env env'" "env_fips env' = env_fips env" "g_notime_thread env' = g_notime_thread env"
    "c = Some ec \<Longrightarrow> ensure_osr_is_at_least_minimal osr \<le> JENT_MAX_OSR"
    "c = Some ec \<Longrightarrow> fresh (env_fips env) (ensure_osr_is_at_least_minimal osr) (effective flags) ec"
    "c = Some ec \<Longrightarrow> ec_max_mem_set ec \<longleftrightarrow> JENT_FLAGS_TO_MAX_MEMSIZE flags \<noteq> 0"
  using assms by (auto simp: alloc_result_def dest: steps_fips steps_thread)

text \<open>An initialization closes the configuration windows.\<close>

definition closing :: "measure_op \<Rightarrow> bool" where
  "closing init \<longleftrightarrow> (\<forall>osr flags env r env'. init osr flags env = Some (r, env') \<longrightarrow> closed env')"

lemma effective_bits: "n \<noteq> 4 \<Longrightarrow> bit (effective flags) n = bit flags n"
  by (simp add: effective_def bit_or_iff timer_bits)

lemmas effective_fields = upper_bits [of "effective flags" flags for flags, OF effective_bits, simplified]

lemma alloc_body_spec:
  assumes ev: "evolving tei" "evolving init" "closing init"
    and al: "alloc_internal_body tei init osr flags env = Some (c, env')"
  shows "alloc_result osr flags env c env'"
proof -
  let ?o = "ensure_osr_is_at_least_minimal osr"
  have o1: "1 \<le> ?o"
    using ensure_osr_ge(1) [of osr] by (simp add: JENT_MIN_OSR_def word_le_nat_alt)
  show ?thesis
  proof (cases "has flags (JENT_DISABLE_INTERNAL_TIMER OR JENT_NTG1) \<and> has flags JENT_FORCE_INTERNAL_TIMER \<or> ?o > JENT_MAX_OSR")
    case True
    with al show ?thesis
      by (auto simp: alloc_internal_body_def alloc_result_def Let_def split: if_splits)
  next
    case False
    with al obtain r env1 where i: "(if \<not> has flags JENT_INT_MEASURE_CLOCK \<and> \<not> g_selftest_run env then init ?o flags env
        else Some (0, env)) = Some (r, env1)"
      and k: "(if r \<noteq> 0 then Some (None, env1)
        else if jent_notime_forced env1 \<and> has (effective flags) JENT_DISABLE_INTERNAL_TIMER then Some (None, env1)
        else if \<not> fst (jent_zalloc Sizeof_rand_data (effective flags) env1)
        then Some (None, snd (jent_zalloc Sizeof_rand_data (effective flags) env1))
        else collector_setup tei ?o (effective flags) (snd (jent_zalloc Sizeof_rand_data (effective flags) env1))) = Some (c, env')"
      by (auto simp only: alloc_internal_body_def effective_def Let_def split_beta if_False de_Morgan_disj elim!: bind_pairE)
    have e1: "steps {#} {#} env env1" "has flags JENT_INT_MEASURE_CLOCK \<or> g_selftest_run env \<or> closed env1"
      using i evolvingD [OF ev(2)] ev(3) unfolding closing_def by (auto split: if_splits)
    obtain ok env2 where z: "jent_zalloc Sizeof_rand_data (effective flags) env1 = (ok, env2)"
      by fastforce
    note z' = steps_trans [OF e1(1) zalloc_steps [OF z]]
    show ?thesis
    proof (cases "r = 0 \<and> \<not> (jent_notime_forced env1 \<and> has (effective flags) JENT_DISABLE_INTERNAL_TIMER) \<and> ok")
      case c: False
      then have "c = None" "steps {#} {#} env env'"
        using k e1(1) z z' by (auto split: if_splits)
      then show ?thesis
        by (simp add: alloc_result_def)
    next
      case c: True
      with k z have "collector_setup tei ?o (effective flags) env2 = Some (c, env')"
        by auto
      note s = collector_setup_spec [OF ev(1) this o1]
      have "g_notime_thread env2 = g_notime_thread env" "env_fips env2 = env_fips env" "steps {#} {#Sizeof_rand_data#} env env2"
        using steps_thread [OF z'] steps_fips [OF z'] z' c by simp_all
      moreover have "closed env1 \<longrightarrow> closed env'"
        using evolves_closed [OF steps_evolves [OF zalloc_steps [OF z]]] evolves_closed [of env2 env'] s False
        by (auto simp: not_less dest: steps_evolves)
      ultimately show ?thesis
        using s False e1(2) by (auto simp: alloc_result_def not_less effective_fields intro: steps_trans)
    qed
  qed
qed

subsection \<open>The startup measurement\<close>

lemma tei_loop_keeps:
  assumes "keeps_measuring m"
  shows "tei_loop m is (ec, env, h, n, tb, cs) = Some r \<Longrightarrow>
    (case r of Inl (_, ec', env') \<Rightarrow> cfg ec' = cfg ec \<and> rest env' = rest env
     | Inr (ec', env', h', n', tb', cs') \<Rightarrow> cfg ec' = cfg ec \<and> rest env' = rest env \<and> length h' = length h \<and>
         n' + tb' = n + tb + length (filter (\<lambda>i. i \<ge> 0) is) \<and> n \<le> n' \<and> cs' \<le> cs + length (filter (\<lambda>i. i \<ge> 0) is))"
proof (induction "is" arbitrary: ec env h n tb cs)
  case (Cons i "is")
  from Cons.prems obtain stuck d ec1 env1 where m: "m ec env = Some (stuck, d, ec1, env1)"
    by (auto elim!: bind_quadE simp: Let_def)
  have k: "cfg ec1 = cfg ec" "rest env1 = rest env"
    using assms m unfolding keeps_measuring_def by blast+
  show ?case
  proof (cases "ec_prev_time ec = 0 \<or> ec_prev_time ec1 = 0 \<or> d = 0")
    case True
    with Cons.prems m k show ?thesis
      by (auto simp: Let_def split: if_splits)
  next
    case False
    with Cons.prems m have "tei_loop m is (ec1, env1,
        if i < 0 \<or> \<not> ec_prev_time ec1 > ec_prev_time ec then h else jent_gcd_add_value h d n,
        if i < 0 \<or> \<not> ec_prev_time ec1 > ec_prev_time ec then n else Suc n,
        if i < 0 \<or> ec_prev_time ec1 > ec_prev_time ec then tb else Suc tb,
        if i < 0 \<or> \<not> stuck then cs else Suc cs) = Some r"
      by (auto simp: Let_def split: if_splits)
    from Cons.IH [OF this] k show ?thesis
      by (auto simp: jent_gcd_add_value_def split: sum.splits prod.splits if_splits)
  qed
qed auto

lemma tei_verdict_spec:
  "tei_verdict (ec, env, h, n, tb, cs) = (ret, ec', env') \<Longrightarrow> ec' = ec \<and> steps A A env env'"
  using store_steps
  by (auto simp: tei_verdict_def Let_def split: if_splits prod.splits sum.splits
      dest!: health_failure_seen intro: steps_trans [OF seen_steps] seen_steps)

text \<open>The block of the delta history.\<close>

abbreviation history_block :: "mem_size multiset" where
  "history_block \<equiv> {#Bytes (JENT_POWERUP_TESTLOOPCOUNT * 8)#}"

lemma tei_out_steps:
  assumes "length h = JENT_POWERUP_TESTLOOPCOUNT" "\<forall>ec. c = Some ec \<longrightarrow> mem_match ec" "th = g_notime_thread env"
  shows "steps (history_block + held th c) {#} env (tei_out h c env)"
proof -
  let ?env = "jent_gcd_fini (Some h) JENT_POWERUP_TESTLOOPCOUNT env"
  have fini: "steps history_block {#} env ?env"
    by (rule gcd_fini_steps [OF assms(1)])
  have g: "steps (history_block + held th c) (held th c) env ?env"
    using steps_frame [OF fini, of "held th c"] by simp
  show ?thesis
  proof (cases c)
    case None
    with g show ?thesis
      by (simp add: tei_out_def jent_entropy_collector_free_def)
  next
    case (Some ec)
    let ?ec = "jent_notime_unsettick ec"
    have "mem_match ?ec" "ec_blocks th ?ec = ec_blocks th ec" "th = g_notime_thread ?env"
      using assms(2,3) Some mem_match_cfg [OF unsettick_cfg] ec_blocks_cfg [OF unsettick_cfg] steps_thread [OF fini] by auto
    from steps_trans [OF g] free_steps [OF this(1,3)] this(2) Some show ?thesis
      by (simp add: tei_out_def)
  qed
qed

lemma tei_measure_steps:
  assumes "tei_measure fuel h ec env = Some (ret, env')" "length h = JENT_POWERUP_TESTLOOPCOUNT" "mem_match ec"
    and "th = g_notime_thread env"
  shows "steps (history_block + ec_blocks th ec) {#} env env'"
proof -
  let ?A = "history_block + ec_blocks th ec"
  obtain st ec0 env0 where tick: "jent_notime_settick ec env = (st, ec0, env0)"
    by (cases "jent_notime_settick ec env")
  have ec0: "mem_match ec0" "ec_blocks th ec0 = ec_blocks th ec" and e0: "steps ?A ?A env env0"
    using mem_match_cfg [of ec0 ec] ec_blocks_cfg [of ec0 ec] settick_cfg [OF tick] assms(3)
      seen_steps [OF settick_seen [OF tick]] by auto
  have out: "steps ?A {#} env (tei_out h (Some c) e)" if "cfg c = cfg ec0" "steps ?A ?A env e" for c e
    using steps_trans [OF that(2)] tei_out_steps [OF assms(2), of "Some c" th e] mem_match_cfg [OF that(1) ec0(1)]
      ec_blocks_cfg [OF that(1), of th] ec0(2) steps_thread [OF that(2)] assms(4) by simp
  show ?thesis
  proof (cases "st = 0")
    case False
    with assms(1) tick out [OF refl e0] show ?thesis
      by (auto simp: tei_measure_def)
  next
    case True
    note mk = measure_jitter_keeps [OF random_data_keeps, of fuel fuel 0]
    from assms(1) tick True obtain b d ec1 env1 r where
      m: "jent_measure_jitter (jent_random_data fuel) fuel 0 False ec0 env0 = Some (b, d, ec1, env1)" and
      l: "tei_loop (jent_measure_jitter (jent_random_data fuel) fuel 0 True)
        [- int CLEARCACHE..int JENT_POWERUP_TESTLOOPCOUNT - 1] (ec1, env1, h, 0, 0, 0) = Some r" and
      f: "(let (ret, ec, env) = (case r of Inl x \<Rightarrow> x | Inr st \<Rightarrow> tei_verdict st)
           in Some (ret, tei_out h (Some ec) env)) = Some (ret, env')"
      by (simp only: tei_measure_def Let_def prod.case if_False not_True_eq_False simp_thms)
        (elim bind_quadE bind_SomeE, blast)
    obtain r2 ec2 env2 where x: "(case r of Inl x \<Rightarrow> x | Inr st \<Rightarrow> tei_verdict st) = (r2, ec2, env2)"
      by (metis prod.exhaust)
    have k1: "cfg ec1 = cfg ec0" "rest env1 = rest env0"
      using mk [of False] m unfolding keeps_measuring_def by blast+
    have k2: "cfg ec2 = cfg ec0 \<and> steps ?A ?A env1 env2"
    proof (cases r)
      case (Inl y)
      with tei_loop_keeps [OF mk l] x k1 show ?thesis
        by (auto intro!: seen_steps rest_seen)
    next
      case (Inr y)
      obtain e v h' n' t' c' where y: "y = (e, v, h', n', t', c')"
        by (cases y) auto
      have "cfg e = cfg ec0" "steps ?A ?A env1 v"
        using tei_loop_keeps [OF mk l] k1 by (auto simp: Inr y intro!: seen_steps rest_seen)
      moreover have "ec2 = e" "steps ?A ?A v env2"
        using x tei_verdict_spec [of e v h' n' t' c' r2 ec2 env2] by (simp_all add: Inr y)
      ultimately show ?thesis
        by (blast intro: steps_trans)
    qed
    have "env' = tei_out h (Some ec2) env2"
      using f x by simp
    moreover have "steps ?A ?A env env2"
      using e0 seen_steps [OF rest_seen [OF k1(2)]] k2 by (blast intro: steps_trans)
    ultimately show ?thesis
      using out k2 by blast
  qed
qed

lemma notime_force_steps: "steps A A env (jent_notime_force env)"
  by (simp add: jent_notime_force_def steps_def evolves_def owns_def)

lemma tei_body_evolves:
  assumes al: "\<And>osr flags env c env'. alloc osr flags env = Some (c, env') \<Longrightarrow>
      steps {#} (held (g_notime_thread env) c) env env' \<and> (\<forall>ec. c = Some ec \<longrightarrow> mem_match ec)"
  shows "evolving (time_entropy_init_body fuel alloc)"
  unfolding evolving_def
proof (intro allI impI)
  fix osr flags env ret env'
  assume t: "time_entropy_init_body fuel alloc osr flags env = Some (ret, env')"
  obtain h env0 where g: "jent_gcd_init JENT_POWERUP_TESTLOOPCOUNT flags env = (h, env0)"
    by fastforce
  note e0 = gcd_init_steps [OF g]
  show "steps {#} {#} env env'"
  proof (cases h)
    case None
    with t e0 g show ?thesis
      by (simp add: time_entropy_init_body_def)
  next
    case (Some x)
    have x: "length x = JENT_POWERUP_TESTLOOPCOUNT"
      using e0 Some by blast
    define f1 where "f1 = (if has flags JENT_FORCE_INTERNAL_TIMER then flags else flags OR JENT_DISABLE_INTERNAL_TIMER)"
    define env1 where "env1 = (if has flags JENT_FORCE_INTERNAL_TIMER then jent_notime_force env0 else env0)"
    have e1: "steps {#} history_block env env1"
      using e0 Some notime_force_steps by (auto simp: env1_def intro: steps_trans)
    from t Some g have k: "(if jent_notime_forced env1 \<and> has f1 JENT_DISABLE_INTERNAL_TIMER
        then Some (ENOTIME, tei_out x None env1)
        else Option.bind (alloc osr ((f1 OR JENT_FORCE_FIPS) OR JENT_INT_MEASURE_CLOCK) env1) (\<lambda>(c, env).
          case c of None \<Rightarrow> Some (EMEM, tei_out x None env) | Some ec \<Rightarrow> tei_measure fuel x ec env)) = Some (ret, env')"
      by (auto simp: time_entropy_init_body_def f1_def env1_def Let_def split: if_splits)
    have none: "steps history_block {#} e (tei_out x None e)" for e
      using tei_out_steps [OF x, of None _ e] by simp
    show ?thesis
    proof (cases "jent_notime_forced env1 \<and> has f1 JENT_DISABLE_INTERNAL_TIMER")
      case True
      with k none [of env1] e1 show ?thesis
        by (auto intro: steps_trans)
    next
      case False
      with k obtain c env2 where a: "alloc osr ((f1 OR JENT_FORCE_FIPS) OR JENT_INT_MEASURE_CLOCK) env1 = Some (c, env2)"
        and m: "(case c of None \<Rightarrow> Some (EMEM, tei_out x None env2) | Some ec \<Rightarrow> tei_measure fuel x ec env2) = Some (ret, env')"
        by (auto elim!: bind_pairE)
      let ?th = "g_notime_thread env2"
      have s: "steps {#} (held ?th c) env1 env2" "\<forall>ec. c = Some ec \<longrightarrow> mem_match ec"
        using al [OF a] steps_thread [of "{#}" _ env1 env2] by auto
      have "steps {#} (history_block + held ?th c) env env2"
        using steps_trans [OF e1 steps_frame0 [OF s(1)]] by (simp add: ac_simps)
      moreover have "steps (history_block + held ?th c) {#} env2 env'"
        using m none [of env2] s(2) tei_measure_steps [OF _ x] by (auto split: option.splits)
      ultimately show ?thesis
        by (rule steps_trans)
    qed
  qed
qed

subsection \<open>Initialization\<close>

lemma block_steps:
  "steps A A env (jent_health_cb_block_switch (jent_notime_block_switch env))"
  "closed (jent_health_cb_block_switch (jent_notime_block_switch env))"
  by (simp_all add: jent_notime_block_switch_def jent_health_cb_block_switch_def steps_def evolves_def owns_def closed_def)

lemma selftest_mark_steps: "b \<longrightarrow> closed env \<Longrightarrow> steps A A env (env\<lparr>g_selftest_run := b\<rparr>)"
  by (auto simp: steps_def evolves_def owns_def closed_def)

lemma init_pre_steps:
  assumes "jent_entropy_init_common_pre flags env = (ret, env')"
  shows "steps {#} {#} env env' \<and> closed env'"
proof -
  define env0 where "env0 = jent_health_cb_block_switch (jent_notime_block_switch env)"
  have e0: "steps {#} {#} env env0" "closed env0"
    by (simp_all add: env0_def block_steps)
  obtain r1 env1 where p: "(if fst (jent_selftest None env0) = 0 then jent_gcd_selftest flags env0
      else (fst (jent_selftest None env0), env0)) = (r1, env1)"
    by fastforce
  have e1: "steps {#} {#} env0 env1"
    using p gcd_selftest_steps [of env0 flags] by (auto split: if_splits)
  have "env' = (if ret \<noteq> 0 then env1\<lparr>g_selftest_run := False\<rparr> else env1)"
    using assms unfolding jent_entropy_init_common_pre_def Let_def env0_def [symmetric] p by auto
  moreover have "closed (env1\<lparr>g_selftest_run := False\<rparr>) = closed env1"
    by (simp add: closed_def)
  moreover note evolves_closed [OF steps_evolves [OF e1] e0(2)] steps_trans [OF e0(1) e1] selftest_mark_steps [of False env1]
  ultimately show ?thesis
    by (auto intro: steps_trans)
qed

text \<open>The choice between the two clocks, shared by the initialization functions.\<close>

lemma choose_steps:
  assumes tei: "evolving tei" and cl: "closed env"
    and ch: "Option.bind (if a then tei osr f1 env else Some (r0, env)) (\<lambda>(ret, env).
      Option.bind (if ret \<noteq> 0 \<and> b then tei osr f2 env else Some (ret, env)) (\<lambda>(ret, env).
        Some (jent_entropy_init_common_post ret env))) = Some (ret, env')"
  shows "steps {#} {#} env env' \<and> closed env'"
proof -
  from ch obtain r1 env1 r2 env2 where
    one: "(if a then tei osr f1 env else Some (r0, env)) = Some (r1, env1)" and
    two: "(if r1 \<noteq> 0 \<and> b then tei osr f2 env1 else Some (r1, env1)) = Some (r2, env2)" and
    post: "jent_entropy_init_common_post r2 env2 = (ret, env')"
    by (elim bind_pairE) simp
  have "steps {#} {#} env env1"
    using one evolvingD [OF tei] by (auto split: if_splits)
  moreover have "steps {#} {#} env1 env2"
    using two evolvingD [OF tei] by (auto split: if_splits)
  ultimately have e2: "steps {#} {#} env env2"
    by (rule steps_trans)
  have c2: "closed env2"
    by (rule evolves_closed [OF steps_evolves [OF e2] cl])
  have e3: "env' = env2\<lparr>g_selftest_run := (ret = 0)\<rparr>"
    using post by (auto simp: jent_entropy_init_common_post_def)
  have "steps {#} {#} env2 env'" "closed env'"
    unfolding e3 using c2 by (auto intro: selftest_mark_steps simp: closed_def)
  with e2 show ?thesis
    by (blast intro: steps_trans)
qed

lemma init_ex_body_steps:
  assumes "evolving tei" and i: "init_ex_body tei osr flags env = Some (ret, env')"
  shows "steps {#} {#} env env' \<and> closed env'"
proof -
  define f where "f = jent_update_secure_mem (env_fips env) flags"
  define env0 where "env0 = jent_health_cb_block_switch (jent_notime_block_switch env)"
  have e0: "steps {#} {#} env env0" "closed env0"
    by (simp_all add: env0_def block_steps)
  obtain r1 env1 where pre: "jent_entropy_init_common_pre f env0 = (r1, env1)"
    by fastforce
  have e1: "steps {#} {#} env env1" "closed env1"
    using steps_trans [OF e0(1)] init_pre_steps [OF pre] by blast+
  show ?thesis
  proof (cases "osr > JENT_MAX_OSR \<or> jent_memaccess_contradicts (env_fips env0) f \<or>
      has f JENT_DISABLE_INTERNAL_TIMER \<and> has f JENT_FORCE_INTERNAL_TIMER \<or>
      has f JENT_NTG1 \<and> has f JENT_FORCE_INTERNAL_TIMER \<or> r1 \<noteq> 0")
    case True
    with i e0 e1 pre show ?thesis
      by (auto simp: init_ex_body_def Let_def f_def [symmetric] env0_def [symmetric] split: if_splits)
  next
    case False
    with i pre have "Option.bind (if \<not> has f JENT_FORCE_INTERNAL_TIMER then tei osr (f OR JENT_DISABLE_INTERNAL_TIMER) env1
          else Some (ENOTIME, env1)) (\<lambda>(ret, env).
        Option.bind (if ret \<noteq> 0 \<and> \<not> has f (JENT_DISABLE_INTERNAL_TIMER OR JENT_NTG1)
          then tei osr (f OR JENT_FORCE_INTERNAL_TIMER) env else Some (ret, env)) (\<lambda>(ret, env).
        Some (jent_entropy_init_common_post ret env))) = Some (ret, env')"
      by (auto simp: init_ex_body_def Let_def f_def [symmetric] env0_def [symmetric])
    from choose_steps [OF assms(1) e1(2) this] e1(1) show ?thesis
      by (blast intro: steps_trans)
  qed
qed

lemma mem_ok_match: "mem_ok ec \<Longrightarrow> mem_match ec"
  by (auto simp: mem_ok_def mem_match_def split: option.splits)

lemma alloc_result_match: "alloc_result osr flags env (Some ec) env' \<Longrightarrow> mem_match ec"
  by (auto simp: alloc_result_def fresh_def mem_ok_match)

text \<open>The three functions that call each other, by induction on the fuel.\<close>

lemma alloc_tei_init_spec:
  "(\<forall>osr flags env c env'. jent_entropy_collector_alloc_internal fuel osr flags env = Some (c, env') \<longrightarrow>
     alloc_result osr flags env c env') \<and>
   evolving (jent_time_entropy_init fuel) \<and> evolving (jent_entropy_init_ex fuel) \<and> closing (jent_entropy_init_ex fuel)"
proof (induction fuel)
  case 0
  show ?case
    by (simp add: evolving_def closing_def)
next
  case (Suc fuel)
  then have tei: "evolving (jent_time_entropy_init fuel)" and init: "evolving (jent_entropy_init_ex fuel)"
      "closing (jent_entropy_init_ex fuel)"
    by blast+
  have "evolving (time_entropy_init_body fuel (jent_entropy_collector_alloc_internal fuel))"
  proof (rule tei_body_evolves)
    fix osr flags env c env'
    assume "jent_entropy_collector_alloc_internal fuel osr flags env = Some (c, env')"
    with Suc have "alloc_result osr flags env c env'"
      by blast
    then show "steps {#} (held (g_notime_thread env) c) env env' \<and> (\<forall>ec. c = Some ec \<longrightarrow> mem_match ec)"
      using alloc_result_match by (auto dest: alloc_resultD(1))
  qed
  moreover have "evolving (init_ex_body (jent_time_entropy_init fuel))" "closing (init_ex_body (jent_time_entropy_init fuel))"
    unfolding evolving_def closing_def using init_ex_body_steps [OF tei] by blast+
  ultimately show ?case
    using alloc_body_spec [OF tei init]
    by (simp only: jent_entropy_collector_alloc_internal.simps jent_time_entropy_init.simps jent_entropy_init_ex.simps) blast
qed

lemmas alloc_internal_spec = alloc_tei_init_spec [THEN conjunct1, rule_format]
lemmas tei_evolving = alloc_tei_init_spec [THEN conjunct2, THEN conjunct1]
lemmas init_ex_evolving = alloc_tei_init_spec [THEN conjunct2, THEN conjunct2, THEN conjunct1]
lemmas init_ex_closing = alloc_tei_init_spec [THEN conjunct2, THEN conjunct2, THEN conjunct2]

lemma init_steps:
  assumes "jent_entropy_init fuel env = Some (ret, env')"
  shows "steps {#} {#} env env' \<and> closed env'"
proof -
  define f where "f = jent_update_secure_mem (env_fips env) 0"
  obtain r1 env1 where pre: "jent_entropy_init_common_pre f env = (r1, env1)"
    by fastforce
  note e1 = init_pre_steps [OF pre]
  show ?thesis
  proof (cases "r1 = 0")
    case False
    with assms pre e1 show ?thesis
      by (simp add: jent_entropy_init_def entropy_init_body_def f_def [symmetric])
  next
    case True
    with assms pre have "Option.bind (if True then jent_time_entropy_init fuel 0 (f OR JENT_DISABLE_INTERNAL_TIMER) env1
          else Some (0, env1)) (\<lambda>(ret, env).
        Option.bind (if ret \<noteq> 0 \<and> True then jent_time_entropy_init fuel 0 (f OR JENT_FORCE_INTERNAL_TIMER) env
          else Some (ret, env)) (\<lambda>(ret, env). Some (jent_entropy_init_common_post ret env))) = Some (ret, env')"
      by (simp add: jent_entropy_init_def entropy_init_body_def f_def [symmetric])
    from choose_steps [OF tei_evolving conjunct2 [OF e1] this] e1 show ?thesis
      by (blast intro: steps_trans)
  qed
qed

end
