(* ===== verification/Jent_Reset.thy ===== *)
theory Jent_Reset
  imports Jent_Alloc
begin

text \<open>
  The startup of a collector and its replacement after a health failure: the oversampling rate rises with
  every replacement and the identity and the accounting are inherited, so the safe read ends.
\<close>

subsection \<open>Invariant of a collector and inheritance\<close>

definition sound :: "bool \<Rightarrow> rand_data \<Rightarrow> bool" where
  "sound fips ec \<longleftrightarrow> mem_match ec \<and> JENT_MIN_OSR \<le> ec_osr ec \<and> ec_osr ec \<le> JENT_MAX_OSR \<and>
     ec_common_timer_gcd ec \<noteq> 0 \<and> drbg_mem ec \<and>
     ec_is_fips_enabled ec = (has (ec_flags ec) JENT_FORCE_FIPS \<or> has (ec_flags ec) JENT_NTG1 \<or> fips)"

lemma sound_cfg: "cfg ec' = cfg ec \<Longrightarrow> sound fips ec \<Longrightarrow> sound fips ec'"
  using mem_match_cfg [of ec' ec] cfg_drbg_mem [of ec' ec] by (simp add: sound_def cfg_def)

lemma fresh_sound:
  assumes "fresh fips osr flags ec" "JENT_MIN_OSR \<le> osr" "osr \<le> JENT_MAX_OSR"
  shows "sound fips ec"
proof -
  have "has (ec_flags ec) JENT_FORCE_FIPS = has flags JENT_FORCE_FIPS" "has (ec_flags ec) JENT_NTG1 = has flags JENT_NTG1"
    using assms(1) by (simp_all add: has_bit fresh_def)
  with assms show ?thesis
    by (simp add: sound_def fresh_def mem_ok_match)
qed

text \<open>The work of the noise sources does not shrink, and a memory size the caller has chosen stays.\<close>

definition grown :: "rand_data \<Rightarrow> rand_data \<Rightarrow> bool" where
  "grown ec ec' \<longleftrightarrow> jent_hashloop_cnt (ec_flags ec) \<le> jent_hashloop_cnt (ec_flags ec') \<and>
     has (ec_flags ec') JENT_DISABLE_MEMORY_ACCESS = has (ec_flags ec) JENT_DISABLE_MEMORY_ACCESS \<and>
     (JENT_FLAGS_TO_MAX_MEMSIZE (ec_flags ec) \<noteq> 0 \<longrightarrow> JENT_FLAGS_TO_MAX_MEMSIZE (ec_flags ec') \<noteq> 0 \<and>
        jent_memsize (ec_flags ec) \<le> jent_memsize (ec_flags ec') \<and>
        (ec_max_mem_set ec \<longrightarrow> jent_memsize (ec_flags ec') = jent_memsize (ec_flags ec)))"

definition heir :: "rand_data \<Rightarrow> rand_data \<Rightarrow> bool" where
  "heir ec ec' \<longleftrightarrow> ec_uuid ec' = ec_uuid ec \<and> ec_read_invocations ec' = ec_read_invocations ec \<and>
     ec_bytes_output ec' = ec_bytes_output ec \<and> ec_max_mem_set ec' = ec_max_mem_set ec \<and>
     ec_is_fips_enabled ec' = ec_is_fips_enabled ec \<and> ec_osr ec \<le> ec_osr ec' \<and> grown ec ec' \<and>
     (sized ec \<longrightarrow> sized ec')"

lemma heir_refl [simp]: "heir ec ec"
  by (simp add: heir_def grown_def)

lemma heir_trans [trans]: "heir a b \<Longrightarrow> heir b c \<Longrightarrow> heir a c"
  by (auto simp: heir_def grown_def)

lemma cfg_heir: "cfg ec' = cfg ec \<Longrightarrow> heir ec ec'"
  using sized_cfg [of ec' ec] by (simp add: cfg_def heir_def grown_def)

text \<open>A replacement doubles the work up to the caps.\<close>

definition escalated :: "rand_data \<Rightarrow> rand_data \<Rightarrow> bool" where
  "escalated ec ec' \<longleftrightarrow> min 128 (2 * unat (jent_hashloop_cnt (ec_flags ec))) \<le> unat (jent_hashloop_cnt (ec_flags ec')) \<and>
     (\<not> ec_max_mem_set ec \<and> JENT_FLAGS_TO_MAX_MEMSIZE (ec_flags ec) \<noteq> 0 \<longrightarrow>
        JENT_FLAGS_TO_MAX_MEMSIZE (ec_flags ec') \<noteq> 0 \<and>
        min (2 ^ 29) (2 * unat (jent_memsize (ec_flags ec))) \<le> unat (jent_memsize (ec_flags ec')))"

lemma escalated_heir: "escalated a b \<Longrightarrow> heir b c \<Longrightarrow> escalated a c"
  by (auto simp: escalated_def heir_def grown_def word_le_nat_alt)

lemma duplicate_cfg: "cfg (jent_health_duplicate new_ec old_ec) = cfg new_ec"
  by (simp add: jent_health_duplicate_def jent_rct_duplicate_def jent_rct_mem_duplicate_def jent_apt_duplicate_def
      jent_apt_reinit_def jent_lag_duplicate_def cfg_def Let_def)

lemma osr_inc:
  assumes "osr \<le> JENT_MAX_OSR"
  shows "osr < osr + 1" "unat (osr + 1) = Suc (unat osr)"
proof -
  have "unat osr \<le> 20"
    using assms by (simp add: word_le_nat_alt JENT_MAX_OSR_def)
  then show "unat (osr + 1) = Suc (unat osr)"
    by (intro unat_inc) simp
  then show "osr < osr + 1"
    by (simp add: word_less_nat_alt)
qed

lemma reset_init_loop_spec:
  "evolving init \<Longrightarrow> osr \<le> JENT_MAX_OSR \<Longrightarrow> reset_init_loop init osr flags env = Some (r, env') \<Longrightarrow>
    steps {#} {#} env env' \<and> (\<forall>o'. r = Some o' \<longrightarrow> osr \<le> o' \<and> o' \<le> JENT_MAX_OSR)"
proof (induction init osr flags env rule: reset_init_loop.induct)
  case (1 init osr flags env)
  obtain ret env1 where i: "init osr flags env = Some (ret, env1)"
      and k: "(if ret = 0 then Some (Some osr, env1) else if osr + 1 > JENT_MAX_OSR then Some (None, env1)
        else reset_init_loop init (osr + 1) flags env1) = Some (r, env')"
    using 1(4) by (simp only: reset_init_loop.simps [of init osr]) (elim bind_pairE)
  have e1: "steps {#} {#} env env1"
    using evolvingD [OF 1(2) i] .
  show ?case
  proof (cases "ret = 0 \<or> osr + 1 > JENT_MAX_OSR")
    case True
    with k e1 1(3) show ?thesis
      by (auto split: if_splits)
  next
    case False
    with k have "reset_init_loop init (osr + 1) flags env1 = Some (r, env')"
      by simp
    moreover have "ret \<noteq> 0" "\<not> osr + 1 > JENT_MAX_OSR" "osr + 1 \<le> JENT_MAX_OSR"
      using False by (simp_all add: not_less)
    ultimately have r: "steps {#} {#} env1 env'" "\<And>o'. r = Some o' \<Longrightarrow> osr + 1 \<le> o' \<and> o' \<le> JENT_MAX_OSR"
      using 1(1) [OF i refl _ _ 1(2)] by blast+
    have "osr \<le> o'" if "r = Some o'" for o'
      using less_imp_le [OF osr_inc(1) [OF 1(3)]] r(2) [OF that] by (rule order_trans [OF _ conjunct1])
    with steps_trans [OF e1 r(1)] r(2) show ?thesis
      by blast
  qed
qed

text \<open>What the two functions that call each other promise.\<close>

definition startup_result :: "rand_data \<Rightarrow> jent_env \<Rightarrow> rand_data option \<Rightarrow> jent_env \<Rightarrow> bool" where
  "startup_result ec env c env' \<longleftrightarrow>
     steps (ec_blocks (g_notime_thread env) ec) (held (g_notime_thread env) c) env env' \<and>
     (\<forall>ec'. c = Some ec' \<longrightarrow> heir ec ec' \<and> sound (env_fips env) ec')"

definition startup_good :: "startup_op \<Rightarrow> bool" where
  "startup_good st \<longleftrightarrow> (\<forall>ec env c env'. sound (env_fips env) ec \<longrightarrow> st ec env = Some (c, env') \<longrightarrow>
     startup_result ec env c env')"

lemma startup_goodD:
  "startup_good st \<Longrightarrow> sound (env_fips env) ec \<Longrightarrow> st ec env = Some (c, env') \<Longrightarrow>
   steps (ec_blocks (g_notime_thread env) ec) (held (g_notime_thread env) c) env env' \<and>
   (\<forall>ec'. c = Some ec' \<longrightarrow> heir ec ec' \<and> sound (env_fips env) ec')"
  unfolding startup_good_def startup_result_def by blast

definition reset_result :: "rand_data \<Rightarrow> jent_env \<Rightarrow> int \<Rightarrow> rand_data \<Rightarrow> jent_env \<Rightarrow> bool" where
  "reset_result ec env ret ec' env' \<longleftrightarrow>
     steps (ec_blocks (g_notime_thread env) ec) (ec_blocks (g_notime_thread env) ec') env env' \<and>
     (ret \<noteq> 0 \<longrightarrow> ret = - 1 \<and> ec' = ec) \<and>
     (ret = 0 \<longrightarrow> heir ec ec' \<and> ec_osr ec < ec_osr ec' \<and> sound (env_fips env) ec' \<and> escalated ec ec')"

definition reset_good :: "reset_op \<Rightarrow> bool" where
  "reset_good rs \<longleftrightarrow> (\<forall>ec b env ret ec' env'. sound (env_fips env) ec \<longrightarrow> rs ec b env = Some (ret, ec', env') \<longrightarrow>
     reset_result ec env ret ec' env')"

lemma reset_bits: "n \<noteq> 3 \<Longrightarrow> n \<noteq> 4 \<Longrightarrow> bit (reset_flags ec) n = bit (ec_flags ec) n"
  by (simp add: reset_flags_def bit_or_iff timer_bits)

text \<open>The flags of the replacement.\<close>

definition reset_target :: "(bool \<Rightarrow> u64) \<Rightarrow> rand_data \<Rightarrow> u32" where
  "reset_target cache ec = jent_update_hashloop
     (if \<not> ec_max_mem_set ec then jent_update_memsize cache (reset_flags ec) 1 else reset_flags ec) 1"

lemma reset_target_bits: "n < 23 \<Longrightarrow> n \<noteq> 3 \<Longrightarrow> n \<noteq> 4 \<Longrightarrow> bit (reset_target cache ec) n = bit (ec_flags ec) n"
  by (simp add: reset_target_def update_hashloop_other update_memsize_other reset_bits)

lemmas reset_flags_fields = upper_bits [of "reset_flags ec" "ec_flags ec" for ec, OF reset_bits, simplified]

lemma reset_target_work:
  "unat (jent_hashloop_cnt (reset_target cache ec)) = min 128 (2 * unat (jent_hashloop_cnt (ec_flags ec)))"
  "JENT_FLAGS_TO_MAX_MEMSIZE (ec_flags ec) \<noteq> 0 \<Longrightarrow> JENT_FLAGS_TO_MAX_MEMSIZE (reset_target cache ec) \<noteq> 0 \<and>
     unat (jent_memsize (reset_target cache ec)) = (if ec_max_mem_set ec then unat (jent_memsize (ec_flags ec))
       else min (2 ^ 29) (2 * unat (jent_memsize (ec_flags ec))))"
  using memsize_step(1,3) [of "reset_flags ec", where cache = cache]
  by (simp_all add: reset_target_def hashloop_step field_disjoint reset_flags_fields)

text \<open>A freshly allocated replacement for \<open>ec\<close> before its startup.\<close>

lemma cnt_bounds: "unat (jent_hashloop_cnt f) \<le> 128" "unat (jent_memsize f) \<le> 2 ^ 29"
proof -
  have "(2 :: nat) ^ (min 8 n - 1) \<le> 2 ^ 7" for n
    by (intro power_increasing) auto
  then show "unat (jent_hashloop_cnt f) \<le> 128"
    by (simp add: hashloop_cnt_eq)
  show "unat (jent_memsize f) \<le> 2 ^ 29"
    unfolding memsize_eq by (intro power_increasing) auto
qed

lemma inherit_grown:
  assumes n: "fresh fips osr (effective (reset_target cache ec)) new_ec"
  shows "grown ec (reset_inherit new_ec ec)" "escalated ec (reset_inherit new_ec ec)"
    "sized ec \<longrightarrow> sized (reset_inherit new_ec ec)"
proof -
  let ?f = "reset_target cache ec"
  have w: "same_work ?f (ec_flags new_ec)" and s: "sized new_ec" and b: "bit (ec_flags new_ec) 2 = bit (ec_flags ec) 2"
    using n reset_target_bits [of 2 cache ec] by (simp_all add: fresh_def same_work_def effective_fields effective_bits)
  note t = reset_target_work [where cache = cache and ec = ec]
  have cnt: "unat (jent_hashloop_cnt (ec_flags new_ec)) = min 128 (2 * unat (jent_hashloop_cnt (ec_flags ec)))"
    using w t(1) by (simp add: same_work_def)
  have mem: "JENT_FLAGS_TO_MAX_MEMSIZE (ec_flags new_ec) \<noteq> 0" "unat (jent_memsize (ec_flags new_ec)) =
      (if ec_max_mem_set ec then unat (jent_memsize (ec_flags ec)) else min (2 ^ 29) (2 * unat (jent_memsize (ec_flags ec))))"
    if "JENT_FLAGS_TO_MAX_MEMSIZE (ec_flags ec) \<noteq> 0"
    using w t(2) that by (simp_all add: same_work_def)
  show "escalated ec (reset_inherit new_ec ec)"
    using cnt mem by (simp add: escalated_def reset_inherit_def)
  show "grown ec (reset_inherit new_ec ec)"
    using cnt mem b cnt_bounds [of "ec_flags ec"] by (auto simp: grown_def reset_inherit_def word_le_nat_alt word_eq_unat has_bit)
  show "sized ec \<longrightarrow> sized (reset_inherit new_ec ec)"
    using s mem(1) by (auto simp: sized_def reset_inherit_def)
qed

lemma inherit_good:
  assumes ec: "sound fips ec" and n: "fresh fips osr (effective (reset_target cache ec)) new_ec"
    and osr: "ec_osr ec < osr" "osr \<le> JENT_MAX_OSR"
  shows "heir ec (reset_inherit new_ec ec) \<and> ec_osr ec < ec_osr (reset_inherit new_ec ec) \<and>
    sound fips (reset_inherit new_ec ec) \<and> escalated ec (reset_inherit new_ec ec)"
proof -
  have eff: "has (effective (reset_target cache ec)) JENT_FORCE_FIPS = has (ec_flags ec) JENT_FORCE_FIPS"
      "has (effective (reset_target cache ec)) JENT_NTG1 = has (ec_flags ec) JENT_NTG1"
    by (simp_all add: has_bit effective_bits reset_target_bits)
  have "JENT_MIN_OSR \<le> osr"
    using ec osr(1) unfolding sound_def by (meson less_imp_le order_trans)
  from fresh_sound [OF n this osr(2)] have s: "sound fips new_ec" .
  have "ec_is_fips_enabled new_ec = ec_is_fips_enabled ec" "ec_osr new_ec = osr"
    using n ec eff by (simp_all add: fresh_def sound_def)
  with s osr inherit_grown [OF n] show ?thesis
    by (simp add: heir_def sound_def reset_inherit_def mem_match_def drbg_mem_def split: option.splits)
qed

lemma inherit_blocks: "ec_blocks th (reset_inherit new_ec ec) = ec_blocks th new_ec"
  by (simp add: reset_inherit_def ec_blocks_def mem_block_def ctx_block_def)

text \<open>From the allocated replacement to the result.\<close>

lemma reset_finish:
  assumes st: "startup_good st" and s: "sound (env_fips env) ec"
    and new: "heir ec new" "ec_osr ec < ec_osr new" "sound (env_fips env) new" "escalated ec new"
    and e2: "steps {#} (ec_blocks (g_notime_thread env) new) env env2"
    and k: "do { (c, env) \<leftarrow> (if b then st new env2 else Some (Some new, env2));
        case c of None \<Rightarrow> Some (- 1, ec, env)
        | Some new_ec \<Rightarrow> Some (0, jent_health_duplicate new_ec ec, jent_entropy_collector_free (Some ec) env) }
      = Some (ret, ec', env')"
  shows "reset_result ec env ret ec' env'"
proof -
  let ?th = "g_notime_thread env"
  have fips: "env_fips env2 = env_fips env" "g_notime_thread env2 = ?th"
    using steps_fips [OF e2] steps_thread [OF e2] .
  from k obtain c env3 where
    t: "(if b then st new env2 else Some (Some new, env2)) = Some (c, env3)" and
    k3: "(case c of None \<Rightarrow> Some (- 1, ec, env3)
      | Some new_ec \<Rightarrow> Some (0, jent_health_duplicate new_ec ec, jent_entropy_collector_free (Some ec) env3)) = Some (ret, ec', env')"
    by (elim bind_pairE)
  have g: "steps (ec_blocks ?th new) (held ?th c) env2 env3 \<and> (\<forall>n. c = Some n \<longrightarrow> heir new n \<and> sound (env_fips env) n)"
  proof (cases b)
    case True
    with t startup_goodD [OF st, of env2 new c env3] new(3) fips show ?thesis
      by simp
  next
    case False
    with t new(3) show ?thesis
      by auto
  qed
  have e3: "steps (ec_blocks ?th ec) (held ?th c + ec_blocks ?th ec) env env3"
    using steps_frame0 [OF steps_trans [OF e2 conjunct1 [OF g]]] .
  show ?thesis
  proof (cases c)
    case None
    with k3 e3 show ?thesis
      by (simp add: reset_result_def)
  next
    case (Some n)
    let ?d = "jent_health_duplicate n ec"
    have nd: "heir new ?d" "sound (env_fips env) ?d"
      using g Some heir_trans [OF _ cfg_heir [OF duplicate_cfg]] sound_cfg [OF duplicate_cfg] by blast+
    have "heir ec ?d" "escalated ec ?d"
      using heir_trans [OF new(1) nd(1)] escalated_heir [OF new(4) nd(1)] .
    moreover have "ec_osr ec < ec_osr ?d"
      using g Some new(2) duplicate_cfg [of n ec] by (auto simp: heir_def cfg_def)
    moreover have "steps (ec_blocks ?th ec) (ec_blocks ?th ?d) env (jent_entropy_collector_free (Some ec) env3)"
    proof -
      have "steps (ec_blocks ?th ec) {#} env3 (jent_entropy_collector_free (Some ec) env3)"
        using s steps_thread [OF e3] by (intro free_steps) (simp_all add: sound_def)
      from steps_frame [OF this, of "ec_blocks ?th n"] have
        "steps (ec_blocks ?th n + ec_blocks ?th ec) (ec_blocks ?th n) env3 (jent_entropy_collector_free (Some ec) env3)"
        by (simp add: ac_simps)
      with e3 Some show ?thesis
        by (auto simp: ec_blocks_cfg [OF duplicate_cfg] intro: steps_trans)
    qed
    ultimately show ?thesis
      using k3 Some nd(2) by (auto simp: reset_result_def)
  qed
qed

lemma failure_reset_body_good:
  assumes init: "evolving init" and st: "startup_good st"
    and al: "\<And>osr flags env c env'. al osr flags env = Some (c, env') \<Longrightarrow> alloc_result osr flags env c env'"
  shows "reset_good (failure_reset_body init al st)"
  unfolding reset_good_def
proof (intro allI impI)
  fix ec b env ret ec' env'
  assume s: "sound (env_fips env) ec" and r: "failure_reset_body init al st ec b env = Some (ret, ec', env')"
  let ?th = "g_notime_thread env"
  define f where "f = reset_target (env_cache env) ec"
  have fail: "reset_result ec env (- 1) ec e" if "steps {#} {#} env e" for e
    using steps_same [OF that] by (simp add: reset_result_def)
  show "reset_result ec env ret ec' env'"
  proof (cases "ec_osr ec + 1 > JENT_MAX_OSR")
    case True
    with r fail show ?thesis
      by (simp add: failure_reset_body_def)
  next
    case False
    with r obtain o1 env1 where
      lp: "reset_init_loop init (ec_osr ec + 1) f env = Some (o1, env1)" and
      k1: "(case o1 of None \<Rightarrow> Some (- 1, ec, env1) | Some osr \<Rightarrow> do {
          (c, env) \<leftarrow> al osr f env1;
          case c of None \<Rightarrow> Some (- 1, ec, env)
          | Some new_ec \<Rightarrow> do {
              (c, env) \<leftarrow> (if b then st (reset_inherit new_ec ec) env else Some (Some (reset_inherit new_ec ec), env));
              case c of None \<Rightarrow> Some (- 1, ec, env)
              | Some new_ec \<Rightarrow> Some (0, jent_health_duplicate new_ec ec, jent_entropy_collector_free (Some ec) env) } })
        = Some (ret, ec', env')"
      by (simp only: failure_reset_body_def Let_def reset_target_def [symmetric] f_def [symmetric] if_False) (elim bind_pairE, blast)
    note l = reset_init_loop_spec [OF init leI [OF False] lp]
    show ?thesis
    proof (cases o1)
      case None
      with k1 l fail show ?thesis
        by simp
    next
      case (Some osr)
      with k1 obtain c env2 where a: "al osr f env1 = Some (c, env2)" and
        k2: "(case c of None \<Rightarrow> Some (- 1, ec, env2)
          | Some new_ec \<Rightarrow> do {
              (c, env) \<leftarrow> (if b then st (reset_inherit new_ec ec) env2 else Some (Some (reset_inherit new_ec ec), env2));
              case c of None \<Rightarrow> Some (- 1, ec, env)
              | Some new_ec \<Rightarrow> Some (0, jent_health_duplicate new_ec ec, jent_entropy_collector_free (Some ec) env) })
          = Some (ret, ec', env')"
        by (simp only: option.case) (elim bind_pairE)
      note ar = alloc_resultD [OF al [OF a]]
      have fips: "env_fips env1 = env_fips env" "g_notime_thread env1 = ?th"
        using steps_fips [OF conjunct1 [OF l]] steps_thread [OF conjunct1 [OF l]] .
      have e2: "steps {#} (held ?th c) env env2"
        using steps_trans [OF conjunct1 [OF l] ar(1)] fips(2) by simp
      have gt: "ec_osr ec < ensure_osr_is_at_least_minimal osr"
        using l osr_inc(1) [of "ec_osr ec"] s \<open>o1 = Some osr\<close> ensure_osr_ge(2) [of osr] by (auto simp: sound_def)
      show ?thesis
      proof (cases c)
        case None
        with k2 fail e2 show ?thesis
          by simp
      next
        case (Some new_ec)
        note h = inherit_good [OF s ar(5) [OF Some, unfolded fips f_def] gt ar(4) [OF Some]]
        show ?thesis
          using reset_finish [OF st s, of "reset_inherit new_ec ec" env2 b] h k2 Some e2 by (simp add: inherit_blocks)
      qed
    qed
  qed
qed

subsection \<open>Startup\<close>

lemma reset_goodD:
  "reset_good rs \<Longrightarrow> sound (env_fips env) ec \<Longrightarrow> rs ec b env = Some (ret, ec', env') \<Longrightarrow> reset_result ec env ret ec' env'"
  unfolding reset_good_def by blast

text \<open>One round of the startup loop up to the decision how to go on.\<close>

lemma startup_round:
  assumes rs: "reset_good rs" and s: "sound (env_fips env) ec"
    and k: "(if h \<noteq> 0 then do { (ret, ec, env) \<leftarrow> rs ec False env;
          Some (if ret \<noteq> 0 then (ret, ec, env) else jent_notime_settick ec env) }
        else Some (0, ec, env)) = Some (ret, ec', env')"
  shows "steps (ec_blocks (g_notime_thread env) ec) (ec_blocks (g_notime_thread env) ec') env env' \<and>
    heir ec ec' \<and> sound (env_fips env) ec'"
proof (cases "h = 0")
  case True
  with k s show ?thesis
    by simp
next
  case False
  with k obtain r ec1 env1 where r: "rs ec False env = Some (r, ec1, env1)" and
    t: "(if r \<noteq> 0 then (r, ec1, env1) else jent_notime_settick ec1 env1) = (ret, ec', env')"
    by (simp only: if_True not_False_eq_True) (elim bind_tripleE, blast)
  note rr = reset_goodD [OF rs s r, unfolded reset_result_def]
  show ?thesis
  proof (cases "r = 0")
    case True
    with t have tick: "jent_notime_settick ec1 env1 = (ret, ec', env')"
      by simp
    have c: "cfg ec' = cfg ec1"
      using settick_cfg [OF tick] by simp
    show ?thesis
      using True rr steps_trans [OF _ seen_steps [OF settick_seen [OF tick]]] heir_trans [OF _ cfg_heir [OF c]]
        sound_cfg [OF c] ec_blocks_cfg [OF c] by auto
  next
    case False
    with t rr s show ?thesis
      by auto
  qed
qed

lemma startup_loop_good:
  assumes rs: "reset_good rs" and rd: "keeps rd"
  shows "sound (env_fips env) ec \<Longrightarrow> startup_loop n rs rd ec env = Some (c, env') \<Longrightarrow>
    startup_result ec env c env'"
proof (induction n arbitrary: ec env)
  case (Suc n)
  from Suc.prems(2) obtain ec1 env1 where g: "rd ec env = Some (ec1, env1)" and
    k: "(let (h, env2) = jent_health_failure ec1 env1 in do {
        (ret, ec, env) \<leftarrow> (if h \<noteq> 0 then do { (ret, ec, env) \<leftarrow> rs ec1 False env2;
              Some (if ret \<noteq> 0 then (ret, ec, env) else jent_notime_settick ec env) }
            else Some (0, ec1, env2));
        if ret \<noteq> 0 then Some (None, jent_entropy_collector_free (Some ec) env)
        else if ec_startup_state ec \<noteq> jent_startup_completed then startup_loop n rs rd ec env
        else Some (Some (jent_notime_unsettick ec), env) }) = Some (c, env')"
    by (simp only: startup_loop.simps) (elim bind_pairE)
  obtain h env2 where h: "jent_health_failure ec1 env1 = (h, env2)"
    by fastforce
  have c1: "cfg ec1 = cfg ec"
    using keepsD [OF rd g] by blast
  let ?th = "g_notime_thread env"
  have e2: "steps A A env env2" for A
    using steps_trans [OF keeps_steps [OF rd g] seen_steps [OF health_failure_seen [OF h]]] .
  have fips: "env_fips env2 = env_fips env" "g_notime_thread env2 = ?th"
    using steps_fips [OF e2] steps_thread [OF e2] .
  obtain ret ec3 env3 where
    r: "(if h \<noteq> 0 then do { (ret, ec, env) \<leftarrow> rs ec1 False env2;
          Some (if ret \<noteq> 0 then (ret, ec, env) else jent_notime_settick ec env) }
        else Some (0, ec1, env2)) = Some (ret, ec3, env3)" and
    k3: "(if ret \<noteq> 0 then Some (None, jent_entropy_collector_free (Some ec3) env3)
        else if ec_startup_state ec3 \<noteq> jent_startup_completed then startup_loop n rs rd ec3 env3
        else Some (Some (jent_notime_unsettick ec3), env3)) = Some (c, env')"
    using k by (simp only: h Let_def prod.case) (elim bind_tripleE)
  note q = startup_round [OF rs _ r, unfolded fips, OF sound_cfg [OF c1 Suc.prems(1)]]
  have e3: "steps (ec_blocks ?th ec) (ec_blocks ?th ec3) env env3"
    using steps_trans [OF e2] q ec_blocks_cfg [OF c1] by auto
  have h3: "heir ec ec3"
    using heir_trans [OF cfg_heir [OF c1]] q by blast
  have f3: "env_fips env3 = env_fips env" "g_notime_thread env3 = ?th"
    using steps_fips [OF e3] steps_thread [OF e3] .
  consider "ret \<noteq> 0" | "ret = 0" "ec_startup_state ec3 \<noteq> jent_startup_completed" | "ret = 0" "ec_startup_state ec3 = jent_startup_completed"
    by blast
  then show ?case
  proof cases
    case 1
    have "mem_match ec3"
      using q by (simp add: sound_def)
    with 1 k3 steps_trans [OF e3] free_steps [of ec3 ?th env3] f3(2) show ?thesis
      by (auto simp: startup_result_def)
  next
    case 2
    with k3 have "startup_loop n rs rd ec3 env3 = Some (c, env')"
      by simp
    from Suc.IH [OF _ this, unfolded f3 startup_result_def] q show ?thesis
      unfolding startup_result_def using steps_trans [OF e3] heir_trans [OF h3] by blast
  next
    case 3
    with k3 have r: "c = Some (jent_notime_unsettick ec3)" "env' = env3"
      by simp_all
    have "heir ec (jent_notime_unsettick ec3)" "sound (env_fips env) (jent_notime_unsettick ec3)"
      using heir_trans [OF h3 cfg_heir [OF unsettick_cfg]] sound_cfg [OF unsettick_cfg] q by blast+
    with e3 show ?thesis
      by (simp add: startup_result_def r ec_blocks_cfg [OF unsettick_cfg])
  qed
qed simp

lemma startup_body_good:
  assumes "reset_good rs"
  shows "startup_good (startup_body n rs)"
  unfolding startup_good_def
proof (intro allI impI)
  fix ec env c env'
  assume s: "sound (env_fips env) ec" and b: "startup_body n rs ec env = Some (c, env')"
  obtain ret ec0 env0 where tick: "jent_notime_settick ec env = (ret, ec0, env0)"
    by (cases "jent_notime_settick ec env")
  have c0: "cfg ec0 = cfg ec"
    using settick_cfg [OF tick] by simp
  note s0 = sound_cfg [OF c0 s]
  have e0: "steps A A env env0" for A
    by (rule seen_steps [OF settick_seen [OF tick]])
  have f0: "env_fips env0 = env_fips env" "g_notime_thread env0 = g_notime_thread env"
    using steps_fips [OF e0] steps_thread [OF e0] .
  show "startup_result ec env c env'"
  proof (cases "ret = 0")
    case False
    with b tick s0 steps_trans [OF e0 free_steps [of ec0 "g_notime_thread env" env0]] f0 ec_blocks_cfg [OF c0] show ?thesis
      by (auto simp: startup_body_def sound_def startup_result_def)
  next
    case True
    with b tick have "startup_loop n rs (jent_random_data n) ec0 env0 = Some (c, env')"
      by (simp add: startup_body_def)
    from startup_loop_good [OF assms random_data_keeps _ this, unfolded f0 startup_result_def, OF s0] show ?thesis
      unfolding startup_result_def ec_blocks_cfg [OF c0]
      using steps_trans [OF e0] heir_trans [OF cfg_heir [OF c0]] by blast
  qed
qed

lemma reset_startup_good: "reset_good (jent_health_failure_reset fuel) \<and> startup_good (jent_entropy_collector_startup fuel)"
proof (induction fuel)
  case 0
  show ?case
    by (simp add: reset_good_def startup_good_def)
next
  case (Suc fuel)
  have "reset_good (failure_reset_body (jent_entropy_init_ex fuel) (jent_entropy_collector_alloc_internal fuel)
      (jent_entropy_collector_startup fuel))"
    using Suc by (intro failure_reset_body_good init_ex_evolving alloc_internal_spec) auto
  with Suc startup_body_good show ?case
    by simp
qed

lemmas reset_good = reset_startup_good [THEN conjunct1]
lemmas startup_good = reset_startup_good [THEN conjunct2]

subsection \<open>Allocation with startup\<close>

lemma uuid_seen: "jent_uuid_generate env = (u, env') \<Longrightarrow> seen env' = seen env"
  by (auto simp: jent_uuid_generate_def jent_os_random_bytes_def jent_uuid_from_counter_def jent_atomic_inc_u32_def
      jent_get_nstime_def Let_def split: prod.splits option.splits)

lemma sound_uuid [simp]: "sound fips (ec\<lparr>ec_uuid := u\<rparr>) = sound fips ec" "sized (ec\<lparr>ec_uuid := u\<rparr>) = sized ec"
  "ec_blocks th (ec\<lparr>ec_uuid := u\<rparr>) = ec_blocks th ec"
  by (simp_all add: sound_def mem_match_def drbg_mem_def sized_def ec_blocks_def mem_block_def ctx_block_def split: option.splits)

lemma alloc_started_good:
  assumes "alloc_started fuel osr flags env = Some (c, env')"
  shows "steps {#} (held (g_notime_thread env) c) env env' \<and>
    (\<forall>ec. c = Some ec \<longrightarrow> sound (env_fips env) ec \<and> ensure_osr_is_at_least_minimal osr \<le> ec_osr ec \<and> sized ec \<and>
      (has flags JENT_INT_MEASURE_CLOCK \<or> g_selftest_run env \<or> closed env'))"
proof (cases "jent_memaccess_contradicts (env_fips env) flags")
  case True
  with assms show ?thesis
    by (simp add: alloc_started_def)
next
  case False
  let ?f = "jent_update_secure_mem (env_fips env) flags"
  from assms False obtain c1 env1 where
    a: "jent_entropy_collector_alloc_internal fuel osr ?f env = Some (c1, env1)" and
    k: "(case c1 of None \<Rightarrow> Some (None, env1) | Some ec \<Rightarrow> do {
        (c, env) \<leftarrow> jent_entropy_collector_startup fuel ec env1;
        case c of None \<Rightarrow> Some (None, env)
        | Some ec \<Rightarrow> let (uuid, env) = jent_uuid_generate env in Some (Some (ec\<lparr>ec_uuid := uuid\<rparr>), env) }) = Some (c, env')"
    by (simp only: alloc_started_def if_False Let_def) (elim bind_pairE)
  note ar = alloc_internal_spec [OF a]
  note al = alloc_resultD [OF ar]
  let ?th = "g_notime_thread env"
  have clock: "has ?f JENT_INT_MEASURE_CLOCK = has flags JENT_INT_MEASURE_CLOCK"
    by (simp add: has_bit secure_mem_bits)
  show ?thesis
  proof (cases c1)
    case None
    with k al show ?thesis
      by simp
  next
    case (Some ec1)
    have fr: "sound (env_fips env) ec1" "ec_osr ec1 = ensure_osr_is_at_least_minimal osr" "sized ec1"
      using al Some fresh_sound [OF _ ensure_osr_ge(1)] by (auto simp: fresh_def)
    from k Some obtain c2 env2 where s: "jent_entropy_collector_startup fuel ec1 env1 = Some (c2, env2)" and
      k2: "(case c2 of None \<Rightarrow> Some (None, env2)
        | Some ec \<Rightarrow> let (uuid, env) = jent_uuid_generate env2 in Some (Some (ec\<lparr>ec_uuid := uuid\<rparr>), env)) = Some (c, env')"
      by (simp only: option.case) (elim bind_pairE)
    note st = startup_goodD [OF startup_good _ s, unfolded al(2,3), OF fr(1)]
    have e2: "steps {#} (held ?th c2) env env2"
      using st al(1) Some by (auto intro: steps_trans)
    have cl: "has flags JENT_INT_MEASURE_CLOCK \<or> g_selftest_run env \<or> closed env2"
      using ar Some clock evolves_closed [OF steps_evolves [OF conjunct1 [OF st]]] by (auto simp: alloc_result_def)
    show ?thesis
    proof (cases c2)
      case None
      with k2 e2 show ?thesis
        by simp
    next
      case (Some ec2)
      obtain u env3 where u: "jent_uuid_generate env2 = (u, env3)"
        by fastforce
      with k2 Some have "c = Some (ec2\<lparr>ec_uuid := u\<rparr>)" "env' = env3"
        by simp_all
      moreover have "closed env2 \<longrightarrow> closed env3"
        using uuid_seen [OF u] by (simp add: closed_def seen_def)
      ultimately show ?thesis
        using st Some fr(2,3) cl steps_trans [OF e2 seen_steps [OF uuid_seen [OF u]]] by (auto simp: heir_def)
    qed
  qed
qed

lemma alloc_raw_good:
  assumes "jent_entropy_collector_alloc_raw fuel osr flags env = Some (c, env')"
  shows "steps {#} (held (g_notime_thread env) c) env env' \<and>
    (\<forall>ec. c = Some ec \<longrightarrow> sound (env_fips env) ec \<and> sized ec \<and> closed env')"
proof -
  obtain r env1 where r: "jent_raw_selftest flags env = (r, env1)"
    by fastforce
  have e1: "steps {#} {#} env env1" "closed env1"
    using init_pre_steps [of flags env r env1] r by (simp_all add: jent_raw_selftest_def)
  show ?thesis
  proof (cases "jent_memaccess_contradicts (env_fips env) flags \<or> r \<noteq> 0")
    case True
    with assms r e1 show ?thesis
      by (auto simp: jent_entropy_collector_alloc_raw_def split: if_splits)
  next
    case False
    with assms r have "jent_entropy_collector_alloc_internal fuel osr
        (jent_update_secure_mem (env_fips env1) flags OR JENT_INT_MEASURE_CLOCK) env1 = Some (c, env')"
      by (simp add: jent_entropy_collector_alloc_raw_def)
    note al = alloc_resultD [OF alloc_internal_spec [OF this]]
    have "sound (env_fips env) ec" "sized ec" if "c = Some ec" for ec
      using al(4,5) [OF that] fresh_sound [OF _ ensure_osr_ge(1), of "env_fips env1"] steps_fips [OF e1(1)]
      by (auto simp: fresh_def)
    with e1 al(1) evolves_closed [OF steps_evolves [OF al(1)]] steps_thread [OF e1(1)] show ?thesis
      by (auto intro: steps_trans)
  qed
qed

end
