(* ===== verification/Jent_Safe.thy ===== *)
theory Jent_Safe
  imports Jent_Reset
begin

text \<open>
  The safe read: it replaces the collector after a recoverable failure and reads again. The invariant of a
  collector survives every read, and the rising oversampling rate bounds the number of rounds.
\<close>

subsection \<open>Reads keep the invariant\<close>

lemma read_loop_keeps:
  "read_loop (jent_random_data fuel) len p buf ec env = Some (ret, q, buf', ec', env') \<Longrightarrow> drbg_mem ec \<Longrightarrow>
    cfg ec' = cfg ec \<and> steps A A env env' \<and> ret \<le> 0"
proof (induction len arbitrary: p buf ec env rule: less_induct)
  case (less len)
  show ?case
  proof (cases "len = 0 \<or> ec_selftest_failed ec")
    case True
    with less.prems(1) show ?thesis
      by (cases "len = 0") (auto simp: read_loop_stop JENT_ERR_SELFTEST_def)
  next
    case False
    with less.prems(1) obtain ec1 env1 where rd: "jent_random_data fuel ec env = Some (ec1, env1)"
      by (auto simp: read_loop.simps [of _ len] elim!: bind_pairE)
    have c1: "cfg ec1 = cfg ec" "drbg_mem ec1"
      using keepsD [OF random_data_keeps rd] cfg_drbg_mem [of ec1 ec] less.prems(2) by simp_all
    obtain h env2 where h: "jent_health_failure ec1 env1 = (h, env2)"
      by fastforce
    have e2: "steps A A env env2"
      using steps_trans [OF keeps_steps [OF random_data_keeps rd] seen_steps [OF health_failure_seen [OF h]]] .
    define k where "k = min len 32"
    obtain ec2 blk where blk: "jent_read_random_block ec1 k = (ec2, blk)"
      by fastforce
    note b = read_block [OF c1(2) blk]
    have step: "read_loop (jent_random_data fuel) len p buf ec env =
      (if h \<noteq> 0 then Some (jent_health_err h, p, buf, ec1, env2)
       else read_loop (jent_random_data fuel) (len - k) (p + k) (memcpy_at buf p blk) ec2 env2)"
      using False rd h blk by (simp add: read_loop_block k_def)
    show ?thesis
    proof (cases "h = 0")
      case h0: False
      with step less.prems c1 e2 health_err_neg [of h] show ?thesis
        by auto
    next
      case True
      have "len - k < len"
        using False by (simp add: k_def)
      from less.IH [OF this, of "p + k" "memcpy_at buf p blk" ec2 env2] True step less.prems(1) b c1(1) show ?thesis
        using steps_trans [OF e2] by auto
    qed
  qed
qed

lemma sound_counters [simp]: "sound fips (ec\<lparr>ec_read_invocations := i, ec_bytes_output := j\<rparr>) = sound fips ec"
  "sized (ec\<lparr>ec_read_invocations := i, ec_bytes_output := j\<rparr>) = sized ec"
  "ec_blocks th (ec\<lparr>ec_read_invocations := i, ec_bytes_output := j\<rparr>) = ec_blocks th ec"
  by (simp_all add: sound_def mem_match_def drbg_mem_def sized_def ec_blocks_def mem_block_def ctx_block_def split: option.splits)

lemma read_entropy_from_keeps:
  assumes "read_entropy_from fuel ec data len env = Some (ret, ec', data', env')" "sound fips ec"
  shows "steps A A env env' \<and> ec_blocks th ec' = ec_blocks th ec \<and> sized ec' = sized ec \<and>
    sound fips ec' \<and> ec_osr ec' = ec_osr ec \<and> ec_uuid ec' = ec_uuid ec \<and>
    (len \<noteq> 0 \<longrightarrow> len \<le> ssize_max \<longrightarrow> ret < 0 \<or> ret = int (unat len))"
proof (cases "len = 0")
  case True
  obtain h env1 where h: "jent_health_failure ec env = (h, env1)"
    by fastforce
  from True assms h seen_steps [OF health_failure_seen [OF h]] show ?thesis
    by (auto simp: read_entropy_from_def split: if_splits)
next
  case False
  define n where "n = (if len > ssize_max then ssize_max else len)"
  obtain st ec0 env0 where tick: "jent_notime_settick ec env = (st, ec0, env0)"
    by (cases "jent_notime_settick ec env")
  have c0: "cfg ec0 = cfg ec" and e0: "steps A A env env0"
    using settick_cfg [OF tick] seen_steps [OF settick_seen [OF tick]] by simp_all
  note s0 = sound_cfg [OF c0 assms(2)]
  have osr: "ec_osr e = ec_osr ec \<and> ec_uuid e = ec_uuid ec \<and> ec_blocks th e = ec_blocks th ec \<and> sized e = sized ec"
    if "cfg e = cfg ec0" for e
    using that c0 ec_blocks_cfg [of e ec] sized_cfg [of e ec] by (simp add: cfg_def)
  show ?thesis
  proof (cases "st = 0")
    case st: False
    with False assms(1) tick e0 s0 osr [of ec0] show ?thesis
      by (auto simp: read_entropy_from_def Let_def JENT_ERR_NOTIME_def)
  next
    case True
    note body = read_entropy_from_body [OF False tick [unfolded True] n_def, of fuel data]
    obtain r q buf ec1 where
      loop: "read_loop (jent_random_data fuel) (unat n) 0 data ec0 env0 = Some (r, q, buf, ec1, env')" and
      res: "ret = (if r \<noteq> 0 then r else int (unat n))" "ec' = (if r = 0 then (jent_notime_unsettick ec1)\<lparr>
           ec_read_invocations := ec_read_invocations (jent_notime_unsettick ec1) + 1,
           ec_bytes_output := ec_bytes_output (jent_notime_unsettick ec1) + n\<rparr> else jent_notime_unsettick ec1)"
      using assms(1) unfolding body by (elim bind_quintE) (simp only: option.inject prod.inject that)
    have k: "cfg (jent_notime_unsettick ec1) = cfg ec0" "steps A A env0 env'" "r \<le> 0"
      using read_loop_keeps [OF loop] s0 by (simp_all add: sound_def)
    have "len \<le> ssize_max \<longrightarrow> ret < 0 \<or> ret = int (unat len)"
      using k(3) by (auto simp: res(1) n_def)
    with sound_cfg [OF k(1) s0] osr [OF k(1)] steps_trans [OF e0 k(2)] show ?thesis
      by (simp add: res(2))
  qed
qed

subsection \<open>The loop of the safe read\<close>

text \<open>The codes on which the loop gives up, and those after which it replaces the collector.\<close>

definition final_errs :: "int set" where
  "final_errs = {JENT_ERR_EINVAL, JENT_ERR_NOTIME, JENT_ERR_RCT_PERMANENT, JENT_ERR_APT_PERMANENT,
     JENT_ERR_LAG_PERMANENT, JENT_ERR_RCT_MEM_PERMANENT, JENT_ERR_SELFTEST}"

definition retry_errs :: "int set" where
  "retry_errs = {JENT_ERR_RCT, JENT_ERR_APT, JENT_ERR_LAG, JENT_ERR_RCT_MEM}"

lemma errs_negative: "ret \<in> final_errs \<union> retry_errs \<Longrightarrow> ret < 0"
  by (auto simp: final_errs_def retry_errs_def read_errors)

lemma safe_loop_Suc:
  "safe_loop (Suc r) fuel ec data p len orig_len env = (if len = 0 then Some (orig_len, ec, data, env)
   else Option.bind (read_entropy_from fuel ec (drop p data) len env) (\<lambda>(ret, ec1, tail, env1).
     if ret \<in> final_errs then Some (ret, ec1, take p data @ tail, env1)
     else if ret \<in> retry_errs
     then Option.bind (jent_health_failure_reset fuel ec1 True env1) (\<lambda>(rr, ec2, env2).
       if rr \<noteq> 0 then Some (ret, ec2, take p data @ tail, env2)
       else safe_loop r fuel ec2 (take p data @ tail) p len orig_len env2)
     else if ret \<ge> 0
     then safe_loop r fuel ec1 (take p data @ tail) (p + nat ret) (len - of_int ret) orig_len env1
     else Some (JENT_ERR_EINVAL, ec1, take p data @ tail, env1)))"
  by (simp only: safe_loop.simps final_errs_def retry_errs_def Let_def)

declare safe_loop.simps(2) [simp del]

lemma safe_loop_done: "safe_loop (Suc r) fuel ec data p 0 orig_len env = Some (orig_len, ec, data, env)"
  by (simp add: safe_loop_Suc)

lemma safe_loop_more:
  assumes "sound (env_fips env) ec" "len \<le> ssize_max" "22 \<le> r + unat (ec_osr ec)"
  shows "safe_loop (r + k) fuel ec data p len orig_len env = safe_loop r fuel ec data p len orig_len env"
  using assms
proof (induction r arbitrary: ec data env)
  case 0
  then show ?case
    by (simp add: sound_def word_le_nat_alt JENT_MAX_OSR_def)
next
  case (Suc r)
  have "0 < r"
    using Suc.prems by (simp add: sound_def word_le_nat_alt JENT_MAX_OSR_def)
  then obtain r' where r': "r = Suc r'"
    using gr0_implies_Suc by blast
  show ?case
  proof (cases "len = 0")
    case True
    then show ?thesis
      by (simp add: safe_loop_done)
  next
    case len: False
    show ?thesis
    proof (cases "read_entropy_from fuel ec (drop p data) len env")
      case None
      with len show ?thesis
        by (simp add: safe_loop_Suc)
    next
      case (Some x)
      obtain ret ec1 tail env1 where x: "x = (ret, ec1, tail, env1)"
        by (cases x)
      note k = read_entropy_from_keeps [OF Some [unfolded x] Suc.prems(1), where A = "{#}" and th = Notime_Builtin]
      have f1: "env_fips env1 = env_fips env"
        using steps_fips [OF conjunct1 [OF k]] .
      have again: "safe_loop (r + k) fuel ec2 d p len orig_len env2 = safe_loop r fuel ec2 d p len orig_len env2"
        if "jent_health_failure_reset fuel ec1 True env1 = Some (0, ec2, env2)" for ec2 d env2
      proof (rule Suc.IH [OF _ Suc.prems(2)])
        note rr = reset_goodD [OF reset_good _ that, unfolded reset_result_def f1]
        have "env_fips env2 = env_fips env" "ec_osr ec1 < ec_osr ec2"
          using rr k f1 by (auto dest: steps_fips)
        then show "sound (env_fips env2) ec2" "22 \<le> r + unat (ec_osr ec2)"
          using rr k Suc.prems(3) by (simp_all add: word_less_nat_alt)
      qed
      have end_: "safe_loop (r + k) fuel ec1 d q 0 orig_len env1 = safe_loop r fuel ec1 d q 0 orig_len env1" for d q
        by (simp add: r' safe_loop_done)
      have ge: "len - of_int ret = 0" if "ret \<ge> 0"
        using k len Suc.prems(2) that by auto
      show ?thesis
        using len Some x again end_ ge
        by (cases "jent_health_failure_reset fuel ec1 True env1") (auto simp: safe_loop_Suc)
    qed
  qed
qed

lemma safe_loop_keeps:
  assumes "sound (env_fips env) ec" "safe_loop r fuel ec data p len orig_len env = Some (ret, ec', data', env')"
  shows "steps (ec_blocks (g_notime_thread env) ec) (ec_blocks (g_notime_thread env) ec') env env' \<and>
    (sized ec \<longrightarrow> sized ec') \<and> sound (env_fips env) ec' \<and> ec_uuid ec' = ec_uuid ec \<and> ec_osr ec \<le> ec_osr ec'"
  using assms
proof (induction r arbitrary: ec data p len env)
  case (Suc r)
  show ?case
  proof (cases "len = 0")
    case True
    with Suc.prems show ?thesis
      by (simp add: safe_loop_done)
  next
    case len: False
    with Suc.prems(2) obtain rt ec1 tail env1 where
      rd: "read_entropy_from fuel ec (drop p data) len env = Some (rt, ec1, tail, env1)" and
      k: "(if rt \<in> final_errs then Some (rt, ec1, take p data @ tail, env1)
         else if rt \<in> retry_errs
         then Option.bind (jent_health_failure_reset fuel ec1 True env1) (\<lambda>(rr, ec2, env2).
           if rr \<noteq> 0 then Some (rt, ec2, take p data @ tail, env2)
           else safe_loop r fuel ec2 (take p data @ tail) p len orig_len env2)
         else if rt \<ge> 0
         then safe_loop r fuel ec1 (take p data @ tail) (p + nat rt) (len - of_int rt) orig_len env1
         else Some (JENT_ERR_EINVAL, ec1, take p data @ tail, env1)) = Some (ret, ec', data', env')"
      by (simp only: safe_loop_Suc if_False) (elim bind_quadE)
    let ?th = "g_notime_thread env"
    note r1 = read_entropy_from_keeps [OF rd Suc.prems(1), where A = "ec_blocks ?th ec" and th = ?th]
    have f1: "env_fips env1 = env_fips env" "g_notime_thread env1 = ?th"
      using steps_fips [OF conjunct1 [OF r1]] steps_thread [OF conjunct1 [OF r1]] .
    have s1: "sound (env_fips env1) ec1"
      using r1 f1 by simp
    let ?good = "\<lambda>e0 c0. steps (ec_blocks ?th c0) (ec_blocks ?th ec') e0 env' \<and> (sized c0 \<longrightarrow> sized ec') \<and>
      sound (env_fips e0) ec' \<and> ec_uuid ec' = ec_uuid c0 \<and> ec_osr c0 \<le> ec_osr ec'"
    have step: "?good env ec" if "?good env1 ec1"
      using that r1 f1 steps_trans [of "ec_blocks ?th ec" "ec_blocks ?th ec" env env1] by auto
    have reset: "?good env1 ec1"
      if "jent_health_failure_reset fuel ec1 True env1 = Some (rr, ec2, env2)"
        and fin: "(if rr \<noteq> 0 then Some (rt, ec2, take p data @ tail, env2)
           else safe_loop r fuel ec2 (take p data @ tail) p len orig_len env2) = Some (ret, ec', data', env')" for rr ec2 env2
    proof -
      note rs = reset_goodD [OF reset_good s1 that(1), unfolded reset_result_def f1(2)]
      have f2: "env_fips env2 = env_fips env1" "g_notime_thread env2 = ?th"
        using steps_fips [OF conjunct1 [OF rs]] steps_thread [OF conjunct1 [OF rs]] f1(2) by simp_all
      show ?thesis
        using rs fin s1 Suc.IH [of env2 ec2 "take p data @ tail" p len, unfolded f2]
          steps_trans [of "ec_blocks ?th ec1" "ec_blocks ?th ec2" env1 env2 "ec_blocks ?th ec'" env']
        by (cases "rr = 0") (auto simp: heir_def)
    qed
    show ?thesis
      using k step s1 reset Suc.IH [OF s1, unfolded f1(2)]
      by (cases "jent_health_failure_reset fuel ec1 True env1") (auto split: if_splits)
  qed
qed simp

end
