(* ===== verification/Jent_Total.thy ===== *)
theory Jent_Total
  imports Jent_Safe
begin

text \<open>
  The functions of the life cycle return on the platform clock: the initialization and the allocation for
  every collector without the internal timer, the startup, the replacement and the safe read in FIPS mode.
\<close>

subsection \<open>Measurements outside of a block\<close>

text \<open>The window of the RCT with memory is closed, as during the startup measurement.\<close>

definition idle :: "rand_data \<Rightarrow> bool" where
  "idle ec \<longleftrightarrow> source_ok ec \<and> ec_rct_mem_ctr ec = 0 \<and> ec_rct_mem_nosr ec = 0 \<and>
     0 < ec_rct_mem_cutoff ec \<and> ec_rct_mem_cutoff ec < ec_rct_mem_cutoff_permanent ec"

lemma idle_rct_mem:
  assumes "idle ec"
  shows "jent_rct_mem_insert rd ec env b = Some (ec\<lparr>ec_rct_mem_count := 0\<rparr>, env) \<and> idle (ec\<lparr>ec_rct_mem_count := 0\<rparr>)"
proof -
  have "rct_mem_tally ec b = ec\<lparr>ec_rct_mem_count := 0\<rparr>"
    using assms by (simp add: rct_mem_tally_def idle_def JENT_RCT_MEM_IN_WINDOW_def)
  moreover have "0 < ec_rct_mem_cutoff_permanent ec" "ec_rct_mem_cutoff ec \<noteq> 0"
    using assms by (auto simp: idle_def)
  ultimately show ?thesis
    using assms
    by (simp add: jent_rct_mem_insert_def Let_def JENT_RCT_MEM_IN_WINDOW_def idle_def source_ok_def mem_ok_def not_le split: option.splits)
qed

lemma idle_stuck:
  assumes "idle ec"
  shows "\<exists>b ec'. jent_stuck rd ec env d = Some (b, ec', env) \<and> idle ec'"
proof (cases "ec_stuck_prime ec = 0")
  case False
  define e where "e = jent_lag_insert (ec\<lparr>ec_stuck_prime := ec_stuck_prime ec - 1\<rparr>) d"
  have "\<exists>x1 x2 x3 x4 x5 x6 f. e = ec\<lparr>ec_stuck_prime := ec_stuck_prime ec - 1,
      ec_lag_prediction_success_count := x1, ec_lag_prediction_success_run := x2,
      ec_lag_best_predictor := x3, ec_lag_observations := x4, ec_lag_delta_history := x5, ec_lag_scoreboard := x6,
      ec_health_failure := f\<rparr>"
    using lag_insert_upd [of "ec\<lparr>ec_stuck_prime := ec_stuck_prime ec - 1\<rparr>" d] unfolding e_def by blast
  with assms have "idle e"
    by (auto simp: idle_def source_ok_def mem_ok_def split: option.splits)
  with False show ?thesis
    by (auto simp: jent_stuck_def Let_def e_def)
next
  case True
  define e where "e = jent_lag_insert (jent_apt_insert ec d) d"
  have "\<exists>f y1 y2 y3 y4 x1 x2 x3 x4 x5 x6. e = ec\<lparr>ec_apt_observations := y1, ec_apt_count := y2,
      ec_apt_base := y3, ec_apt_base_set := y4, ec_lag_prediction_success_count := x1, ec_lag_prediction_success_run := x2,
      ec_lag_best_predictor := x3, ec_lag_observations := x4, ec_lag_delta_history := x5, ec_lag_scoreboard := x6,
      ec_health_failure := f\<rparr>"
    unfolding e_def by (rule stuck_tests_upd)
  with assms have "idle e"
    by (auto simp: idle_def source_ok_def mem_ok_def split: option.splits)
  then have "idle (jent_rct_insert e b)" for b
    by (simp add: jent_rct_insert_def Let_def idle_def source_ok_def mem_ok_def split: option.splits)
  from idle_rct_mem [OF this] True show ?thesis
    by (simp add: jent_stuck_def Let_def e_def)
qed

context noise_source
begin

lemma idle_measurement:
  assumes "idle ec"
  shows "\<exists>b d ec' env'. measurement rd fuel ec env = Some (b, d, ec', env') \<and> idle ec'"
proof -
  have "source_ok ec"
    using assms by (simp add: idle_def)
  from measures [OF this, of rd fuel env] obtain d p mem loc env1 pool where
    ok: "source_ok (ec\<lparr>ec_mem := mem, ec_memlocation := loc, ec_prev_time := p\<rparr>)" and
    m: "measurement rd fuel ec env = map_option (\<lambda>(stuck, ec', env'). (stuck, d, ec'\<lparr>ec_hash_state := pool ec' env'\<rparr>, env'))
      (jent_stuck rd (ec\<lparr>ec_mem := mem, ec_memlocation := loc, ec_prev_time := p\<rparr>) env1 d)"
    by blast
  have "idle (ec\<lparr>ec_mem := mem, ec_memlocation := loc, ec_prev_time := p\<rparr>)"
    using ok assms by (simp add: idle_def)
  then obtain b ec1 where s: "jent_stuck rd (ec\<lparr>ec_mem := mem, ec_memlocation := loc, ec_prev_time := p\<rparr>) env1 d = Some (b, ec1, env1)"
      "idle ec1"
    using idle_stuck by blast
  have "idle (ec1\<lparr>ec_hash_state := q\<rparr>)" for q
    using s(2) by (simp add: idle_def source_ok_def mem_ok_def split: option.splits)
  with m s(1) show ?thesis
    by simp
qed

end

lemma tei_loop_total:
  assumes m: "\<And>ec env. idle ec \<Longrightarrow> \<exists>b d ec' env'. m ec env = Some (b, d, ec', env') \<and> idle ec'"
  shows "idle ec \<Longrightarrow> \<exists>r. tei_loop m is (ec, env, h, n, tb, cs) = Some r"
proof (induction "is" arbitrary: ec env h n tb cs)
  case (Cons i "is")
  obtain b d ec' env' where "m ec env = Some (b, d, ec', env')" "idle ec'"
    using m [OF Cons.prems] by blast
  with Cons.IH show ?case
    by (simp add: Let_def)
qed simp

lemma tei_measure_total:
  assumes "idle ec"
  shows "\<exists>r. tei_measure fuel h ec env = Some r"
proof -
  have s: "source_ok ec" "\<not> ec_enable_notime ec"
    using assms by (simp_all add: idle_def source_ok_def)
  obtain d p mem env' pool where p: "jent_measure_jitter (jent_random_data fuel) fuel 0 False ec env =
      Some (False, d, ec\<lparr>ec_mem := mem, ec_prev_time := p, ec_hash_state := pool\<rparr>, env')"
    "source_ok (ec\<lparr>ec_mem := mem, ec_prev_time := p, ec_hash_state := pool\<rparr>)"
    using measure_jitter_prime [OF s(1), of "jent_random_data fuel" fuel env] by blast
  let ?ec = "ec\<lparr>ec_mem := mem, ec_prev_time := p, ec_hash_state := pool\<rparr>"
  have i: "idle ?ec"
    using assms p(2) by (simp add: idle_def)
  obtain r where "tei_loop (jent_measure_jitter (jent_random_data fuel) fuel 0 True)
      [- int CLEARCACHE..int JENT_POWERUP_TESTLOOPCOUNT - 1] (?ec, env', h, 0, 0, 0) = Some r"
    using tei_loop_total [of "jent_measure_jitter (jent_random_data fuel) fuel 0 True", OF _ i]
      combined_source.idle_measurement by blast
  with p(1) s(2) show ?thesis
    by (simp add: tei_measure_def jent_notime_settick_def Let_def split_beta)
qed

subsection \<open>Allocation and initialization\<close>

lemma has_or: "has (f OR g) m = (has f m \<or> has g m)" "has f (m OR k) = (has f m \<or> has f k)"
  by (auto simp: has_def bit.conj_disj_distrib bit.conj_disj_distrib2 or_eq_0_iff)

lemma has_self [simp]: "has JENT_DISABLE_INTERNAL_TIMER JENT_DISABLE_INTERNAL_TIMER" "has JENT_FORCE_FIPS JENT_FORCE_FIPS"
  "has JENT_INT_MEASURE_CLOCK JENT_INT_MEASURE_CLOCK" "\<not> has JENT_DISABLE_INTERNAL_TIMER JENT_FORCE_INTERNAL_TIMER"
  "\<not> has JENT_DISABLE_INTERNAL_TIMER JENT_NTG1"
  by (simp_all add: has_def flag_defs)

lemma collector_setup_total:
  assumes dis: "has flags JENT_DISABLE_INTERNAL_TIMER" and osr: "1 \<le> osr" "osr \<le> JENT_MAX_OSR"
  shows "\<exists>r. collector_setup tei osr flags env = Some r"
proof -
  let ?e0 = "zero_rand_data\<lparr>ec_max_mem_set := (JENT_FLAGS_TO_MAX_MEMSIZE flags \<noteq> 0)\<rparr>"
  obtain ok f1 e1 env1 where m: "collector_memory flags ?e0 env = (ok, f1, e1, env1)"
    by (cases "collector_memory flags ?e0 env")
  obtain f2 e2 where cf: "collector_configure (env_fips env1) osr f1 e1 = (f2, e2)"
    by fastforce
  define t where "t = (if has f2 JENT_NTG1 then jent_health_init_type_ntg1 else jent_health_init_type_common)"
  obtain ret e3 where hi: "jent_health_init e2 t = (ret, e3)"
    by fastforce
  have "ret = 0" "has f2 JENT_DISABLE_INTERNAL_TIMER"
    using configured_fresh [OF m cf hi osr] dis by (simp_all add: has_bit)
  with m cf hi show ?thesis
    by (simp add: collector_setup_def Let_def t_def [symmetric] split: option.splits)
qed

lemma alloc_body_effective:
  "alloc_internal_body tei init osr flags env =
    (if has flags (JENT_DISABLE_INTERNAL_TIMER OR JENT_NTG1) \<and> has flags JENT_FORCE_INTERNAL_TIMER then Some (None, env)
     else if ensure_osr_is_at_least_minimal osr > JENT_MAX_OSR then Some (None, env)
     else Option.bind (if \<not> has flags JENT_INT_MEASURE_CLOCK \<and> \<not> g_selftest_run env
         then init (ensure_osr_is_at_least_minimal osr) flags env else Some (0, env)) (\<lambda>(r, env1).
       if r \<noteq> 0 then Some (None, env1)
       else if jent_notime_forced env1 \<and> has (effective flags) JENT_DISABLE_INTERNAL_TIMER then Some (None, env1)
       else if \<not> fst (jent_zalloc Sizeof_rand_data (effective flags) env1)
       then Some (None, snd (jent_zalloc Sizeof_rand_data (effective flags) env1))
       else collector_setup tei (ensure_osr_is_at_least_minimal osr) (effective flags)
         (snd (jent_zalloc Sizeof_rand_data (effective flags) env1))))"
  by (simp only: alloc_internal_body_def effective_def Let_def split_beta)

lemma alloc_body_total:
  assumes dis: "has flags JENT_DISABLE_INTERNAL_TIMER \<or> has flags JENT_NTG1"
    and init: "\<And>o'. \<not> has flags JENT_INT_MEASURE_CLOCK \<Longrightarrow> \<exists>r env'. init o' flags env = Some (r, env')"
  shows "\<exists>r. alloc_internal_body tei init osr flags env = Some r"
proof -
  let ?o = "ensure_osr_is_at_least_minimal osr"
  have o1: "1 \<le> ?o"
    using ensure_osr_ge(1) [of osr] by (simp add: JENT_MIN_OSR_def word_le_nat_alt)
  have d: "has (effective flags) JENT_DISABLE_INTERNAL_TIMER"
    using dis by (auto simp: effective_def has_or)
  obtain r env1 where i: "(if \<not> has flags JENT_INT_MEASURE_CLOCK \<and> \<not> g_selftest_run env then init ?o flags env
      else Some (0, env)) = Some (r, env1)"
  proof (cases "\<not> has flags JENT_INT_MEASURE_CLOCK \<and> \<not> g_selftest_run env")
    case True
    with init [of ?o] that show thesis
      by auto
  next
    case False
    with that show thesis
      by auto
  qed
  show ?thesis
  proof (cases "?o \<le> JENT_MAX_OSR")
    case True
    have "\<exists>x. collector_setup tei ?o (effective flags) e = Some x" for e
      by (rule collector_setup_total [OF d o1 True])
    then show ?thesis
      unfolding alloc_body_effective i by simp
  next
    case False
    then show ?thesis
      unfolding alloc_body_effective by (simp add: not_le)
  qed
qed

lemma fresh_idle:
  assumes "fresh fips osr flags ec" "has flags JENT_DISABLE_INTERNAL_TIMER"
  shows "idle ec"
  using assms by (simp add: fresh_def idle_def source_ok_def cutoffs_ok_def)

lemma alloc_measure_total:
  assumes "has flags JENT_DISABLE_INTERNAL_TIMER" "has flags JENT_INT_MEASURE_CLOCK" "0 < n"
  shows "\<exists>c env'. jent_entropy_collector_alloc_internal n osr flags env = Some (c, env') \<and> (\<forall>ec. c = Some ec \<longrightarrow> idle ec)"
proof -
  obtain m where n: "n = Suc m"
    using assms(3) gr0_implies_Suc by blast
  obtain c env' where a: "jent_entropy_collector_alloc_internal n osr flags env = Some (c, env')"
    using alloc_body_total [of flags "jent_entropy_init_ex m" env "jent_time_entropy_init m" osr] assms n by auto
  have "has (effective flags) JENT_DISABLE_INTERNAL_TIMER"
    using assms(1) by (simp add: effective_def has_or)
  then show ?thesis
    using a alloc_resultD(5) [OF alloc_internal_spec [OF a]] fresh_idle by blast
qed

lemma tei_total:
  assumes "\<not> has flags JENT_FORCE_INTERNAL_TIMER" "2 \<le> n"
  shows "\<exists>r env'. jent_time_entropy_init n osr flags env = Some (r, env')"
proof -
  define k where "k = n - 1"
  have n: "n = Suc k" "0 < k"
    using assms(2) by (simp_all add: k_def)
  let ?f = "((flags OR JENT_DISABLE_INTERNAL_TIMER) OR JENT_FORCE_FIPS) OR JENT_INT_MEASURE_CLOCK"
  have f: "has ?f JENT_DISABLE_INTERNAL_TIMER" "has ?f JENT_INT_MEASURE_CLOCK"
    by (simp_all add: has_or)
  obtain h env1 where g: "jent_gcd_init JENT_POWERUP_TESTLOOPCOUNT flags env = (h, env1)"
    by fastforce
  obtain c env2 where c: "jent_entropy_collector_alloc_internal k osr ?f env1 = Some (c, env2)" "\<forall>ec. c = Some ec \<longrightarrow> idle ec"
    using alloc_measure_total [OF f n(2)] by blast
  have "\<exists>x. time_entropy_init_body k (jent_entropy_collector_alloc_internal k) osr flags env = Some x"
    using g c assms(1) tei_measure_total
    by (cases h; cases c) (auto simp: time_entropy_init_body_def Let_def)
  then show ?thesis
    by (simp add: n(1))
qed

lemma init_ex_total:
  assumes "has flags JENT_DISABLE_INTERNAL_TIMER \<or> has flags JENT_NTG1" "3 \<le> n"
  shows "\<exists>r env'. jent_entropy_init_ex n osr flags env = Some (r, env')"
proof -
  define k where "k = n - 1"
  have n: "n = Suc k" "2 \<le> k"
    using assms(2) by (simp_all add: k_def)
  define f where "f = jent_update_secure_mem (env_fips env) flags"
  have f: "has f JENT_DISABLE_INTERNAL_TIMER \<or> has f JENT_NTG1"
    using assms(1) by (simp add: f_def has_bit secure_mem_bits)
  define env0 where "env0 = jent_health_cb_block_switch (jent_notime_block_switch env)"
  obtain r1 env1 where pre: "jent_entropy_init_common_pre f env0 = (r1, env1)"
    by fastforce
  show ?thesis
  proof (cases "has f JENT_FORCE_INTERNAL_TIMER")
    case True
    with f show ?thesis
      by (auto simp: n(1) init_ex_body_def Let_def f_def [symmetric])
  next
    case False
    then have "\<not> has (f OR JENT_DISABLE_INTERNAL_TIMER) JENT_FORCE_INTERNAL_TIMER"
      by (simp add: has_or)
    from tei_total [OF this n(2)] obtain r2 env2 where
      "jent_time_entropy_init k osr (f OR JENT_DISABLE_INTERNAL_TIMER) env1 = Some (r2, env2)"
      by blast
    with False f pre show ?thesis
      by (simp add: n(1) init_ex_body_def Let_def f_def [symmetric] env0_def [symmetric] has_or jent_entropy_init_common_post_def)
  qed
qed

lemma alloc_internal_total:
  assumes "has flags JENT_DISABLE_INTERNAL_TIMER \<or> has flags JENT_NTG1" "4 \<le> n"
  shows "\<exists>c env'. jent_entropy_collector_alloc_internal n osr flags env = Some (c, env')"
proof -
  define k where "k = n - 1"
  have n: "n = Suc k" "3 \<le> k"
    using assms(2) by (simp_all add: k_def)
  from alloc_body_total [OF assms(1), of "jent_entropy_init_ex k" env "jent_time_entropy_init k" osr]
    init_ex_total [OF assms(1) n(2)] show ?thesis
    by (simp add: n(1))
qed

subsection \<open>Replacement and startup in FIPS mode\<close>

lemma fresh_run_ok:
  assumes "fresh fips osr flags ec" "JENT_MIN_OSR \<le> osr" "osr \<le> JENT_MAX_OSR" "has flags JENT_DISABLE_INTERNAL_TIMER"
    and "ec_is_fips_enabled ec"
  shows "run_ok ec"
proof -
  have "1 \<le> osr"
    using assms(2) by (simp add: JENT_MIN_OSR_def word_le_nat_alt)
  moreover have "0 < ec_rct_cutoff_permanent ec"
    using assms(1) by (auto simp: fresh_def cutoffs_ok_def)
  ultimately show ?thesis
    using assms by (simp add: fresh_def run_ok_def source_ok_def cutoffs_ok_def word_less_nat_alt)
qed

lemma run_ok_duplicate:
  assumes "run_ok new_ec"
  shows "run_ok (jent_health_duplicate new_ec old_ec)"
proof -
  have "(ucast (ec_rct_cutoff new_ec) :: u32) < ucast (ec_rct_cutoff_permanent new_ec)"
    using assms by (simp add: run_ok_def word_less_nat_alt unsigned_ucast_eq take_bit_nat_eq_self
        order_less_le_trans [OF unsigned_less [where 'b = 16]])
  with assms show ?thesis
    by (simp add: jent_health_duplicate_def jent_rct_duplicate_def jent_rct_mem_duplicate_def jent_apt_duplicate_def
      jent_apt_reinit_def jent_lag_duplicate_def Let_def run_ok_def source_ok_def mem_ok_def split: option.splits)
qed

lemma duplicate_startup: "ec_startup_state (jent_health_duplicate new_ec old_ec) = ec_startup_state new_ec"
  by (simp add: jent_health_duplicate_def jent_rct_duplicate_def jent_rct_mem_duplicate_def jent_apt_duplicate_def
      jent_apt_reinit_def jent_lag_duplicate_def Let_def)

lemma reset_init_loop_total:
  "(\<And>o' e. \<exists>r e'. init o' flags e = Some (r, e')) \<Longrightarrow> \<exists>r env'. reset_init_loop init osr flags env = Some (r, env')"
proof (induction init osr flags env rule: reset_init_loop.induct)
  case (1 init osr flags env)
  obtain r e where i: "init osr flags env = Some (r, e)"
    using 1(2) by blast
  show ?case
    using 1(1) [OF i refl] 1(2) i by (subst reset_init_loop.simps) simp
qed

text \<open>What the replacement needs of the startup.\<close>

definition starts :: "startup_op \<Rightarrow> bool" where
  "starts st \<longleftrightarrow> (\<forall>ec env. run_ok ec \<longrightarrow> sound (env_fips env) ec \<longrightarrow> ec_startup_state ec = jent_startup_memory \<longrightarrow>
     (\<exists>c env'. st ec env = Some (c, env') \<and> (\<forall>ec'. c = Some ec' \<longrightarrow> run_ok ec')))"

lemma run_ok_inherit [simp]: "run_ok (reset_inherit new_ec ec) = run_ok new_ec"
  by (simp add: reset_inherit_def run_ok_def source_ok_def mem_ok_def split: option.splits)

lemma reset_new_ready:
  assumes ec: "run_ok ec" "sound fips ec" and osr: "ec_osr ec < osr" "osr \<le> JENT_MAX_OSR"
    and new: "fresh fips osr (effective (reset_target cache ec)) new_ec"
    and d: "has (effective (reset_target cache ec)) JENT_DISABLE_INTERNAL_TIMER"
  shows "run_ok (reset_inherit new_ec ec) \<and> sound fips (reset_inherit new_ec ec) \<and>
    ec_startup_state (reset_inherit new_ec ec) = jent_startup_memory"
proof -
  note h = inherit_good [OF ec(2) new osr]
  have fips: "ec_is_fips_enabled new_ec"
    using h ec(1) by (simp add: heir_def run_ok_def reset_inherit_def)
  have "JENT_MIN_OSR \<le> osr"
    using ec(2) osr(1) unfolding sound_def by (meson less_imp_le order_trans)
  moreover have "ec_startup_state (reset_inherit new_ec ec) = jent_startup_memory"
    using new fips by (simp add: reset_inherit_def fresh_def)
  ultimately show ?thesis
    using fresh_run_ok [OF new _ osr(2) d fips] h by simp
qed

lemma reset_total:
  assumes ec: "run_ok ec" "sound (env_fips env) ec" and n: "4 \<le> n" and st: "b \<Longrightarrow> starts (jent_entropy_collector_startup n)"
  shows "\<exists>ret ec' env'. jent_health_failure_reset (Suc n) ec b env = Some (ret, ec', env') \<and>
    (ret = 0 \<longrightarrow> run_ok ec' \<and> (\<not> b \<longrightarrow> ec_startup_state ec' = jent_startup_memory))"
proof -
  define f where "f = reset_target (env_cache env) ec"
  have "has (reset_flags ec) JENT_DISABLE_INTERNAL_TIMER"
    using ec(1) by (simp add: reset_flags_def has_or run_ok_def source_ok_def)
  then have d: "has f JENT_DISABLE_INTERNAL_TIMER"
    by (simp add: f_def reset_target_def has_bit update_hashloop_other update_memsize_other)
  then have d': "has (effective f) JENT_DISABLE_INTERNAL_TIMER"
    by (simp add: effective_def has_or)
  have "\<exists>ret ec' env'. failure_reset_body (jent_entropy_init_ex n) (jent_entropy_collector_alloc_internal n)
      (jent_entropy_collector_startup n) ec b env = Some (ret, ec', env') \<and>
    (ret = 0 \<longrightarrow> run_ok ec' \<and> (\<not> b \<longrightarrow> ec_startup_state ec' = jent_startup_memory))"
  proof (cases "ec_osr ec + 1 > JENT_MAX_OSR")
    case True
    then show ?thesis
      by (simp add: failure_reset_body_def)
  next
    case False
    obtain r env1 where lp: "reset_init_loop (jent_entropy_init_ex n) (ec_osr ec + 1) f env = Some (r, env1)"
      using reset_init_loop_total [of "jent_entropy_init_ex n" f] init_ex_total [of f n] d n by fastforce
    note l = reset_init_loop_spec [OF init_ex_evolving leI [OF False] lp]
    note body = failure_reset_body_def [of "jent_entropy_init_ex n" "jent_entropy_collector_alloc_internal n"
        "jent_entropy_collector_startup n" ec b env, unfolded Let_def, folded reset_target_def, folded f_def, unfolded lp]
    show ?thesis
    proof (cases r)
      case None
      with False show ?thesis
        by (simp add: body)
    next
      case (Some osr)
      obtain c env2 where al: "jent_entropy_collector_alloc_internal n osr f env1 = Some (c, env2)"
        using alloc_internal_total [of f n] d n by blast
      note sp = alloc_resultD [OF alloc_internal_spec [OF al]]
      have gt: "ec_osr ec < ensure_osr_is_at_least_minimal osr"
        using l osr_inc(1) [of "ec_osr ec"] ec(2) Some ensure_osr_ge(2) [of osr] by (auto simp: sound_def)
      have fips: "env_fips env1 = env_fips env" "env_fips env2 = env_fips env"
        using steps_fips [OF conjunct1 [OF l]] sp(2) by simp_all
      show ?thesis
      proof (cases c)
        case None
        with False Some al show ?thesis
          by (simp add: body)
      next
        case c: (Some new_ec)
        let ?new = "reset_inherit new_ec ec"
        have new: "run_ok ?new" "sound (env_fips env2) ?new" "ec_startup_state ?new = jent_startup_memory"
          using reset_new_ready [OF ec gt sp(4) [OF c] sp(5) [OF c, unfolded fips f_def] d' [unfolded f_def]] fips by simp_all
        obtain c3 env3 where "(if b then jent_entropy_collector_startup n ?new env2 else Some (Some ?new, env2)) = Some (c3, env3)"
          "\<forall>ec'. c3 = Some ec' \<longrightarrow> run_ok ec' \<and> (\<not> b \<longrightarrow> ec_startup_state ec' = jent_startup_memory)"
          using st new unfolding starts_def by (cases b) fastforce+
        with False Some al c show ?thesis
          by (cases c3) (simp_all add: body run_ok_duplicate duplicate_startup)
      qed
    qed
  qed
  then show ?thesis
    by simp
qed

lemma settick_platform: "\<not> ec_enable_notime ec \<Longrightarrow> jent_notime_settick ec env = (0, ec, env)"
  by (simp add: jent_notime_settick_def)

lemma run_ok_platform: "run_ok ec \<Longrightarrow> \<not> ec_enable_notime ec"
  by (simp add: run_ok_def source_ok_def)

definition started :: "rand_data \<Rightarrow> bool" where
  "started ec \<longleftrightarrow> run_ok ec \<and> ec_startup_state ec = jent_startup_completed \<and> ec_health_failure ec = 0"

lemma startup_loop_total:
  assumes fuel: "9000002 \<le> fuel" and n: "4 \<le> n"
  shows "run_ok ec \<Longrightarrow> sound (env_fips env) ec \<Longrightarrow> 21 \<le> rounds + unat (ec_osr ec) \<Longrightarrow>
    \<exists>c env'. startup_loop rounds (jent_health_failure_reset (Suc n)) (jent_random_data fuel) ec env = Some (c, env') \<and>
      (\<forall>ec'. c = Some ec' \<longrightarrow> started ec')"
proof (induction rounds arbitrary: ec env)
  case 0
  then show ?case
    by (simp add: sound_def word_le_nat_alt JENT_MAX_OSR_def)
next
  case (Suc rounds)
  obtain ec1 env1 where rd: "jent_random_data fuel ec env = Some (ec1, env1)" "run_ok ec1"
      "ec_startup_state ec1 = jent_startup_completed"
    using random_data_total [OF Suc.prems(1) fuel] by blast
  obtain h env2 where h: "jent_health_failure ec1 env1 = (h, env2)"
    by fastforce
  have c1: "cfg ec1 = cfg ec"
    using keepsD [OF random_data_keeps rd(1)] by blast
  have "steps {#} {#} env env2"
    using steps_trans [OF keeps_steps [OF random_data_keeps rd(1)] seen_steps [OF health_failure_seen [OF h]]] .
  then have f2: "env_fips env2 = env_fips env"
    by (rule steps_fips)
  have s1: "sound (env_fips env2) ec1"
    using sound_cfg [OF c1 Suc.prems(2)] f2 by simp
  show ?case
  proof (cases "h = 0")
    case True
    with h rd(2) have "ec_health_failure ec1 = 0"
      by (simp add: health_failure_zero jent_health_failure_query_def run_ok_def)
    with True rd h show ?thesis
      by (simp add: unsettick_platform run_ok_platform started_def)
  next
    case False
    obtain ret ec2 env3 where r: "jent_health_failure_reset (Suc n) ec1 False env2 = Some (ret, ec2, env3)"
        "ret = 0 \<longrightarrow> run_ok ec2 \<and> ec_startup_state ec2 = jent_startup_memory"
      using reset_total [OF rd(2) s1 n, of False] by auto
    note rr = reset_goodD [OF reset_good s1 r(1), unfolded reset_result_def]
    show ?thesis
    proof (cases "ret = 0")
      case ret: False
      with False rd h r(1) show ?thesis
        by (simp del: jent_health_failure_reset.simps)
    next
      case True
      have "env_fips env3 = env_fips env2" "ec_osr ec1 = ec_osr ec"
        using steps_fips [OF conjunct1 [OF rr]] c1 by (simp_all add: cfg_def)
      then have "sound (env_fips env3) ec2" "21 \<le> rounds + unat (ec_osr ec2)"
        using rr True Suc.prems(3) by (simp_all add: word_less_nat_alt)
      from Suc.IH [OF _ this] r(2) True False rd h r(1) show ?thesis
        by (simp del: jent_health_failure_reset.simps add: settick_platform run_ok_platform)
    qed
  qed
qed

lemma startup_total:
  assumes "9000002 \<le> n" "run_ok ec" "sound (env_fips env) ec"
  shows "\<exists>c env'. jent_entropy_collector_startup (Suc n) ec env = Some (c, env') \<and> (\<forall>ec'. c = Some ec' \<longrightarrow> started ec')"
proof -
  define m where "m = n - 1"
  have n: "n = Suc m" "4 \<le> m" "21 \<le> n + unat (ec_osr ec)"
    using assms(1) by (simp_all add: m_def)
  have "jent_entropy_collector_startup (Suc n) ec env =
      startup_loop n (jent_health_failure_reset n) (jent_random_data n) ec env"
    by (simp add: startup_body_def settick_platform [OF run_ok_platform [OF assms(2)]])
  with startup_loop_total [OF assms(1) n(2) assms(2,3) n(3), folded n(1)] show ?thesis
    by simp
qed

lemma starts_startup:
  assumes "9000003 \<le> n"
  shows "starts (jent_entropy_collector_startup n)"
proof -
  define m where "m = n - 1"
  have m: "n = Suc m" "9000002 \<le> m"
    using assms by (simp_all add: m_def)
  show ?thesis
    unfolding starts_def m(1) using startup_total [OF m(2)] unfolding started_def by blast
qed

subsection \<open>Allocation and safe read in FIPS mode\<close>

text \<open>The flags of a collector in FIPS mode on the platform clock.\<close>

definition fips_platform :: "bool \<Rightarrow> u32 \<Rightarrow> bool" where
  "fips_platform fips flags \<longleftrightarrow> has flags JENT_NTG1 \<or>
     has flags JENT_DISABLE_INTERNAL_TIMER \<and> (has flags JENT_FORCE_FIPS \<or> fips)"

lemma alloc_started_total:
  assumes fp: "fips_platform (env_fips env) flags" and n: "9000003 \<le> n"
  shows "\<exists>c env'. alloc_started n osr flags env = Some (c, env') \<and> (\<forall>ec. c = Some ec \<longrightarrow> started ec)"
proof (cases "jent_memaccess_contradicts (env_fips env) flags")
  case True
  then show ?thesis
    by (simp add: alloc_started_def)
next
  case False
  let ?f = "jent_update_secure_mem (env_fips env) flags"
  have f: "fips_platform (env_fips env) ?f"
    using fp by (simp add: fips_platform_def has_bit secure_mem_bits)
  then have "has ?f JENT_DISABLE_INTERNAL_TIMER \<or> has ?f JENT_NTG1"
    by (auto simp: fips_platform_def)
  then obtain c1 env1 where a: "jent_entropy_collector_alloc_internal n osr ?f env = Some (c1, env1)"
    using alloc_internal_total n by fastforce
  note sp = alloc_resultD [OF alloc_internal_spec [OF a]]
  show ?thesis
  proof (cases c1)
    case None
    with False a show ?thesis
      by (simp add: alloc_started_def)
  next
    case (Some ec)
    let ?o = "ensure_osr_is_at_least_minimal osr"
    have fr: "fresh (env_fips env) ?o (effective ?f) ec" "?o \<le> JENT_MAX_OSR"
      using sp(4,5) [OF Some] by simp_all
    have fips: "env_fips env1 = env_fips env"
      by (rule sp(2))
    have "has (effective ?f) JENT_DISABLE_INTERNAL_TIMER"
      using f by (auto simp: effective_def fips_platform_def has_or)
    moreover have "ec_is_fips_enabled ec"
      using f fr(1) by (auto simp: fresh_def fips_platform_def effective_def has_or)
    ultimately have "run_ok ec"
      by (rule fresh_run_ok [OF fr(1) ensure_osr_ge(1) fr(2)])
    moreover have "sound (env_fips env1) ec"
      using fresh_sound [OF fr(1) ensure_osr_ge(1) fr(2)] fips by simp
    ultimately obtain c2 env2 where st: "jent_entropy_collector_startup n ec env1 = Some (c2, env2)"
        "\<forall>ec'. c2 = Some ec' \<longrightarrow> started ec'"
      using startup_total [of "n - 1" ec env1] n by (cases n) auto
    have "started (ec'\<lparr>ec_uuid := u\<rparr>)" if "started ec'" for ec' u
      using that by (simp add: started_def run_ok_def source_ok_def mem_ok_def split: option.splits)
    with False a Some st show ?thesis
      by (cases c2) (simp_all add: alloc_started_def Let_def split_beta)
  qed
qed

lemma safe_loop_total:
  assumes fuel: "9000004 \<le> fuel"
  shows "run_ok ec \<Longrightarrow> sound (env_fips env) ec \<Longrightarrow> len \<le> ssize_max \<Longrightarrow> 22 \<le> r + unat (ec_osr ec) \<Longrightarrow>
    \<exists>ret ec' data' env'. safe_loop r fuel ec data p len orig_len env = Some (ret, ec', data', env') \<and> run_ok ec'"
proof (induction r arbitrary: ec data p env)
  case 0
  then show ?case
    by (simp add: sound_def word_le_nat_alt JENT_MAX_OSR_def)
next
  case (Suc r)
  have "0 < r"
    using Suc.prems by (simp add: sound_def word_le_nat_alt JENT_MAX_OSR_def)
  then obtain r' where r': "r = Suc r'"
    using gr0_implies_Suc by blast
  obtain ret ec1 tail env1 where rd: "read_entropy_from fuel ec (drop p data) len env = Some (ret, ec1, tail, env1)" "run_ok ec1"
    using read_entropy_from_total [OF Suc.prems(1) order_trans [OF _ fuel], of "drop p data" len env] by auto
  note k = read_entropy_from_keeps [OF rd(1) Suc.prems(2), where A = "{#}" and th = Notime_Builtin]
  have f1: "env_fips env1 = env_fips env" "sound (env_fips env1) ec1"
    using k steps_fips [OF conjunct1 [OF k]] by simp_all
  define m where "m = fuel - 1"
  have m: "fuel = Suc m" "4 \<le> m" "9000003 \<le> m"
    using fuel by (simp_all add: m_def)
  obtain rr ec2 env2 where rs: "jent_health_failure_reset fuel ec1 True env1 = Some (rr, ec2, env2)" "rr = 0 \<longrightarrow> run_ok ec2"
    using reset_total [OF rd(2) f1(2) m(2) starts_startup [OF m(3)], of True] unfolding m(1) by auto
  note rg = reset_goodD [OF reset_good f1(2) rs(1), unfolded reset_result_def]
  have f2: "env_fips env2 = env_fips env1"
    using steps_fips [OF conjunct1 [OF rg]] .
  have "\<exists>ret ec' data' env'. safe_loop r fuel ec2 d p len orig_len env2 = Some (ret, ec', data', env') \<and> run_ok ec'" if "rr = 0" for d
    using that rg rs(2) k f2 Suc.prems(3,4) by (intro Suc.IH) (simp_all add: word_less_nat_alt)
  moreover have "\<exists>rt ec' data' env'. safe_loop r fuel ec1 d q (len - of_int ret) orig_len env1 = Some (rt, ec', data', env') \<and>
      run_ok ec'" if "ret \<ge> 0" "len \<noteq> 0" for d q
  proof -
    have "len - of_int ret = 0"
      using k that Suc.prems(3) by auto
    with rd(2) show ?thesis
      by (simp add: r' safe_loop_done)
  qed
  moreover have "run_ok ec2"
    using rs rg rd(2) by (cases "rr = 0") auto
  ultimately show ?case
    using rd rs(1) Suc.prems(1) by (simp add: safe_loop_Suc del: jent_health_failure_reset.simps)
qed

subsection \<open>The properties of the life cycle\<close>

lemma measure_flag_bits: "n \<noteq> 22 \<Longrightarrow> bit (flags AND NOT JENT_INT_MEASURE_CLOCK) n = bit flags n"
proof -
  have e: "JENT_INT_MEASURE_CLOCK = 2 ^ 22"
    by (simp add: JENT_INT_MEASURE_CLOCK_def)
  have "n = 22" if "bit JENT_INT_MEASURE_CLOCK n" for n
    using that unfolding e bit_exp_iff by simp
  then show "n \<noteq> 22 \<Longrightarrow> ?thesis"
    by (auto simp only: bit_and_iff bit_not_iff simp_thms dest: bit_imp_possible_bit)
qed

text \<open>C7: an allocation in FIPS mode on the platform clock returns, whatever the clock, the allocators and the
  state of the library are: either with the null pointer, or with a collector that has completed its startup
  sequence without a health failure and satisfies the invariant every other operation relies on, at an
  oversampling rate between the requested one and the maximum. The startup that replaces the collector
  with every failure ends, because the rate rises each time. The memory that is live afterwards is that of
  before and the blocks of the returned collector: nothing the allocation, the startup measurement and the
  replaced collectors have used is left, and nothing is freed twice or with a wrong size.\<close>

theorem collector_alloc_returns:
  assumes "fips_platform (env_fips env) flags" "9000003 \<le> fuel"
  shows "\<exists>c env'. jent_entropy_collector_alloc fuel osr flags env = Some (c, env') \<and> evolves env env' \<and>
    (owns env H \<longrightarrow> owns env' (H + held (g_notime_thread env) c)) \<and>
    (case c of None \<Rightarrow> True
     | Some ec \<Rightarrow> started ec \<and> sound (env_fips env) ec \<and> ensure_osr_is_at_least_minimal osr \<le> ec_osr ec)"
proof -
  have "fips_platform (env_fips env) (flags AND NOT JENT_INT_MEASURE_CLOCK)"
    using assms(1) by (simp add: fips_platform_def has_bit measure_flag_bits)
  from alloc_started_total [OF this assms(2)] obtain c env' where
    "jent_entropy_collector_alloc fuel osr flags env = Some (c, env')" "\<forall>ec. c = Some ec \<longrightarrow> started ec"
    unfolding jent_entropy_collector_alloc_def by blast
  with alloc_started_good [of fuel osr "flags AND NOT JENT_INT_MEASURE_CLOCK" env c env'] show ?thesis
    by (cases c) (auto simp: jent_entropy_collector_alloc_def steps_def)
qed

theorem collector_alloc_returns_witness:
  "\<exists>c env'. jent_entropy_collector_alloc 9000003 3 JENT_NTG1 start_env = Some (c, env') \<and>
     (case c of None \<Rightarrow> True | Some ec \<Rightarrow> started ec \<and> sound False ec \<and> 3 \<le> ec_osr ec)"
proof -
  have "fips_platform (env_fips start_env) JENT_NTG1"
    by (simp add: fips_platform_def has_def JENT_NTG1_def)
  note r = collector_alloc_returns [OF this order_refl, of 3]
  have e: "ensure_osr_is_at_least_minimal 3 = 3" "env_fips start_env = False"
    by (simp_all add: ensure_osr_is_at_least_minimal_def JENT_MIN_OSR_def start_env_def)
  show ?thesis
    using r unfolding e by blast
qed

lemma read_safe_total:
  assumes "run_ok ec" "sound (env_fips env) ec" "9000004 \<le> fuel" "19 \<le> rounds"
  shows "\<exists>ret ec' data' env'. jent_read_entropy_safe rounds fuel (Some (Some ec)) data len env =
    Some (ret, Some (Some ec'), data', env') \<and> run_ok ec' \<and> sound (env_fips env) ec' \<and> ec_uuid ec' = ec_uuid ec \<and>
    ec_osr ec \<le> ec_osr ec'"
proof -
  define n where "n = (if len > ssize_max then ssize_max else len)"
  have n: "n \<le> ssize_max" "22 \<le> rounds + unat (ec_osr ec)"
    using assms(2,4) by (auto simp: n_def not_less sound_def JENT_MIN_OSR_def word_le_nat_alt)
  obtain ret ec' d env' where s: "safe_loop rounds fuel ec (case data of Some b \<Rightarrow> b | None \<Rightarrow> []) 0 n (int (unat n)) env =
      Some (ret, ec', d, env')" "run_ok ec'"
    using safe_loop_total [OF assms(3,1,2) n] by blast
  note k = safe_loop_keeps [OF assms(2) s(1)]
  have z: "\<exists>ret ec' d env'. read_entropy_from fuel ec (case data of Some b \<Rightarrow> b | None \<Rightarrow> []) 0 env = Some (ret, ec', d, env') \<and>
      run_ok ec'"
    using read_entropy_from_total [OF assms(1) order_trans [OF _ assms(3)]] by simp
  show ?thesis
  proof (cases "len = 0")
    case False
    with s k assms(1,2) show ?thesis
      by (auto simp: jent_read_entropy_safe_def n_def [symmetric])
  next
    case True
    with z assms(1,2) read_entropy_from_keeps [OF _ assms(2), of fuel _ 0 env, where A = "{#}" and th = Notime_Builtin] show ?thesis
      by (fastforce simp: jent_read_entropy_safe_def jent_read_entropy_def)
  qed
qed

text \<open>C8: a safe read in FIPS mode on the platform clock returns for every buffer and length: the health failures
  that make it replace the collector can occur at most once per step of the oversampling rate up to the
  maximum, so that nineteen rounds are enough.\<close>

theorem read_safe_returns:
  assumes "run_ok ec" "sound (env_fips env) ec" "9000004 \<le> fuel" "19 \<le> rounds"
  shows "\<exists>ret ec' data' env'. jent_read_entropy_safe rounds fuel (Some (Some ec)) data len env =
    Some (ret, Some (Some ec'), data', env') \<and> run_ok ec' \<and> sound (env_fips env) ec' \<and> ec_uuid ec' = ec_uuid ec \<and>
    ec_osr ec \<le> ec_osr ec'"
  using assms by (rule read_safe_total)

lemma sample_collector_sound: "sound True sample_collector"
  by (simp add: sound_def drbg_mem_def mem_match_def sample_collector_def health_init_defs jent_rct_init_def Let_def
      JENT_MAX_OSR_def JENT_MIN_OSR_def zero_sha_ctx_def)

theorem read_safe_returns_witness:
  "\<exists>ret ec' data' env'. jent_read_entropy_safe 19 9000004 (Some (Some sample_collector)) (Some (replicate 40 0)) 40
     (start_env\<lparr>env_fips := True\<rparr>) = Some (ret, Some (Some ec'), data', env') \<and> run_ok ec' \<and> sound True ec'"
proof -
  have "sound (env_fips (start_env\<lparr>env_fips := True\<rparr>)) sample_collector"
    using sample_collector_sound by simp
  from read_safe_returns [OF sample_collector_ok this order_refl order_refl, of "Some (replicate 40 0)" 40] show ?thesis
    by auto
qed




end
