(* ===== verification/Jent_Api.thy ===== *)
theory Jent_Api
  imports Jent_Total Jent_Kat
begin

text \<open>
  An application that uses the library: any sequence of calls of the interface in \<^verbatim>\<open>jitterentropy.h\<close>, in any order and
  with any arguments, as a step relation on the world and the collectors the application holds. The
  invariant of the reachable states has the collectors, the live memory and the configuration windows.
\<close>

type_synonym app = "jent_env \<times> rand_data list"

text \<open>A call that does not return is not a step; a collector that was freed is no longer held.\<close>

inductive api_step :: "app \<Rightarrow> app \<Rightarrow> bool" where
  call_init: "jent_entropy_init fuel env = Some (ret, env') \<Longrightarrow> api_step (env, ecs) (env', ecs)"
| call_init_ex: "jent_entropy_init_ex fuel osr flags env = Some (ret, env') \<Longrightarrow> api_step (env, ecs) (env', ecs)"
| call_alloc: "jent_entropy_collector_alloc fuel osr flags env = Some (c, env') \<Longrightarrow>
    api_step (env, ecs) (env', ecs @ (case c of None \<Rightarrow> [] | Some ec \<Rightarrow> [ec]))"
| call_alloc_raw: "jent_entropy_collector_alloc_raw fuel osr flags env = Some (c, env') \<Longrightarrow>
    api_step (env, ecs) (env', ecs @ (case c of None \<Rightarrow> [] | Some ec \<Rightarrow> [ec]))"
| call_read: "i < length ecs \<Longrightarrow> jent_read_entropy fuel (Some (ecs ! i)) data len env = Some (ret, Some ec, data', env') \<Longrightarrow>
    api_step (env, ecs) (env', ecs[i := ec])"
| call_read_safe: "i < length ecs \<Longrightarrow>
    jent_read_entropy_safe rounds fuel (Some (Some (ecs ! i))) data len env = Some (ret, Some (Some ec), data', env') \<Longrightarrow>
    api_step (env, ecs) (env', ecs[i := ec])"
| call_selftest: "i < length ecs \<Longrightarrow> jent_selftest (Some (ecs ! i)) env = (ret, Some ec) \<Longrightarrow>
    api_step (env, ecs) (env, ecs[i := ec])"
| call_free: "i < length ecs \<Longrightarrow>
    api_step (env, ecs) (jent_entropy_collector_free (Some (ecs ! i)) env, take i ecs @ drop (Suc i) ecs)"
| call_switch_notime: "jent_entropy_switch_notime_impl offer env = (ret, env') \<Longrightarrow> api_step (env, ecs) (env', ecs)"
| call_set_notime_cpu: "jent_entropy_set_notime_cpu cpu env = (ret, env') \<Longrightarrow> api_step (env, ecs) (env', ecs)"
| call_set_callback: "jent_set_fips_failure_callback cb env = (ret, env') \<Longrightarrow> api_step (env, ecs) (env', ecs)"

subsection \<open>Calls keep what they are given\<close>

lemma read_keeps:
  assumes "jent_read_entropy fuel (Some ec) data len env = Some (ret, Some ec', data', env')" "sound fips ec"
  shows "steps (ec_blocks th ec) (ec_blocks th ec') env env' \<and> (sized ec \<longrightarrow> sized ec') \<and> sound fips ec' \<and> ec_uuid ec' = ec_uuid ec"
proof (cases "data = None \<and> len > 0")
  case True
  with assms show ?thesis
    by (simp add: jent_read_entropy_def)
next
  case False
  with assms(1) obtain buf where "read_entropy_from fuel ec (case data of Some b \<Rightarrow> b | None \<Rightarrow> []) len env = Some (ret, ec', buf, env')"
    by (auto simp: jent_read_entropy_def bind_eq_Some_conv)
  from read_entropy_from_keeps [OF this assms(2), where A = "ec_blocks th ec" and th = th] show ?thesis
    by simp
qed

lemma read_safe_keeps:
  assumes "jent_read_entropy_safe rounds fuel (Some (Some ec)) data len env = Some (ret, Some (Some ec'), data', env')"
    and "sound (env_fips env) ec" "th = g_notime_thread env"
  shows "steps (ec_blocks th ec) (ec_blocks th ec') env env' \<and> (sized ec \<longrightarrow> sized ec') \<and> sound (env_fips env) ec'"
proof (cases "data = None \<and> len > 0")
  case True
  with assms show ?thesis
    by (simp add: jent_read_entropy_safe_def)
next
  case args: False
  show ?thesis
  proof (cases "len = 0")
    case True
    with assms(1) args obtain d where "jent_read_entropy fuel (Some ec) data 0 env = Some (ret, Some ec', d, env')"
      by (auto simp: jent_read_entropy_safe_def bind_eq_Some_conv)
    from read_keeps [OF this assms(2), of th] show ?thesis
      by blast
  next
    case False
    with assms(1) args obtain n d where
      "safe_loop rounds fuel ec (case data of Some b \<Rightarrow> b | None \<Rightarrow> []) 0 n (int (unat n)) env = Some (ret, ec', d, env')"
      by (auto simp: jent_read_entropy_safe_def bind_eq_Some_conv Let_def)
    from safe_loop_keeps [OF assms(2) this] assms(3) show ?thesis
      by blast
  qed
qed

lemma configure_evolves:
  "jent_entropy_switch_notime_impl offer env = (ret, env') \<Longrightarrow> evolves env env' \<and>
    env_heap env' = env_heap env \<and> env_bad_free env' = env_bad_free env \<and> g_selftest_run env' = g_selftest_run env \<and> (closed env \<longrightarrow> env' = env)"
  "jent_entropy_set_notime_cpu cpu env = (ret, env') \<Longrightarrow> evolves env env' \<and>
    env_heap env' = env_heap env \<and> env_bad_free env' = env_bad_free env \<and> g_selftest_run env' = g_selftest_run env \<and> (closed env \<longrightarrow> env' = env)"
  "jent_set_fips_failure_callback cb env = (ret, env') \<Longrightarrow> evolves env env' \<and>
    env_heap env' = env_heap env \<and> env_bad_free env' = env_bad_free env \<and> g_selftest_run env' = g_selftest_run env \<and> (closed env \<longrightarrow> env' = env)"
  by (auto simp: jent_entropy_switch_notime_impl_def jent_notime_switch_def jent_entropy_set_notime_cpu_def
      jent_notime_set_cpu_def jent_set_fips_failure_callback_def jent_set_fips_failure_callback_internal_def
      evolves_def closed_def split: if_splits notime_offer.splits)

lemma selftest_keeps:
  assumes "jent_selftest (Some ec) env = (ret, Some ec')"
  shows "sound fips ec' = sound fips ec \<and> sized ec' = sized ec \<and> ec_blocks th ec' = ec_blocks th ec"
proof -
  obtain b where e: "ec' = ec\<lparr>ec_selftest_failed := b\<rparr>"
    using assms unfolding jent_selftest_def Let_def by (auto simp only: option.map prod.inject option.inject)
  show ?thesis
    unfolding e by (simp add: sound_def mem_match_def drbg_mem_def sized_def ec_blocks_def mem_block_def ctx_block_def
        cong: option.case_cong)
qed

subsection \<open>The invariant\<close>

definition good :: "jent_env \<Rightarrow> rand_data \<Rightarrow> bool" where
  "good env ec \<longleftrightarrow> sound (env_fips env) ec \<and> sized ec"

definition live :: "notime_handler \<Rightarrow> rand_data list \<Rightarrow> mem_size multiset" where
  "live th ecs = (\<Sum>ec \<leftarrow> ecs. ec_blocks th ec)"

definition app_ok :: "app \<Rightarrow> bool" where
  "app_ok st \<longleftrightarrow> (let (env, ecs) = st in (\<forall>ec \<in> set ecs. good env ec) \<and> owns env (live (g_notime_thread env) ecs) \<and>
     (ecs \<noteq> [] \<or> g_selftest_run env \<longrightarrow> closed env))"

lemma good_evolves: "steps A B env env' \<Longrightarrow> good env' ec = good env ec"
  by (simp add: good_def steps_fips)

lemma evolves_marks:
  assumes "evolves env env'" "ecs \<noteq> [] \<or> g_selftest_run env \<longrightarrow> closed env"
  shows "ecs \<noteq> [] \<or> g_selftest_run env' \<longrightarrow> closed env'"
  using assms evolves_closed [OF assms(1)] by (auto simp: evolves_def)

text \<open>The three ways a call changes what the application holds.\<close>

lemma app_world:
  assumes "app_ok (env, ecs)" "steps {#} {#} env env'"
  shows "app_ok (env', ecs)"
proof -
  have "owns env' (live (g_notime_thread env) ecs)"
    using assms steps_same [OF assms(2), of "live (g_notime_thread env) ecs"] unfolding app_ok_def steps_def
    by (auto dest: spec [of _ "{#}"])
  with assms show ?thesis
    using evolves_marks [OF steps_evolves [OF assms(2)], of ecs]
    by (simp add: app_ok_def good_evolves [OF assms(2)] steps_thread [OF assms(2)])
qed

lemma app_add:
  assumes "app_ok (env, ecs)" "steps {#} (held (g_notime_thread env) c) env env'"
    and "\<forall>ec. c = Some ec \<longrightarrow> good env ec \<and> (g_selftest_run env \<or> closed env')"
  shows "app_ok (env', ecs @ (case c of None \<Rightarrow> [] | Some ec \<Rightarrow> [ec]))"
proof (cases c)
  case None
  with app_world [OF assms(1)] assms(2) show ?thesis
    by simp
next
  case (Some ec)
  let ?th = "g_notime_thread env"
  have st: "steps {#} (ec_blocks ?th ec) env env'"
    using assms(2) Some by simp
  have "owns env' (live ?th ecs + ec_blocks ?th ec)"
    using assms(1) st unfolding app_ok_def steps_def by auto
  moreover have "closed env'"
    using assms(1,3) Some evolves_closed [OF steps_evolves [OF st]] by (auto simp: app_ok_def)
  ultimately show ?thesis
    using assms(1,3) Some by (auto simp: app_ok_def live_def good_evolves [OF st] steps_thread [OF st])
qed

lemma live_split: "i < length ecs \<Longrightarrow> live th ecs = live th (take i ecs @ drop (Suc i) ecs) + ec_blocks th (ecs ! i)"
  by (subst id_take_nth_drop [of i ecs]) (simp_all add: live_def)

lemma live_update: "i < length ecs \<Longrightarrow> live th (ecs[i := ec]) = live th (take i ecs @ drop (Suc i) ecs) + ec_blocks th ec"
  by (simp add: upd_conv_take_nth_drop live_def)

lemma app_replace:
  assumes "app_ok (env, ecs)" "i < length ecs"
    and "steps (ec_blocks (g_notime_thread env) (ecs ! i)) (ec_blocks (g_notime_thread env) ec) env env'" "good env ec"
  shows "app_ok (env', ecs[i := ec])"
proof -
  let ?th = "g_notime_thread env"
  have "owns env' (live ?th (ecs[i := ec]))"
    using assms(1,3) unfolding app_ok_def steps_def live_update [OF assms(2)] by (simp add: live_split [OF assms(2)])
  moreover have "\<forall>e \<in> set (ecs[i := ec]). good env e"
    using assms(1,4) set_update_subset_insert [of ecs i ec] by (auto simp: app_ok_def)
  moreover have "closed env'"
    using assms(1,2) evolves_closed [OF steps_evolves [OF assms(3)]] by (auto simp: app_ok_def)
  ultimately show ?thesis
    by (simp add: app_ok_def good_evolves [OF assms(3)] steps_thread [OF assms(3)])
qed

lemma app_remove:
  assumes "app_ok (env, ecs)" "i < length ecs"
  shows "app_ok (jent_entropy_collector_free (Some (ecs ! i)) env, take i ecs @ drop (Suc i) ecs) \<and>
    evolves env (jent_entropy_collector_free (Some (ecs ! i)) env)"
proof -
  let ?th = "g_notime_thread env" and ?env = "jent_entropy_collector_free (Some (ecs ! i)) env"
  have "mem_match (ecs ! i)"
    using assms by (simp add: app_ok_def good_def sound_def)
  from free_steps [OF this refl] have st: "steps (ec_blocks ?th (ecs ! i)) {#} env ?env" .
  have "owns ?env (live ?th (take i ecs @ drop (Suc i) ecs))"
    using assms(1) st unfolding app_ok_def steps_def by (auto simp: live_split [OF assms(2)])
  moreover have "closed ?env"
    using assms evolves_closed [OF steps_evolves [OF st]] by (auto simp: app_ok_def)
  ultimately show ?thesis
    using assms(1) steps_evolves [OF st]
    by (auto simp: app_ok_def good_evolves [OF st] steps_thread [OF st] dest: in_set_takeD in_set_dropD)
qed

lemma app_configure:
  assumes "app_ok (env, ecs)" "evolves env env' \<and> env_heap env' = env_heap env \<and> env_bad_free env' = env_bad_free env \<and>
    g_selftest_run env' = g_selftest_run env \<and> (closed env \<longrightarrow> env' = env)"
  shows "app_ok (env', ecs)"
proof (cases "closed env")
  case True
  with assms show ?thesis
    by simp
next
  case False
  with assms have "ecs = []" "\<not> g_selftest_run env'" "owns env' {#}"
    by (auto simp: app_ok_def live_def owns_def)
  then show ?thesis
    by (simp add: app_ok_def live_def)
qed

lemma step_keeps:
  assumes "api_step st st'" "app_ok st"
  shows "app_ok st' \<and> evolves (fst st) (fst st')"
  using assms
proof (induction rule: api_step.induct)
  case (call_init fuel env ret env' ecs)
  then have "steps {#} {#} env env'"
    using init_steps by blast
  with app_world [OF call_init(2)] show ?case
    by (auto dest: steps_evolves)
next
  case (call_init_ex fuel osr flags env ret env' ecs)
  then have "steps {#} {#} env env'"
    using evolvingD [OF init_ex_evolving] by blast
  with app_world [OF call_init_ex(2)] show ?case
    by (auto dest: steps_evolves)
next
  case (call_alloc fuel osr flags env c env' ecs)
  let ?f = "flags AND NOT JENT_INT_MEASURE_CLOCK"
  have "\<not> has ?f JENT_INT_MEASURE_CLOCK"
    by (simp add: has_def and.assoc)
  with alloc_started_good [of fuel osr ?f env c env'] call_alloc(1)
  have "steps {#} (held (g_notime_thread env) c) env env'" "\<forall>ec. c = Some ec \<longrightarrow> good env ec \<and> (g_selftest_run env \<or> closed env')"
    by (auto simp: jent_entropy_collector_alloc_def good_def)
  with app_add [OF call_alloc(2) this] show ?case
    by (auto dest: steps_evolves)
next
  case (call_alloc_raw fuel osr flags env c env' ecs)
  from alloc_raw_good [OF this(1)]
  have "steps {#} (held (g_notime_thread env) c) env env'" "\<forall>ec. c = Some ec \<longrightarrow> good env ec \<and> (g_selftest_run env \<or> closed env')"
    by (auto simp: good_def)
  with app_add [OF call_alloc_raw(2) this] show ?case
    by (auto dest: steps_evolves)
next
  case (call_read i ecs fuel data len env ret ec data' env')
  then have g: "good env (ecs ! i)"
    by (simp add: app_ok_def)
  with read_keeps [OF call_read(2)]
  have "steps (ec_blocks (g_notime_thread env) (ecs ! i)) (ec_blocks (g_notime_thread env) ec) env env'" "good env ec"
    by (auto simp: good_def)
  with app_replace [OF call_read(3,1) this] show ?case
    by (auto dest: steps_evolves)
next
  case (call_read_safe i ecs rounds fuel data len env ret ec data' env')
  then have g: "good env (ecs ! i)"
    by (simp add: app_ok_def)
  with read_safe_keeps [OF call_read_safe(2) _ refl]
  have "steps (ec_blocks (g_notime_thread env) (ecs ! i)) (ec_blocks (g_notime_thread env) ec) env env'" "good env ec"
    by (auto simp: good_def)
  with app_replace [OF call_read_safe(3,1) this] show ?case
    by (auto dest: steps_evolves)
next
  case (call_selftest i ecs env ret ec)
  then have "good env (ecs ! i)"
    by (simp add: app_ok_def)
  with selftest_keeps [OF call_selftest(2), of "env_fips env" "g_notime_thread env"]
  have "steps (ec_blocks (g_notime_thread env) (ecs ! i)) (ec_blocks (g_notime_thread env) ec) env env" "good env ec"
    by (auto simp: good_def)
  with app_replace [OF call_selftest(3,1) this] show ?case
    by simp
next
  case (call_free i ecs env)
  with app_remove [OF call_free(2,1)] show ?case
    by simp
next
  case (call_switch_notime offer env ret env' ecs)
  with app_configure [OF call_switch_notime(2) configure_evolves(1)] configure_evolves(1) show ?case
    by auto
next
  case (call_set_notime_cpu cpu env ret env' ecs)
  with app_configure [OF call_set_notime_cpu(2) configure_evolves(2)] configure_evolves(2) show ?case
    by auto
next
  case (call_set_callback cb env ret env' ecs)
  with app_configure [OF call_set_callback(2) configure_evolves(3)] configure_evolves(3) show ?case
    by auto
qed

lemma run_keeps:
  assumes "api_step\<^sup>*\<^sup>* st st'" "app_ok st"
  shows "app_ok st' \<and> evolves (fst st) (fst st')"
  using assms
proof (induction rule: rtranclp_induct)
  case (step y z)
  then show ?case
    using step_keeps [OF step(2)] evolves_trans by blast
qed simp

text \<open>A world in which the library has not been used: nothing allocated, nothing initialized.\<close>

definition pristine :: "jent_env \<Rightarrow> bool" where
  "pristine env \<longleftrightarrow> owns env {#} \<and> \<not> g_selftest_run env"

lemma pristine_ok: "pristine env \<Longrightarrow> app_ok (env, [])"
  by (simp add: pristine_def app_ok_def live_def)

subsection \<open>A run with a collector\<close>

text \<open>With memory available, an application gets a collector for raw measurements on the platform clock.\<close>

definition generous :: "jent_env \<Rightarrow> bool" where
  "generous env \<longleftrightarrow> (\<forall>i f. env_zalloc env i f) \<and> (\<forall>i n. env_zalloc_unlocked env i n) \<and> \<not> g_force_internal_timer env"

lemma generous_upd [simp]:
  "generous (alloc_block ok len env) = generous env" "generous (jent_zfree blk len env) = generous env"
  "generous (jent_notime_block_switch env) = generous env" "generous (jent_health_cb_block_switch env) = generous env"
  by (simp_all add: generous_def alloc_block_def jent_zfree_def jent_notime_block_switch_def jent_health_cb_block_switch_def)

lemma raw_selftest_passes:
  assumes "generous env" "sha_mem (env_stk env)"
  shows "fst (jent_raw_selftest flags env) = 0 \<and> generous (snd (jent_raw_selftest flags env))"
proof -
  define env0 where "env0 = jent_health_cb_block_switch (jent_notime_block_switch env)"
  have g: "generous env0" "env_stk env0 = env_stk env"
    using assms(1) by (simp_all add: env0_def) (simp add: jent_health_cb_block_switch_def jent_notime_block_switch_def)
  have "jent_sha3_tester (env_stk env0) = 0"
    using assms(2) g(2) by (simp add: jent_sha3_tester_def jent_sha3_256_tester_def multiblock_passes shake256_passes xdrbg256_passes)
  then have s: "fst (jent_selftest None env0) = 0"
    by (simp add: jent_selftest_def)
  have "fst (jent_gcd_selftest flags env0) = 0" "generous (snd (jent_gcd_selftest flags env0))"
    using g(1) gcd_selftest_passes [of flags env0]
    by (simp_all add: generous_def [of env0])
      (simp add: jent_gcd_selftest_def jent_gcd_init_def jent_gcd_fini_def jent_zalloc_def Let_def g(1) split: option.splits)
  then show ?thesis
    unfolding jent_raw_selftest_def jent_entropy_init_common_pre_def Let_def env0_def [symmetric] s by (simp add: split_beta)
qed

lemma collector_setup_held:
  assumes env: "generous env" and f: "has flags JENT_DISABLE_INTERNAL_TIMER" "has flags JENT_INT_MEASURE_CLOCK"
    and osr: "1 \<le> osr" "osr \<le> JENT_MAX_OSR"
  shows "\<exists>ec env'. collector_setup tei osr flags env = Some (Some ec, env')"
proof -
  let ?e0 = "zero_rand_data\<lparr>ec_max_mem_set := (JENT_FLAGS_TO_MAX_MEMSIZE flags \<noteq> 0)\<rparr>"
  obtain ok f1 e1 env1 where m: "collector_memory flags ?e0 env = (ok, f1, e1, env1)"
    by (cases "collector_memory flags ?e0 env")
  have ok: ok
    using m env by (auto simp: collector_memory_def jent_zalloc_unlocked_def generous_def Let_def split: if_splits)
  obtain f2 e2 where cf: "collector_configure (env_fips env1) osr f1 e1 = (f2, e2)"
    by fastforce
  define t where "t = (if has f2 JENT_NTG1 then jent_health_init_type_ntg1 else jent_health_init_type_common)"
  obtain ret e3 where hi: "jent_health_init e2 t = (ret, e3)"
    by fastforce
  have "ret = 0" "has f2 JENT_DISABLE_INTERNAL_TIMER" "has f2 JENT_INT_MEASURE_CLOCK"
    using configured_fresh [OF m cf hi osr] f by (simp_all add: has_bit)
  with m ok cf hi show ?thesis
    by (simp add: collector_setup_def Let_def t_def [symmetric] split: option.splits)
qed

text \<open>Flags for the platform clock.\<close>

definition platform_flags :: "bool \<Rightarrow> u32 \<Rightarrow> bool" where
  "platform_flags fips flags \<longleftrightarrow> (has flags JENT_DISABLE_INTERNAL_TIMER \<or> has flags JENT_NTG1) \<and>
     \<not> has flags JENT_FORCE_INTERNAL_TIMER \<and> \<not> jent_memaccess_contradicts fips flags"

lemma alloc_raw_held:
  assumes env: "generous env" "sha_mem (env_stk env)" and f: "platform_flags (env_fips env) flags" and osr: "osr \<le> JENT_MAX_OSR"
    and fuel: "0 < fuel"
  shows "\<exists>ec env'. jent_entropy_collector_alloc_raw fuel osr flags env = Some (Some ec, env') \<and>
    fresh (env_fips env) (ensure_osr_is_at_least_minimal osr)
      (effective (jent_update_secure_mem (env_fips env) flags OR JENT_INT_MEASURE_CLOCK)) ec"
proof -
  let ?o = "ensure_osr_is_at_least_minimal osr"
  define g where "g = jent_update_secure_mem (env_fips env) flags OR JENT_INT_MEASURE_CLOCK"
  obtain n where n: "fuel = Suc n"
    using fuel gr0_implies_Suc by blast
  have "\<not> has JENT_INT_MEASURE_CLOCK JENT_FORCE_INTERNAL_TIMER" "\<not> has JENT_INT_MEASURE_CLOCK JENT_NTG1"
    by (simp_all add: has_def flag_defs)
  then have g: "has g JENT_DISABLE_INTERNAL_TIMER \<or> has g JENT_NTG1" "\<not> has g JENT_FORCE_INTERNAL_TIMER" "has g JENT_INT_MEASURE_CLOCK"
    using f by (auto simp: g_def platform_flags_def has_or) (simp_all add: has_bit secure_mem_bits)
  then have eff: "has (effective g) JENT_DISABLE_INTERNAL_TIMER" "has (effective g) JENT_INT_MEASURE_CLOCK"
    by (auto simp: effective_def has_or)
  have o: "1 \<le> ?o" "?o \<le> JENT_MAX_OSR" "\<not> ?o > JENT_MAX_OSR"
    using osr by (simp_all add: ensure_osr_is_at_least_minimal_def JENT_MIN_OSR_def JENT_MAX_OSR_def word_le_nat_alt word_less_nat_alt)
  obtain r env1 where r: "jent_raw_selftest flags env = (r, env1)"
    by fastforce
  have g1: "r = 0" "generous env1" "env_fips env1 = env_fips env"
    using raw_selftest_passes [OF env, of flags] r steps_fips [OF conjunct1 [OF init_pre_steps [of flags env r env1]]]
    by (simp_all add: jent_raw_selftest_def)
  obtain ok env2 where z: "jent_zalloc Sizeof_rand_data (effective g) env1 = (ok, env2)"
    by fastforce
  have g2: ok "generous env2" "\<not> jent_notime_forced env1"
    using g1(2) z by (auto simp: jent_zalloc_def Let_def jent_notime_forced_def) (simp_all add: generous_def)
  obtain ec env' where "collector_setup (jent_time_entropy_init n) ?o (effective g) env2 = Some (Some ec, env')"
    using collector_setup_held [OF g2(2) eff o(1,2)] by blast
  then have al: "jent_entropy_collector_alloc_internal fuel osr g env1 = Some (Some ec, env')"
    using g o g2 z unfolding n jent_entropy_collector_alloc_internal.simps alloc_body_effective by simp
  have "jent_entropy_collector_alloc_raw fuel osr flags env = Some (Some ec, env')"
    using al r g1 f by (simp add: jent_entropy_collector_alloc_raw_def g_def platform_flags_def)
  moreover have "fresh (env_fips env) ?o (effective g) ec"
    using alloc_resultD(5) [OF alloc_internal_spec [OF al]] g1(3) by simp
  ultimately show ?thesis
    unfolding g_def by blast
qed

lemma start_env_ok: "generous (start_env\<lparr>g_notime_cpu := c\<rparr>)" "sha_mem (env_stk (start_env\<lparr>g_notime_cpu := c\<rparr>))"
  "pristine start_env" "env_fips (start_env\<lparr>g_notime_cpu := c\<rparr>) = False"
  by (simp_all add: generous_def pristine_def owns_def start_env_def)

lemma start_env_held:
  "\<exists>ec env'. jent_entropy_collector_alloc_raw 1 3 JENT_DISABLE_INTERNAL_TIMER (start_env\<lparr>g_notime_cpu := c\<rparr>) = Some (Some ec, env')"
proof -
  have "platform_flags False JENT_DISABLE_INTERNAL_TIMER" "(3 :: u32) \<le> JENT_MAX_OSR"
    by (simp_all add: platform_flags_def jent_memaccess_contradicts_def has_def flag_defs JENT_MAX_OSR_def)
  with alloc_raw_held [OF start_env_ok(1,2), unfolded start_env_ok(4), of JENT_DISABLE_INTERNAL_TIMER 3 1, OF _ _ zero_less_one] show ?thesis
    by blast
qed

subsection \<open>The properties of a run\<close>



text \<open>C21: the configuration of the library is frozen while it is in use. Once an initialization was called,
  whatever its outcome, or as long as the application holds a collector, however it came by it, no further
  sequence of calls changes the handler of the counting thread, its CPU or the failure callback, and each request to
  change them is refused with -EAGAIN. So a thread context is released by the handler that made it.\<close>

theorem configuration_frozen:
  assumes "pristine env" "api_step\<^sup>*\<^sup>* (env, []) (env1, ecs1)"
    and "ecs1 \<noteq> [] \<or> (\<exists>fuel e ret. jent_entropy_init fuel e = Some (ret, env1)) \<or>
      (\<exists>fuel osr flags e ret. jent_entropy_init_ex fuel osr flags e = Some (ret, env1))"
    and "api_step\<^sup>*\<^sup>* (env1, ecs1) (env2, ecs2)"
  shows "g_notime_thread env2 = g_notime_thread env1 \<and> g_notime_cpu env2 = g_notime_cpu env1 \<and> g_fips_cb env2 = g_fips_cb env1 \<and>
    jent_entropy_switch_notime_impl h env2 = (- EAGAIN, env2) \<and> jent_entropy_set_notime_cpu cpu env2 = (- EAGAIN, env2) \<and>
    jent_set_fips_failure_callback cb env2 = (- EAGAIN, env2)"
proof -
  have ok: "app_ok (env1, ecs1)"
    using run_keeps [OF assms(2) pristine_ok [OF assms(1)]] by simp
  have "closed env1"
    using assms(3) ok init_steps init_ex_closing unfolding closing_def by (auto simp: app_ok_def)
  moreover have e: "evolves env1 env2"
    using run_keeps [OF assms(4) ok] by simp
  ultimately show ?thesis
    using evolves_closed [OF e]
    by (simp add: evolves_def closed_def jent_entropy_switch_notime_impl_def jent_notime_switch_def
        jent_entropy_set_notime_cpu_def jent_notime_set_cpu_def jent_set_fips_failure_callback_def
        jent_set_fips_failure_callback_internal_def)
qed

theorem configuration_frozen_witness:
  "\<exists>ec env1. jent_entropy_set_notime_cpu 5 start_env = (0, start_env\<lparr>g_notime_cpu := Some 5\<rparr>) \<and>
     jent_entropy_collector_alloc_raw 1 3 JENT_DISABLE_INTERNAL_TIMER (start_env\<lparr>g_notime_cpu := Some 5\<rparr>) = Some (Some ec, env1) \<and>
     jent_entropy_set_notime_cpu 7 env1 = (- EAGAIN, env1)"
proof -
  let ?env = "start_env\<lparr>g_notime_cpu := Some 5\<rparr>"
  have cpu: "jent_entropy_set_notime_cpu 5 start_env = (0, ?env)"
    by (simp add: jent_entropy_set_notime_cpu_def jent_notime_set_cpu_def start_env_def)
  obtain ec env1 where al: "jent_entropy_collector_alloc_raw 1 3 JENT_DISABLE_INTERNAL_TIMER ?env = Some (Some ec, env1)"
    using start_env_held by blast
  have "api_step (?env, []) (env1, [ec])"
    using call_alloc_raw [OF al, of "[]"] by simp
  with call_set_notime_cpu [OF cpu, of "[]"] have run: "api_step\<^sup>*\<^sup>* (start_env, []) (env1, [ec])"
    by (meson converse_rtranclp_into_rtranclp r_into_rtranclp)
  from configuration_frozen [OF start_env_ok(3) run _ rtranclp.rtrancl_refl, of Offer_Null 7 None] cpu al show ?thesis
    by (intro exI [of _ ec] exI [of _ env1]) simp
qed

subsection \<open>A session in FIPS mode\<close>

text \<open>The reads an application makes from one collector.\<close>

datatype request = Read "u8 list option" u64 | Read_Safe "u8 list option" u64

definition serve :: "nat \<Rightarrow> request \<Rightarrow> rand_data \<times> jent_env \<Rightarrow> (rand_data \<times> jent_env) option" where
  "serve fuel rq st =
     (case rq of
        Read data len \<Rightarrow> do {
          (ret, c, buf, env) \<leftarrow> jent_read_entropy fuel (Some (fst st)) data len (snd st);
          map_option (\<lambda>ec. (ec, env)) c
        }
      | Read_Safe data len \<Rightarrow> do {
          (ret, c, buf, env) \<leftarrow> jent_read_entropy_safe 19 fuel (Some (Some (fst st))) data len (snd st);
          Option.bind c (map_option (\<lambda>ec. (ec, env)))
        })"

fun session :: "nat \<Rightarrow> request list \<Rightarrow> rand_data \<times> jent_env \<Rightarrow> (rand_data \<times> jent_env) option" where
  "session fuel [] st = Some st"
| "session fuel (rq # rqs) st = Option.bind (serve fuel rq st) (session fuel rqs)"

lemma serve_total:
  assumes "run_ok ec" "sound (env_fips env) ec" "9000004 \<le> fuel"
  shows "\<exists>ec' env'. serve fuel rq (ec, env) = Some (ec', env') \<and> run_ok ec' \<and> sound (env_fips env') ec' \<and>
    env_fips env' = env_fips env \<and> ec_uuid ec' = ec_uuid ec"
proof (cases rq)
  case (Read data len)
  obtain ret ec' d env' where r: "jent_read_entropy fuel (Some ec) data len env = Some (ret, Some ec', d, env')" "run_ok ec'"
    using read_entropy_total [OF assms(1), of fuel data len env] assms(3) by auto
  have k: "sound (env_fips env) ec'" "ec_uuid ec' = ec_uuid ec" "env_fips env' = env_fips env"
    using read_keeps [OF r(1) assms(2), of Notime_Builtin] by (auto dest: steps_fips)
  with Read r show ?thesis
    by (simp add: serve_def)
next
  case (Read_Safe data len)
  obtain ret ec' d env' where r: "jent_read_entropy_safe 19 fuel (Some (Some ec)) data len env = Some (ret, Some (Some ec'), d, env')"
    "run_ok ec'" "ec_uuid ec' = ec_uuid ec"
    using read_safe_total [OF assms order_refl, of data len] by blast
  have k: "sound (env_fips env) ec'" "env_fips env' = env_fips env"
    using read_safe_keeps [OF r(1) assms(2) refl] by (auto dest: steps_fips)
  with Read_Safe r show ?thesis
    by (simp add: serve_def)
qed

lemma session_total:
  assumes "9000004 \<le> fuel"
  shows "run_ok ec \<Longrightarrow> sound (env_fips env) ec \<Longrightarrow> \<exists>ec' env'. session fuel rqs (ec, env) = Some (ec', env') \<and> run_ok ec' \<and>
    sound (env_fips env) ec' \<and> ec_uuid ec' = ec_uuid ec"
proof (induction rqs arbitrary: ec env)
  case (Cons rq rqs)
  obtain ec1 env1 where s: "serve fuel rq (ec, env) = Some (ec1, env1)" "run_ok ec1" "sound (env_fips env1) ec1"
      "env_fips env1 = env_fips env" "ec_uuid ec1 = ec_uuid ec"
    using serve_total [OF Cons.prems assms] by blast
  with Cons.IH [OF s(2,3)] show ?case
    by auto
qed simp

text \<open>C10: in FIPS mode on the platform clock an application is always served. The allocation returns, and when
  it has given a collector, every sequence of plain and safe reads from it, for all buffers and lengths and however the
  clock behaves and the health tests turn out, runs to its end: each call returns and leaves a collector
  that keeps the identifier and can be read again.\<close>

theorem fips_session_returns:
  assumes "fips_platform (env_fips env) flags" "9000004 \<le> fuel"
  shows "\<exists>c env1. jent_entropy_collector_alloc fuel osr flags env = Some (c, env1) \<and>
    (\<forall>ec rqs. c = Some ec \<longrightarrow> (\<exists>ec' env2. session fuel rqs (ec, env1) = Some (ec', env2) \<and> run_ok ec' \<and>
      sound (env_fips env) ec' \<and> ec_uuid ec' = ec_uuid ec))"
proof -
  let ?f = "flags AND NOT JENT_INT_MEASURE_CLOCK"
  have "fips_platform (env_fips env) ?f"
    using assms(1) by (simp add: fips_platform_def has_bit measure_flag_bits)
  from alloc_started_total [OF this order_trans [OF _ assms(2)], of osr] obtain c env1 where
    al: "alloc_started fuel osr ?f env = Some (c, env1)" "\<forall>ec. c = Some ec \<longrightarrow> started ec"
    by auto
  note g = alloc_started_good [OF al(1)]
  have "env_fips env1 = env_fips env"
    using steps_fips [OF conjunct1 [OF g]] .
  then have "\<exists>ec' env2. session fuel rqs (ec, env1) = Some (ec', env2) \<and> run_ok ec' \<and>
      sound (env_fips env) ec' \<and> ec_uuid ec' = ec_uuid ec" if "c = Some ec" for ec rqs
    using session_total [OF assms(2), of ec env1 rqs] g al(2) that by (auto simp: started_def)
  with al(1) show ?thesis
    unfolding jent_entropy_collector_alloc_def by blast
qed

theorem fips_session_returns_witness:
  "\<exists>c env1. jent_entropy_collector_alloc 9000004 3 JENT_NTG1 start_env = Some (c, env1) \<and>
     (case c of None \<Rightarrow> True
      | Some ec \<Rightarrow> \<exists>ec' env2. session 9000004 [Read (Some [0]) 1, Read_Safe (Some [0, 0]) 2] (ec, env1) = Some (ec', env2))"
proof -
  have "fips_platform (env_fips start_env) JENT_NTG1"
    by (simp add: fips_platform_def has_def JENT_NTG1_def)
  from fips_session_returns [OF this order_refl, of 3] obtain c env1 where
    al: "jent_entropy_collector_alloc 9000004 3 JENT_NTG1 start_env = Some (c, env1)" and
    s: "\<And>ec rqs. c = Some ec \<Longrightarrow> \<exists>ec' env2. session 9000004 rqs (ec, env1) = Some (ec', env2)"
    by blast
  show ?thesis
    by (rule exI [of _ c], rule exI [of _ env1], cases c) (simp_all only: al s simp_thms option.case)
qed

text \<open>C31: an allocation for raw measurements on the platform clock succeeds whenever the allocator does and the
  internal timer has not been forced, without a measurement of the clock: the self tests pass, and for every
  oversampling rate up to the maximum and all flags that do not contradict each other the collector comes at
  the requested rate, or the minimum, without a health failure, on the platform clock, in the FIPS mode the flags
  and the system ask for, before its startup sequence in that mode. The configuration windows are closed and
  the blocks of the collector are all that is live in addition.\<close>

theorem raw_alloc_succeeds:
  assumes "generous env" "sha_mem (env_stk env)" "platform_flags (env_fips env) flags" "osr \<le> JENT_MAX_OSR" "0 < fuel"
  shows "\<exists>ec env'. jent_entropy_collector_alloc_raw fuel osr flags env = Some (Some ec, env') \<and>
    ec_osr ec = ensure_osr_is_at_least_minimal osr \<and> ec_health_failure ec = 0 \<and> \<not> ec_enable_notime ec \<and>
    ec_is_fips_enabled ec = (has flags JENT_FORCE_FIPS \<or> has flags JENT_NTG1 \<or> env_fips env) \<and>
    ec_startup_state ec = (if ec_is_fips_enabled ec then jent_startup_memory else jent_startup_completed) \<and>
    sound (env_fips env) ec \<and> sized ec \<and> closed env' \<and>
    (owns env H \<longrightarrow> owns env' (H + ec_blocks (g_notime_thread env) ec))"
proof -
  obtain ec env' where al: "jent_entropy_collector_alloc_raw fuel osr flags env = Some (Some ec, env')" and
    fr: "fresh (env_fips env) (ensure_osr_is_at_least_minimal osr)
      (effective (jent_update_secure_mem (env_fips env) flags OR JENT_INT_MEASURE_CLOCK)) ec"
    using alloc_raw_held [OF assms] by blast
  have "\<not> has JENT_INT_MEASURE_CLOCK JENT_FORCE_FIPS" "\<not> has JENT_INT_MEASURE_CLOCK JENT_NTG1"
      "\<not> has JENT_DISABLE_INTERNAL_TIMER JENT_FORCE_FIPS"
    by (simp_all add: has_def flag_defs)
  then have f: "has (effective (jent_update_secure_mem (env_fips env) flags OR JENT_INT_MEASURE_CLOCK)) JENT_FORCE_FIPS = has flags JENT_FORCE_FIPS"
      "has (effective (jent_update_secure_mem (env_fips env) flags OR JENT_INT_MEASURE_CLOCK)) JENT_NTG1 = has flags JENT_NTG1"
      "has (effective (jent_update_secure_mem (env_fips env) flags OR JENT_INT_MEASURE_CLOCK)) JENT_DISABLE_INTERNAL_TIMER"
    using assms(3) by (auto simp: effective_def has_or platform_flags_def) (auto simp: has_bit secure_mem_bits)
  show ?thesis
    using al fr f alloc_raw_good [OF al] by (auto simp: fresh_def steps_def)
qed

theorem raw_alloc_succeeds_witness:
  "\<exists>ec env'. jent_entropy_collector_alloc_raw 1 0 JENT_NTG1 start_env = Some (Some ec, env') \<and> ec_osr ec = 3 \<and>
     ec_startup_state ec = jent_startup_memory \<and> owns env' (ec_blocks (g_notime_thread start_env) ec)"
proof -
  have s: "generous start_env" "sha_mem (env_stk start_env)" "env_fips start_env = False" "owns start_env {#}"
    by (simp_all add: generous_def start_env_def owns_def)
  have p: "platform_flags (env_fips start_env) JENT_NTG1" "has JENT_NTG1 JENT_NTG1"
    by (simp_all add: s(3) platform_flags_def jent_memaccess_contradicts_def has_def flag_defs)
  have "ensure_osr_is_at_least_minimal 0 = 3"
    by (simp add: ensure_osr_is_at_least_minimal_def JENT_MIN_OSR_def)
  with raw_alloc_succeeds [OF s(1,2) p(1), of 0 1 "{#}"] p(2) s(4) show ?thesis
    by auto
qed

end
