(* ===== verification/Jent_Cache.thy ===== *)
theory Jent_Cache
  imports Jent_Flags
begin

text \<open>
  The discovery of the data cache sizes in \<^verbatim>\<open>arch/jitterentropy-arch-cache.c\<close>: the decoders of the CPUID leaves
  and of the AArch64 cache registers, the combination of the sources on Linux, the rounding to the size of the
  memory block and its memoization. A level is a \<^verbatim>\<open>uint64_t\<close> number of bytes, 0 when unknown. The processor
  instructions and the system calls are arguments of the definitions.
\<close>

type_synonym cache_sizes = "u64 \<times> u64 \<times> u64"

subsection \<open>Rounding\<close>

definition jent_cache_size_add :: "u64 \<Rightarrow> u64 \<Rightarrow> u64" where
  "jent_cache_size_add acc sz = (if sz > NOT 0 - acc then NOT 0 else acc + sz)"

definition jent_cache_roundup_from_sizes :: "cache_sizes \<Rightarrow> bool \<Rightarrow> u64" where
  "jent_cache_roundup_from_sizes sizes all_caches =
     (let (l1, l2, l3) = sizes;
          acc = l1;
          acc = (if all_caches then jent_cache_size_add (jent_cache_size_add acc l2) l3 else acc)
      in if acc = 0 then 0
         else if acc \<ge> push_bit 63 1 then push_bit 63 1
         else let acc = acc OR drop_bit 1 acc;
                  acc = acc OR drop_bit 2 acc;
                  acc = acc OR drop_bit 4 acc;
                  acc = acc OR drop_bit 8 acc;
                  acc = acc OR drop_bit 16 acc;
                  acc = acc OR drop_bit 32 acc
              in acc + 1)"

function cache_bits_loop :: "u64 \<Rightarrow> u32 \<Rightarrow> u32" where
  "cache_bits_loop sz bits =
     (let sz = drop_bit 1 sz in if sz \<noteq> 0 then cache_bits_loop sz (bits + 1) else bits)"
  by auto
termination
proof (relation "measure (\<lambda>(sz, _). unat sz)")
  fix sz sz' :: u64 and bits :: u32
  assume "sz' = drop_bit 1 sz" "sz' \<noteq> 0"
  then have "unat sz' = unat sz div 2" "unat sz' \<noteq> 0"
    by (simp_all add: drop_bit_eq_div unat_div flip: unat_eq_zero)
  then show "((sz', bits + 1), (sz, bits)) \<in> measure (\<lambda>(sz, _). unat sz)"
    by simp
qed simp

declare cache_bits_loop.simps [simp del]

definition jent_cache_size_bits :: "u64 \<Rightarrow> u32" where
  "jent_cache_size_bits sz = cache_bits_loop sz 0"

text \<open>The static variables of \<^verbatim>\<open>jent_cache_size_roundup\<close>: the exponents for the first level and for all
  levels, and whether they are valid. \<open>discover\<close> is what the uncached discovery would report.\<close>

record cache_memo =
  memo_bits :: "u32 \<times> u32"
  memo_valid :: bool

definition jent_cache_size_roundup :: "cache_sizes \<Rightarrow> bool \<Rightarrow> cache_memo \<Rightarrow> u64 \<times> cache_memo" where
  "jent_cache_size_roundup discover all_caches memo =
     (let memo = (if \<not> memo_valid memo
                  then \<lparr>memo_bits = (jent_cache_size_bits (jent_cache_roundup_from_sizes discover False),
                                     jent_cache_size_bits (jent_cache_roundup_from_sizes discover True)),
                        memo_valid = True\<rparr>
                  else memo);
          bits = (if all_caches then snd (memo_bits memo) else fst (memo_bits memo))
      in (if bits \<noteq> 0 then push_bit (unat bits) 1 else 0, memo))"

subsection \<open>The CPUID leaves\<close>

definition JENT_CPUID_LEAF_CACHE :: u32 where
  "JENT_CPUID_LEAF_CACHE = 0x00000004"

definition JENT_CPUID_LEAF_CACHE_EXT :: u32 where
  "JENT_CPUID_LEAF_CACHE_EXT = 0x8000001D"

type_synonym cpuid_count = "u32 \<Rightarrow> u32 \<Rightarrow> (u32 \<times> u32 \<times> u32 \<times> u32) option"

definition cpuid_cache_size :: "u32 \<Rightarrow> u32 \<Rightarrow> u64" where
  "cpuid_cache_size ebx ecx =
     (let ways = ucast (drop_bit 22 ebx AND 0x3FF) + 1;
          partitions = ucast (drop_bit 12 ebx AND 0x3FF) + 1;
          line_size = ucast (ebx AND 0xFFF) + 1;
          sets = ucast ecx + 1
      in ways * partitions * line_size * sets)"

definition cpuid_cache_level :: "u32 \<Rightarrow> u32" where
  "cpuid_cache_level eax = drop_bit 5 eax AND 0x7"

text \<open>What one subleaf that describes a cache contributes.\<close>

definition cpuid_subleaf :: "u32 \<Rightarrow> u32 \<Rightarrow> u32 \<Rightarrow> cache_sizes \<Rightarrow> cache_sizes" where
  "cpuid_subleaf eax ebx ecx sizes =
     (let (l1, l2, l3) = sizes;
          cache_type = eax AND 0x1F
      in if cache_type \<noteq> 1 \<and> cache_type \<noteq> 3 then (l1, l2, l3)
         else if ecx = 0xFFFFFFFF then (l1, l2, l3)
         else let cache_level = cpuid_cache_level eax;
                  sz = cpuid_cache_size ebx ecx
              in if cache_level = 1 \<and> cache_type = 1 \<and> l1 = 0 then (sz, l2, l3)
                 else if cache_level = 2 \<and> l2 = 0 then (l1, sz, l3)
                 else if cache_level = 3 \<and> l3 = 0 then (l1, l2, sz)
                 else (l1, l2, l3))"

fun cpuid_walk :: "cpuid_count \<Rightarrow> u32 \<Rightarrow> u32 list \<Rightarrow> cache_sizes \<Rightarrow> cache_sizes" where
  "cpuid_walk cpuid leaf [] sizes = sizes"
| "cpuid_walk cpuid leaf (sub # subs) sizes =
     (case cpuid leaf sub of
        None \<Rightarrow> sizes
      | Some (eax, ebx, ecx, edx) \<Rightarrow>
          if eax AND 0x1F = 0 then sizes
          else cpuid_walk cpuid leaf subs (cpuid_subleaf eax ebx ecx sizes))"

definition jent_cache_sizes_cpuid_leaf :: "cpuid_count \<Rightarrow> u32 \<Rightarrow> bool \<times> cache_sizes" where
  "jent_cache_sizes_cpuid_leaf cpuid leaf =
     (let sizes = cpuid_walk cpuid leaf (map of_nat [0..<16]) (0, 0, 0);
          (l1, l2, l3) = sizes
      in (l1 \<noteq> 0 \<or> l2 \<noteq> 0 \<or> l3 \<noteq> 0, sizes))"

definition jent_cache_sizes_cpuid :: "cpuid_count \<Rightarrow> cache_sizes" where
  "jent_cache_sizes_cpuid cpuid =
     (let (found, sizes) = jent_cache_sizes_cpuid_leaf cpuid JENT_CPUID_LEAF_CACHE
      in if found then sizes else snd (jent_cache_sizes_cpuid_leaf cpuid JENT_CPUID_LEAF_CACHE_EXT))"

text \<open>The instruction behind a check of the highest leaf of its range, \<open>get_cpuid_max\<close>.\<close>

definition jent_cpuid_count_user ::
  "(u32 \<Rightarrow> u32) \<Rightarrow> (u32 \<Rightarrow> u32 \<Rightarrow> u32 \<times> u32 \<times> u32 \<times> u32) \<Rightarrow> cpuid_count" where
  "jent_cpuid_count_user get_cpuid_max cpuid leaf subleaf =
     (let max = get_cpuid_max (leaf AND 0x80000000)
      in if max = 0 \<or> max < leaf then None else Some (cpuid leaf subleaf))"

subsection \<open>The AArch64 cache registers\<close>

definition JENT_CACHE_ARM64_MIN :: u64 where
  "JENT_CACHE_ARM64_MIN = 4096"

definition arm64_cache_size :: "bool \<Rightarrow> u64 \<Rightarrow> u64" where
  "arm64_cache_size ccidx ccsidr =
     (let line = (ucast (ccsidr AND 0x7) :: u32);
          (assoc, sets) =
            (if ccidx then ((drop_bit 3 ccsidr AND 0x1FFFFF) + 1, (drop_bit 32 ccsidr AND 0xFFFFFF) + 1)
             else ((drop_bit 3 ccsidr AND 0x3FF) + 1, (drop_bit 13 ccsidr AND 0x7FFF) + 1))
      in push_bit (unat (line + 4)) 1 * assoc * sets)"

definition arm64_level :: "bool \<Rightarrow> u64 \<Rightarrow> nat \<Rightarrow> cache_sizes \<Rightarrow> cache_sizes" where
  "arm64_level ccidx ccsidr level sizes =
     (let (l1, l2, l3) = sizes;
          sz = arm64_cache_size ccidx ccsidr
      in if sz < JENT_CACHE_ARM64_MIN then (l1, l2, l3)
         else if level = 1 \<and> l1 = 0 then (sz, l2, l3)
         else if level = 2 \<and> l2 = 0 then (l1, sz, l3)
         else if level = 3 \<and> l3 = 0 then (l1, l2, sz)
         else (l1, l2, l3))"

fun arm64_walk :: "u64 \<Rightarrow> bool \<Rightarrow> (nat \<Rightarrow> u64) \<Rightarrow> nat list \<Rightarrow> cache_sizes \<Rightarrow> cache_sizes" where
  "arm64_walk clidr ccidx ccsidr_fn [] sizes = sizes"
| "arm64_walk clidr ccidx ccsidr_fn (level # levels) sizes =
     (let ctype = drop_bit (3 * (level - 1)) clidr AND 0x7
      in if ctype = 0 then sizes
         else arm64_walk clidr ccidx ccsidr_fn levels
           (if ctype \<noteq> 2 \<and> ctype \<noteq> 3 \<and> ctype \<noteq> 4 then sizes
            else arm64_level ccidx (ccsidr_fn level) level sizes))"

definition jent_cache_sizes_arm64 :: "u64 \<Rightarrow> bool \<Rightarrow> (nat \<Rightarrow> u64) \<Rightarrow> cache_sizes" where
  "jent_cache_sizes_arm64 clidr ccidx ccsidr_fn = arm64_walk clidr ccidx ccsidr_fn [1..<8] (0, 0, 0)"

subsection \<open>The sources on Linux\<close>

text \<open>A libc that lacks a selector leaves its level at zero: \<open>None\<close>.\<close>

definition jent_get_cachesize_sysconf :: "int option \<times> int option \<times> int option \<Rightarrow> cache_sizes" where
  "jent_get_cachesize_sysconf conf =
     (let level = (\<lambda>v. case v of None \<Rightarrow> 0 | Some v \<Rightarrow> if v > 0 then of_int v else 0);
          (c1, c2, c3) = conf
      in (level c1, level c2, level c3))"

definition jent_cache_sizes_merge :: "cache_sizes \<Rightarrow> cache_sizes \<Rightarrow> cache_sizes" where
  "jent_cache_sizes_merge l s =
     (let (l1, l2, l3) = l; (s1, s2, s3) = s
      in (if s1 > l1 then s1 else l1, if s2 > l2 then s2 else l2, if s3 > l3 then s3 else l3))"

definition cache_level_unknown :: "cache_sizes \<Rightarrow> bool" where
  "cache_level_unknown l = (let (l1, l2, l3) = l in l1 = 0 \<or> l2 = 0 \<or> l3 = 0)"

definition cache_sizes_complete :: "cache_sizes \<Rightarrow> cache_sizes \<Rightarrow> cache_sizes" where
  "cache_sizes_complete l s =
     (let (l1, l2, l3) = l; (s1, s2, s3) = s
      in (if l1 = 0 then s1 else l1, if l2 = 0 then s2 else l2, if l3 = 0 then s3 else l3))"

text \<open>\<open>sysfs\<close> is the result of the scan of \<^verbatim>\<open>/sys\<close>, \<open>other\<close> the last source of the architecture: CPUID on
  x86, \<^verbatim>\<open>/proc/cpuinfo\<close> on Arm.\<close>

definition jent_get_cachesize_uncached ::
  "cache_sizes \<Rightarrow> int option \<times> int option \<times> int option \<Rightarrow> cache_sizes \<Rightarrow> cache_sizes" where
  "jent_get_cachesize_uncached sysfs conf other =
     (let l = sysfs;
          l = (if cache_level_unknown l then jent_cache_sizes_merge l (jent_get_cachesize_sysconf conf) else l)
      in if cache_level_unknown l then cache_sizes_complete l other else l)"

subsection \<open>The rounding is the next power of two\<close>

definition cache_total :: "cache_sizes \<Rightarrow> bool \<Rightarrow> nat" where
  "cache_total sizes all_caches =
     (let (l1, l2, l3) = sizes in if all_caches then unat l1 + unat l2 + unat l3 else unat l1)"

text \<open>\<open>y\<close> has the bits of \<open>x\<close> smeared over \<open>n\<close> positions below.\<close>

definition smeared :: "u64 \<Rightarrow> nat \<Rightarrow> u64 \<Rightarrow> bool" where
  "smeared x n y \<longleftrightarrow> (\<forall>i. bit y i \<longleftrightarrow> (\<exists>j. i \<le> j \<and> j < i + n \<and> bit x j))"

lemma smeared_double:
  assumes y: "smeared x n y"
  shows "smeared x (n + n) (y OR drop_bit n y)"
  unfolding smeared_def
proof
  fix i
  have "bit (y OR drop_bit n y) i \<longleftrightarrow>
      (\<exists>j. i \<le> j \<and> j < i + n \<and> bit x j) \<or> (\<exists>j. n + i \<le> j \<and> j < n + i + n \<and> bit x j)" (is "_ \<longleftrightarrow> ?a \<or> ?b")
    using y by (simp add: smeared_def bit_or_iff bit_drop_bit_eq)
  also have "\<dots> \<longleftrightarrow> (\<exists>j. i \<le> j \<and> j < i + (n + n) \<and> bit x j)" (is "_ \<longleftrightarrow> ?l")
  proof
    assume ?l
    then obtain j where "i \<le> j" "j < i + (n + n)" "bit x j"
      by blast
    then show "?a \<or> ?b"
      by (cases "j < i + n") (auto intro!: exI [of _ j])
  next
    assume "?a \<or> ?b"
    then show ?l
    proof
      assume ?a
      then obtain j where "i \<le> j" "j < i + n" "bit x j"
        by blast
      then show ?l
        by (intro exI [of _ j]) simp
    next
      assume ?b
      then obtain j where "n + i \<le> j" "j < n + i + n" "bit x j"
        by blast
      then show ?l
        by (intro exI [of _ j]) simp
    qed
  qed
  finally show "bit (y OR drop_bit n y) i \<longleftrightarrow> (\<exists>j. i \<le> j \<and> j < i + (n + n) \<and> bit x j)" .
qed

lemma unat_bit: "bit (x :: u64) i \<longleftrightarrow> odd (unat x div 2 ^ i)"
proof -
  have "bit (unat x) i = bit x i"
    by (auto simp: bit_unsigned_iff possible_bit_def dest: bit_imp_le_length)
  then show ?thesis
    by (simp add: bit_iff_odd)
qed

lemma smear_mask:
  fixes x :: u64
  assumes "2 ^ k \<le> unat x" "unat x < 2 ^ Suc k" "smeared x 64 y"
  shows "y = mask (Suc k)"
proof (rule bit_word_eqI)
  fix i
  assume i: "i < LENGTH(64)"
  have "unat x div 2 ^ k = 1"
    using assms(1,2) by (simp add: div_nat_eqI)
  then have top: "bit x k"
    by (simp add: unat_bit)
  then have "k < 64"
    using bit_imp_le_length [of x k] by simp
  have "j \<le> k" if "bit x j" for j
  proof (rule ccontr)
    assume "\<not> j \<le> k"
    then have "(2 :: nat) ^ Suc k \<le> 2 ^ j"
      by (intro power_increasing) simp_all
    then have "unat x div 2 ^ j = 0"
      using assms(2) by simp
    with that show False
      by (simp add: unat_bit)
  qed
  with top \<open>k < 64\<close> have "(\<exists>j. i \<le> j \<and> j < i + 64 \<and> bit x j) \<longleftrightarrow> i \<le> k"
    by (meson le_trans trans_less_add2)
  then show "bit y i = bit (mask (Suc k) :: u64) i"
    using assms(3) i by (auto simp: smeared_def bit_mask_iff)
qed

definition smear_up :: "u64 \<Rightarrow> u64" where
  "smear_up x = (let s = x OR drop_bit 1 x; s = s OR drop_bit 2 s; s = s OR drop_bit 4 s; s = s OR drop_bit 8 s;
     s = s OR drop_bit 16 s; s = s OR drop_bit 32 s in s + 1)"

lemma smear:
  fixes x :: u64
  assumes "x \<noteq> 0" "x < push_bit 63 1"
  shows "\<exists>k. 2 ^ k \<le> unat x \<and> unat x < 2 ^ Suc k \<and> k < 63 \<and>
    smear_up x = 2 ^ Suc k"
proof -
  obtain k where k: "2 ^ k \<le> unat x" "unat x < 2 ^ Suc k"
    using ex_power_ivl1 [of 2 "unat x"] assms(1) by (auto simp: word_eq_unat)
  have "unat x < 2 ^ 63"
    using assms(2) by (simp add: word_less_nat_alt)
  with k(1) have "(2 :: nat) ^ k < 2 ^ 63"
    by linarith
  then have "k < 63"
    using power_less_imp_less_exp [of "2 :: nat" k 63] by simp
  define s1 s2 s3 s4 s5 s6 where s: "s1 = x OR drop_bit 1 x" "s2 = s1 OR drop_bit 2 s1" "s3 = s2 OR drop_bit 4 s2"
    "s4 = s3 OR drop_bit 8 s3" "s5 = s4 OR drop_bit 16 s4" "s6 = s5 OR drop_bit 32 s5"
  have "smeared x 1 x"
    by (auto simp: smeared_def less_Suc_eq_le dest: le_antisym)
  from smeared_double [OF this] have "smeared x 2 s1"
    by (simp only: s one_add_one)
  from smeared_double [OF this] have "smeared x 4 s2"
    by (simp add: s(2))
  from smeared_double [OF this] have "smeared x 8 s3"
    by (simp add: s(3))
  from smeared_double [OF this] have "smeared x 16 s4"
    by (simp add: s(4))
  from smeared_double [OF this] have "smeared x 32 s5"
    by (simp add: s(5))
  from smeared_double [OF this] have "smeared x 64 s6"
    by (simp add: s(6))
  from smear_mask [OF k this] have "s6 + 1 = 2 ^ Suc k"
    by (simp add: mask_eq_exp_minus_1)
  then show ?thesis
    using k \<open>k < 63\<close> unfolding smear_up_def Let_def s [symmetric] by blast
qed

lemma u64_less: "unat (a :: u64) < 2 ^ 64"
  using unsigned_less [of a, where 'a = nat] by simp

lemma unat_not_minus: "unat (NOT 0 - a :: u64) = 2 ^ 64 - 1 - unat a"
proof -
  have "unat (NOT 0 :: u64) = 2 ^ 64 - 1"
    by (simp add: unsigned_minus_1_eq_mask mask_eq_exp_minus_1)
  then show ?thesis
    using u64_less [of a] by (simp add: unat_sub_if' word_le_nat_alt)
qed

lemma size_add_unat: "unat (jent_cache_size_add a b) = min (2 ^ 64 - 1) (unat a + unat b)"
proof (cases "b > NOT 0 - a")
  case True
  then have "2 ^ 64 - 1 < unat a + unat b"
    using u64_less [of a] unfolding word_less_nat_alt unat_not_minus by simp
  with True show ?thesis
    by (simp add: jent_cache_size_add_def unsigned_minus_1_eq_mask mask_eq_exp_minus_1)
next
  case False
  then have "unat a + unat b \<le> 2 ^ 64 - 1"
    using u64_less [of a] unfolding not_less word_le_nat_alt unat_not_minus by simp
  with False show ?thesis
    by (simp add: jent_cache_size_add_def unat_word_ariths(1))
qed

lemma roundup_cases:
  fixes sizes :: cache_sizes and all_caches :: bool
  defines "n \<equiv> cache_total sizes all_caches"
  shows "n = 0 \<and> jent_cache_roundup_from_sizes sizes all_caches = 0 \<or>
    2 ^ 63 \<le> n \<and> jent_cache_roundup_from_sizes sizes all_caches = 2 ^ 63 \<or>
    (\<exists>k < 63. 2 ^ k \<le> n \<and> n < 2 ^ Suc k \<and> jent_cache_roundup_from_sizes sizes all_caches = 2 ^ Suc k)"
proof -
  obtain l1 l2 l3 where s: "sizes = (l1, l2, l3)"
    by (cases sizes)
  define x where "x = (if all_caches then jent_cache_size_add (jent_cache_size_add l1 l2) l3 else l1)"
  have x: "unat x = min (2 ^ 64 - 1) n"
    using u64_less [of l1] by (simp add: x_def n_def s cache_total_def size_add_unat min_def)
  have r: "jent_cache_roundup_from_sizes sizes all_caches = (if x = 0 then 0 else if x \<ge> push_bit 63 1 then push_bit 63 1
    else smear_up x)"
    by (simp only: jent_cache_roundup_from_sizes_def s x_def [symmetric] smear_up_def Let_def prod.case)
  consider "x = 0" | "x \<noteq> 0" "push_bit 63 1 \<le> x" | "x \<noteq> 0" "x < push_bit 63 1"
    using linorder_not_le by blast
  then show ?thesis
  proof cases
    case 1
    then show ?thesis
      using x r by (simp add: min_def split: if_splits)
  next
    case 2
    then have "2 ^ 63 \<le> unat x"
      by (simp add: word_le_nat_alt)
    then show ?thesis
      using x r 2 by simp
  next
    case 3
    then have "unat x < 2 ^ 63"
      by (simp add: word_less_nat_alt)
    then have n: "unat x = n"
      using x by simp
    have "\<not> push_bit 63 1 \<le> x"
      using 3(2) by (simp only: not_le)
    then have "jent_cache_roundup_from_sizes sizes all_caches = smear_up x"
      by (simp only: r 3(1) if_False)
    with smear [OF 3] show ?thesis
      unfolding n by auto
  qed
qed

lemma cache_bits_loop_log2: "cache_bits_loop x b = log2_loop x b"
  by (induction x b rule: log2_loop.induct) (simp add: cache_bits_loop.simps log2_loop.simps Let_def)

lemma size_bits_log2: "jent_cache_size_bits x = jent_log2_simple x"
  by (simp add: jent_cache_size_bits_def jent_log2_simple_def cache_bits_loop_log2)

text \<open>The exponent loses nothing of a rounded size.\<close>

lemma size_bits_roundup:
  "(let b = jent_cache_size_bits (jent_cache_roundup_from_sizes sizes a) in if b \<noteq> 0 then push_bit (unat b) 1 else 0) =
   jent_cache_roundup_from_sizes sizes a"
proof -
  have p: "(let b = jent_cache_size_bits (2 ^ Suc k) in if b \<noteq> 0 then push_bit (unat b) 1 else 0) = (2 ^ Suc k :: u64)"
    if "Suc k < 64" for k
    using log2_simple_pow2 [OF that] by (simp add: size_bits_log2 word_eq_unat push_bit_of_1 Let_def del: power_Suc)
  from roundup_cases [of sizes a] show ?thesis
  proof (elim disjE)
    assume "cache_total sizes a = 0 \<and> jent_cache_roundup_from_sizes sizes a = 0"
    then show ?thesis
      by (simp add: size_bits_log2 jent_log2_simple_def log2_loop.simps)
  next
    assume "2 ^ 63 \<le> cache_total sizes a \<and> jent_cache_roundup_from_sizes sizes a = 2 ^ 63"
    then show ?thesis
      using p [of 62] by simp
  next
    assume "\<exists>k < 63. 2 ^ k \<le> cache_total sizes a \<and> cache_total sizes a < 2 ^ Suc k \<and>
      jent_cache_roundup_from_sizes sizes a = 2 ^ Suc k"
    then show ?thesis
      using p by (auto simp del: power_Suc)
  qed
qed

lemma size_roundup_first:
  assumes "\<not> memo_valid memo"
  shows "fst (jent_cache_size_roundup sizes a memo) = jent_cache_roundup_from_sizes sizes a"
  using assms size_bits_roundup [of sizes a] by (cases a) (auto simp: jent_cache_size_roundup_def Let_def push_bit_of_1 split: if_splits)

lemma size_roundup_again:
  assumes "\<not> memo_valid memo"
  shows "jent_cache_size_roundup sizes' b (snd (jent_cache_size_roundup sizes a memo)) =
    (jent_cache_roundup_from_sizes sizes b, snd (jent_cache_size_roundup sizes a memo))"
  using assms size_bits_roundup [of sizes b] by (cases b) (auto simp: jent_cache_size_roundup_def Let_def push_bit_of_1 split: if_splits)

subsection \<open>The geometry of a cache\<close>

lemma unat_field:
  fixes x :: "'a::len word"
  shows "unat (drop_bit n x AND mask m) = unat x div 2 ^ n mod 2 ^ m"
proof -
  have "take_bit LENGTH('a) (unat x) = unat x"
    by (simp add: take_bit_nat_eq_self unsigned_less)
  then have "unat (drop_bit n x AND mask m) = take_bit m (drop_bit n (unat x))"
    by (simp add: unsigned_take_bit_eq unsigned_drop_bit_eq flip: take_bit_eq_mask)
  then show ?thesis
    by (simp add: take_bit_eq_mod drop_bit_eq_div)
qed

lemma field_masks:
  "(0x3FF :: 'a::len word) = mask 10" "(0xFFF :: 'a word) = mask 12" "(0x7 :: 'a word) = mask 3"
  "(0x1FFFFF :: 'a word) = mask 21" "(0xFFFFFF :: 'a word) = mask 24" "(0x7FFF :: 'a word) = mask 15"
  by (simp_all add: mask_eq_exp_minus_1)

lemma unat_mult_small: "unat x * unat y < 2 ^ 64 \<Longrightarrow> unat (x * y :: u64) = unat x * unat y"
  by (simp add: unat_word_ariths(2))

lemma unat_add_1_small: "unat x < n \<Longrightarrow> n < 2 ^ 64 \<Longrightarrow> unat (x + 1 :: u64) = unat x + 1"
  by (simp add: unat_word_ariths(1))

lemma unat_field_add_1:
  assumes "m < 64"
  shows "unat ((drop_bit n x AND mask m) + 1 :: u64) = unat x div 2 ^ n mod 2 ^ m + 1"
proof -
  have "(2 :: nat) ^ m < 2 ^ 64"
    using assms by (rule power_strict_increasing) simp
  then show ?thesis
    using unat_add_1_small [of "drop_bit n x AND mask m" "2 ^ m"] by (simp add: unat_field)
qed

lemma cpuid_cache_size_exact:
  assumes "ecx \<noteq> 0xFFFFFFFF"
  shows "unat (cpuid_cache_size ebx ecx) =
    (unat ebx div 2 ^ 22 mod 2 ^ 10 + 1) * (unat ebx div 2 ^ 12 mod 2 ^ 10 + 1) * (unat ebx mod 2 ^ 12 + 1) * (unat ecx + 1)"
proof -
  define w p l s :: u64 where d: "w = ucast (drop_bit 22 ebx AND 0x3FF) + 1" "p = ucast (drop_bit 12 ebx AND 0x3FF) + 1"
    "l = ucast (ebx AND 0xFFF) + 1" "s = ucast ecx + 1"
  have f: "unat (ebx AND 0xFFF) = unat ebx mod 2 ^ 12"
    using unat_field [of 0 ebx 12] by (simp add: field_masks)
  have u: "unat w = unat ebx div 2 ^ 22 mod 2 ^ 10 + 1" "unat p = unat ebx div 2 ^ 12 mod 2 ^ 10 + 1"
    "unat l = unat ebx mod 2 ^ 12 + 1"
    unfolding d by (subst unat_add_1_small [where n = "2 ^ 12"], simp_all add: field_masks(1) unat_field f)+
  have "unat ecx < 2 ^ 32 - 1"
    using assms unsigned_less [of ecx, where 'a = nat] by (simp add: word_eq_unat)
  moreover from this have "unat s = unat ecx + 1"
    unfolding d by (subst unat_add_1_small [where n = "2 ^ 32"]) simp_all
  ultimately have s: "unat s = unat ecx + 1" "unat s \<le> 2 ^ 32 - 1"
    by simp_all
  have le: "unat w \<le> 2 ^ 10" "unat p \<le> 2 ^ 10" "unat l \<le> 2 ^ 12"
    by (simp_all add: u less_Suc_eq_le [symmetric])
  have wp: "unat w * unat p \<le> 2 ^ 20"
    using mult_le_mono [OF le(1,2)] by simp
  then have wpl: "unat w * unat p * unat l \<le> 2 ^ 32"
    using mult_le_mono [OF wp le(3)] by simp
  then have "unat w * unat p * unat l * unat s \<le> 2 ^ 32 * (2 ^ 32 - 1)"
    using s(2) by (rule mult_le_mono)
  with wp wpl have "unat (w * p * l * s) = unat w * unat p * unat l * unat s"
    by (simp add: unat_mult_small)
  then show ?thesis
    by (simp only: cpuid_cache_size_def Let_def d [symmetric] u s)
qed

lemma arm64_cache_size_exact:
  "unat (arm64_cache_size ccidx ccsidr) = 2 ^ (unat ccsidr mod 2 ^ 3 + 4) *
    (if ccidx then unat ccsidr div 2 ^ 3 mod 2 ^ 21 + 1 else unat ccsidr div 2 ^ 3 mod 2 ^ 10 + 1) *
    (if ccidx then unat ccsidr div 2 ^ 32 mod 2 ^ 24 + 1 else unat ccsidr div 2 ^ 13 mod 2 ^ 15 + 1) \<and>
   unat (arm64_cache_size ccidx ccsidr) < 2 ^ 57"
proof -
  define l :: u32 where "l = ucast (ccsidr AND 0x7)"
  define a s where d: "a = (if ccidx then drop_bit 3 ccsidr AND 0x1FFFFF else drop_bit 3 ccsidr AND 0x3FF) + 1"
    "s = (if ccidx then drop_bit 32 ccsidr AND 0xFFFFFF else drop_bit 13 ccsidr AND 0x7FFF) + 1"
  have "unat (ccsidr AND 0x7) = unat ccsidr mod 2 ^ 3"
    using unat_field [of 0 ccsidr 3] by (simp add: field_masks)
  then have l: "unat l = unat ccsidr mod 2 ^ 3"
    by (simp add: l_def unsigned_ucast_eq take_bit_nat_eq_self)
  have "unat l < 8"
    by (simp add: l)
  then have l4: "unat (l + 4) = unat l + 4" "unat l + 4 \<le> 11"
    by (simp_all add: unat_word_ariths(1))
  have u: "unat a = (if ccidx then unat ccsidr div 2 ^ 3 mod 2 ^ 21 + 1 else unat ccsidr div 2 ^ 3 mod 2 ^ 10 + 1)"
    "unat s = (if ccidx then unat ccsidr div 2 ^ 32 mod 2 ^ 24 + 1 else unat ccsidr div 2 ^ 13 mod 2 ^ 15 + 1)"
    by (simp_all add: d field_masks unat_field_add_1)
  have "n mod 1024 < 2097152" "n mod 32768 < 16777216" for n :: nat
    by (rule less_trans [OF mod_less_divisor], simp_all)+
  then have le: "unat a \<le> 2 ^ 21" "unat s \<le> 2 ^ 24"
    by (simp_all add: u less_Suc_eq_le [symmetric])
  define q :: u64 where "q = push_bit (unat (l + 4)) 1"
  have p: "unat q = 2 ^ (unat l + 4)"
    using unat_of_nat_small [of "2 ^ (unat l + 4)", where 'a = 64] power_increasing [OF l4(2), of "2 :: nat"]
    by (simp add: q_def push_bit_of_1 l4(1))
  have "(2 :: nat) ^ (unat l + 4) \<le> 2 ^ 11"
    using l4(2) by (rule power_increasing) simp
  from mult_le_mono [OF this le(1)] have pa: "2 ^ (unat l + 4) * unat a \<le> 2 ^ 32"
    by simp
  from mult_le_mono [OF this le(2)] have pas: "2 ^ (unat l + 4) * unat a * unat s \<le> 2 ^ 56"
    by simp
  have "unat (q * a * s) = 2 ^ (unat l + 4) * unat a * unat s"
    using pa pas by (simp add: unat_mult_small p)
  moreover have "arm64_cache_size ccidx ccsidr = q * a * s"
    by (simp add: arm64_cache_size_def d l_def q_def Let_def)
  ultimately show ?thesis
    using pas by (simp only: u l) simp
qed

subsection \<open>The memory block against the caches\<close>

lemma memsize_auto:
  assumes "JENT_FLAGS_TO_MAX_MEMSIZE flags = 0" "cache (has flags JENT_CACHE_ALL) = 2 ^ k" "0 < k" "k < 64"
  shows "unat (jent_memsize (jent_update_memsize cache flags 0)) =
    (let e = (if has flags JENT_CACHE_ALL then k else k + 2) in if e \<le> 9 then 2 ^ 18 else 2 ^ min 29 e)"
proof -
  define l where "l = jent_log2_simple (cache (has flags JENT_CACHE_ALL))"
  have l: "unat l = k" "l \<noteq> 0"
    using assms(3,4) log2_simple_pow2 [of k] unfolding l_def assms(2) by (auto simp: word_eq_unat)
  define e where "e = (if has flags JENT_CACHE_ALL then k else k + 2)"
  define m where "m = (if has flags JENT_CACHE_ALL then l + JENT_CACHE_SHIFT_BITS else l + JENT_CACHE_SHIFT_BITS + 2)"
  have "unat (l + 2) = k + 2"
    using l(1) assms(4) by (simp add: unat_word_ariths(1))
  then have m: "unat m = e"
    using l(1) by (simp add: m_def e_def JENT_CACHE_SHIFT_BITS_def)
  define f where "f = (if m > 9 then m - 9 else 0)"
  have f: "unat f = e - 9"
    using m by (auto simp: f_def word_less_nat_alt unat_sub_if' word_le_nat_alt)
  have "JENT_FLAGS_TO_MAX_MEMSIZE (jent_update_memsize cache flags 0) = (if f > 20 then 20 else f)"
    using l(2) unfolding update_memsize_auto [OF assms(1)] Let_def l_def [symmetric] m_def f_def by simp
  moreover have "unat (if f > 20 then 20 else f) = min 20 (e - 9)"
    using f by (simp add: unat_cap min.commute)
  ultimately show ?thesis
    unfolding memsize_eq e_def [symmetric] by (auto simp: word_eq_unat Let_def min_def)
qed

subsection \<open>The sources on Linux are combined without loss\<close>

definition level_of :: "nat \<Rightarrow> cache_sizes \<Rightarrow> u64" where
  "level_of i sizes = (let (l1, l2, l3) = sizes in if i = 1 then l1 else if i = 2 then l2 else l3)"

lemma if_less_max: "(if a < b then b else a) = max a (b :: u64)"
  by (auto simp: max_def)

lemma level_of_merge [simp]: "level_of i (jent_cache_sizes_merge l s) = max (level_of i l) (level_of i s)"
  by (cases l, cases s) (simp add: level_of_def jent_cache_sizes_merge_def if_less_max)

lemma level_of_complete [simp]:
  "level_of i (cache_sizes_complete l s) = (if level_of i l = 0 then level_of i s else level_of i l)"
  by (cases l, cases s) (simp add: level_of_def cache_sizes_complete_def)

lemma level_of_known: "\<not> cache_level_unknown l \<Longrightarrow> level_of i l \<noteq> 0"
  by (cases l) (simp add: level_of_def cache_level_unknown_def)

lemma max_0_iff: "max a b = 0 \<longleftrightarrow> a = 0 \<and> b = (0 :: u64)"
  by (auto simp: max_def not_le word_gt_0 split: if_splits)

lemma uncached_level:
  "level_of i sysfs \<le> level_of i (jent_get_cachesize_uncached sysfs conf other)"
  "level_of i (jent_get_cachesize_uncached sysfs conf other) = 0 \<longleftrightarrow>
     level_of i sysfs = 0 \<and> level_of i (jent_get_cachesize_sysconf conf) = 0 \<and> level_of i other = 0"
proof -
  define l where "l = (if cache_level_unknown sysfs then jent_cache_sizes_merge sysfs (jent_get_cachesize_sysconf conf) else sysfs)"
  have r: "jent_get_cachesize_uncached sysfs conf other = (if cache_level_unknown l then cache_sizes_complete l other else l)"
    by (simp add: jent_get_cachesize_uncached_def l_def Let_def)
  have l: "level_of i sysfs \<le> level_of i l"
    "level_of i l = 0 \<longleftrightarrow> level_of i sysfs = 0 \<and> level_of i (jent_get_cachesize_sysconf conf) = 0"
    using level_of_known [of sysfs i] by (simp_all add: l_def max_0_iff)
  then show "level_of i sysfs \<le> level_of i (jent_get_cachesize_uncached sysfs conf other)"
    unfolding r by auto
  show "level_of i (jent_get_cachesize_uncached sysfs conf other) = 0 \<longleftrightarrow>
     level_of i sysfs = 0 \<and> level_of i (jent_get_cachesize_sysconf conf) = 0 \<and> level_of i other = 0"
    unfolding r using l(2) level_of_known [of l i] by auto
qed

subsection \<open>The properties of the cache discovery\<close>

text \<open>C36: the size handed to the memory configuration is the smallest power of two above the discovered
  caches, the first-level data cache or the sum of the levels, 0 when nothing was discovered and
  \<open>2 ^ 63\<close> when there is none in 64 bits. It is computed once: every later call answers from the same
  discovery, whatever a new one would find.\<close>

theorem cache_roundup_memoized:
  assumes "\<not> memo_valid memo" "jent_cache_size_roundup sizes all_caches memo = (r, memo')"
  shows "(cache_total sizes all_caches = 0 \<longrightarrow> r = 0) \<and>
    (cache_total sizes all_caches \<noteq> 0 \<longrightarrow> (\<exists>k \<le> 63. r = 2 ^ k \<and>
      (if cache_total sizes all_caches < 2 ^ 63
       then cache_total sizes all_caches < 2 ^ k \<and> 2 ^ k \<le> 2 * cache_total sizes all_caches else k = 63))) \<and>
    (\<forall>sizes' a. jent_cache_size_roundup sizes' a memo' = (jent_cache_roundup_from_sizes sizes a, memo'))"
proof -
  have r: "r = jent_cache_roundup_from_sizes sizes all_caches" "memo' = snd (jent_cache_size_roundup sizes all_caches memo)"
    using size_roundup_first [OF assms(1), of sizes all_caches] assms(2) by simp_all
  have again: "\<forall>sizes' a. jent_cache_size_roundup sizes' a memo' = (jent_cache_roundup_from_sizes sizes a, memo')"
    unfolding r(2) using size_roundup_again [OF assms(1)] by blast
  from roundup_cases [of sizes all_caches] show ?thesis
  proof (elim disjE exE conjE)
    fix k
    assume k: "k < 63" "2 ^ k \<le> cache_total sizes all_caches" "cache_total sizes all_caches < 2 ^ Suc k"
      "jent_cache_roundup_from_sizes sizes all_caches = 2 ^ Suc k"
    from k(1) have "(2 :: nat) ^ Suc k \<le> 2 ^ 63"
      by (intro power_increasing) simp_all
    with k again show ?thesis
      unfolding r(1) by (auto intro!: exI [of _ "Suc k"])
  qed (use again in \<open>auto simp: r(1) intro!: exI [of _ "63 :: nat"]\<close>)
qed

theorem cache_roundup_memoized_witness:
  "\<exists>r memo'. jent_cache_size_roundup (0xC000, 0x140000, 0x1800000) True \<lparr>memo_bits = (0, 0), memo_valid = False\<rparr> = (r, memo') \<and>
     (\<exists>k \<le> 63. r = 2 ^ k \<and> 0x194C000 < (2 :: nat) ^ k \<and> (2 :: nat) ^ k \<le> 2 * 0x194C000) \<and>
     jent_cache_size_roundup (0, 0, 0) True memo' = (r, memo')"
proof -
  let ?s = "(0xC000, 0x140000, 0x1800000) :: cache_sizes"
  obtain r memo' where e: "jent_cache_size_roundup ?s True \<lparr>memo_bits = (0, 0), memo_valid = False\<rparr> = (r, memo')"
    by fastforce
  have t: "cache_total ?s True = 0x194C000"
    by (simp add: cache_total_def)
  have v: "\<not> memo_valid \<lparr>memo_bits = (0, 0), memo_valid = False\<rparr>"
    by simp
  from cache_roundup_memoized [OF v e] size_roundup_first [OF v, of ?s True] e show ?thesis
    by (auto simp: t)
qed

text \<open>C37: a collector whose memory size is left to the library works on a block that does not fit into
  the caches it is sized after: larger than all levels together under \<^verbatim>\<open>JENT_CACHE_ALL\<close>, more than four times the
  first-level data cache otherwise, unless the maximum of 512 MB is reached.\<close>

theorem working_set_exceeds_cache:
  assumes "JENT_FLAGS_TO_MAX_MEMSIZE flags = 0" "\<not> memo_valid memo"
    and "0 < cache_total sizes (has flags JENT_CACHE_ALL)"
  defines "mem \<equiv> unat (jent_memsize (jent_update_memsize (\<lambda>a. fst (jent_cache_size_roundup sizes a memo)) flags 0))"
  shows "mem = 2 ^ 29 \<or>
    (if has flags JENT_CACHE_ALL then cache_total sizes True else 4 * cache_total sizes False) < mem"
proof -
  have "\<exists>k. 0 < k \<and> k < 64 \<and> jent_cache_roundup_from_sizes sizes (has flags JENT_CACHE_ALL) = 2 ^ k \<and>
      (k = 63 \<or> cache_total sizes (has flags JENT_CACHE_ALL) < 2 ^ k)"
    using roundup_cases [of sizes "has flags JENT_CACHE_ALL"]
  proof (elim disjE exE conjE)
    fix k
    assume "k < 63" "cache_total sizes (has flags JENT_CACHE_ALL) < 2 ^ Suc k"
      "jent_cache_roundup_from_sizes sizes (has flags JENT_CACHE_ALL) = 2 ^ Suc k"
    then show ?thesis
      by (intro exI [of _ "Suc k"]) simp
  qed (use assms(3) in \<open>auto intro!: exI [of _ "63 :: nat"]\<close>)
  then obtain k where k: "0 < k" "k < 64" "jent_cache_roundup_from_sizes sizes (has flags JENT_CACHE_ALL) = 2 ^ k"
    "k = 63 \<or> cache_total sizes (has flags JENT_CACHE_ALL) < 2 ^ k"
    by blast
  have m: "mem = (let e = (if has flags JENT_CACHE_ALL then k else k + 2) in if e \<le> 9 then 2 ^ 18 else 2 ^ min 29 e)"
    unfolding mem_def by (rule memsize_auto [OF assms(1) _ k(1,2)]) (simp add: size_roundup_first [OF assms(2)] k(3))
  have small: "(2 :: nat) ^ k \<le> 2 ^ 9" if "k \<le> 9"
    using that by (rule power_increasing) simp
  show ?thesis
  proof (cases "29 \<le> (if has flags JENT_CACHE_ALL then k else k + 2)")
    case True
    then show ?thesis
      using m by (simp add: Let_def split: if_splits)
  next
    case False
    then have "k \<noteq> 63"
      by (simp split: if_splits)
    with k(4) have "cache_total sizes (has flags JENT_CACHE_ALL) < 2 ^ k"
      by blast
    then show ?thesis
      using m False small by (auto simp: Let_def power_add min_def split: if_splits)
  qed
qed

theorem working_set_exceeds_cache_witness:
  "let mem = unat (jent_memsize (jent_update_memsize (\<lambda>a. fst (jent_cache_size_roundup (0xC000, 0, 0) a
       \<lparr>memo_bits = (0, 0), memo_valid = False\<rparr>)) 0 0))
   in mem = 2 ^ 29 \<or> 4 * 0xC000 < mem"
  using working_set_exceeds_cache [of 0 "\<lparr>memo_bits = (0, 0), memo_valid = False\<rparr>" "(0xC000, 0, 0)"]
  by (simp add: JENT_FLAGS_TO_MAX_MEMSIZE_def has_def cache_total_def Let_def)

text \<open>C38: the size of a cache is computed without a wrap-around from every report of the processor, also from
  one that no hardware gives. A CPUID leaf that is not the all-ones one gives exactly the product of ways,
  partitions, line size and sets; the AArch64 registers give exactly the product of line size, ways and
  sets, and less than \<open>2 ^ 57\<close> bytes.\<close>

theorem cache_geometry_exact:
  "(ecx \<noteq> 0xFFFFFFFF \<longrightarrow> unat (cpuid_cache_size ebx ecx) =
     (unat ebx div 2 ^ 22 mod 2 ^ 10 + 1) * (unat ebx div 2 ^ 12 mod 2 ^ 10 + 1) * (unat ebx mod 2 ^ 12 + 1) * (unat ecx + 1)) \<and>
   unat (arm64_cache_size ccidx ccsidr) = 2 ^ (unat ccsidr mod 2 ^ 3 + 4) *
     (if ccidx then unat ccsidr div 2 ^ 3 mod 2 ^ 21 + 1 else unat ccsidr div 2 ^ 3 mod 2 ^ 10 + 1) *
     (if ccidx then unat ccsidr div 2 ^ 32 mod 2 ^ 24 + 1 else unat ccsidr div 2 ^ 13 mod 2 ^ 15 + 1) \<and>
   unat (arm64_cache_size ccidx ccsidr) < 2 ^ 57"
  using cpuid_cache_size_exact arm64_cache_size_exact by blast

theorem cache_geometry_exact_witness:
  "(0xFFFFFFFE :: u32) \<noteq> 0xFFFFFFFF \<and> unat (cpuid_cache_size 0xFFFFFFFF 0xFFFFFFFE) = 2 ^ 32 * (2 ^ 32 - 1)"
  using cache_geometry_exact [of "0xFFFFFFFE" "0xFFFFFFFF" True 0] by simp

end
