(* ===== verification/Jent_Sysfs.thy ===== *)
theory Jent_Sysfs
  imports Jent_Cache
begin

text \<open>
  The text sources of the cache sizes on Linux in \<^verbatim>\<open>arch/jitterentropy-arch-cache.c\<close>: the attributes of the
  caches below \<^verbatim>\<open>/sys/devices/system/cpu\<close> and the core types of \<^verbatim>\<open>/proc/cpuinfo\<close> on Arm. What a file contains is an
  argument of the definitions. A character buffer is a list, its string the part before the first NUL. The
  functions of the C library the code calls are modelled for the arguments it passes.
\<close>

subsection \<open>Strings of C\<close>

definition cstr :: "string \<Rightarrow> string" where
  "cstr buf = takeWhile (\<lambda>c. c \<noteq> CHR 0x00) buf"

definition is_space :: "char \<Rightarrow> bool" where
  "is_space c \<longleftrightarrow> c \<in> {CHR 0x20, CHR 0x09, CHR 0x0A, CHR 0x0B, CHR 0x0C, CHR 0x0D}"

text \<open>The value of a digit in base up to 16, or 99.\<close>

definition digit_value :: "char \<Rightarrow> nat" where
  "digit_value c =
     (let n = of_char c :: nat
      in if 48 \<le> n \<and> n \<le> 57 then n - 48
         else if 97 \<le> n \<and> n \<le> 102 then n - 87
         else if 65 \<le> n \<and> n \<le> 70 then n - 55
         else 99)"

definition digits_of :: "nat \<Rightarrow> string \<Rightarrow> string" where
  "digits_of base s = takeWhile (\<lambda>c. digit_value c < base) s"

definition digits_number :: "nat \<Rightarrow> string \<Rightarrow> nat" where
  "digits_number base ds = foldl (\<lambda>n c. n * base + digit_value c) 0 ds"

text \<open>The part of a number both \<^verbatim>\<open>strtol\<close> and \<^verbatim>\<open>strtoul\<close> read: blanks and a sign.\<close>

definition skip_sign :: "string \<Rightarrow> bool \<times> string" where
  "skip_sign s =
     (let s = dropWhile is_space s
      in case s of
           [] \<Rightarrow> (False, s)
         | c # cs \<Rightarrow> if c = CHR ''-'' then (True, cs) else if c = CHR ''+'' then (False, cs) else (False, s))"

definition LONG_MAX :: int where
  "LONG_MAX = 2 ^ 63 - 1"

text \<open>\<^verbatim>\<open>strtol(s, &endptr, 10)\<close>: the value, whether \<^verbatim>\<open>errno\<close> is set, and whether \<^verbatim>\<open>endptr\<close> has moved.\<close>

definition strtol10 :: "string \<Rightarrow> int \<times> bool \<times> bool" where
  "strtol10 s =
     (let (neg, s) = skip_sign s;
          ds = digits_of 10 s;
          n = int (digits_number 10 ds);
          v = (if neg then - n else n)
      in if ds = [] then (0, False, False)
         else if v > LONG_MAX then (LONG_MAX, True, True)
         else if v < - LONG_MAX - 1 then (- LONG_MAX - 1, True, True)
         else (v, False, True))"

text \<open>\<^verbatim>\<open>strtoul(s, &endptr, 0)\<close>: the base is read off the prefix, a sign negates modulo the width.\<close>

definition strtoul0 :: "string \<Rightarrow> u64 \<times> bool \<times> bool" where
  "strtoul0 s =
     (let (neg, s) = skip_sign s;
          hex = (case s of a # b # c # _ \<Rightarrow> a = CHR ''0'' \<and> (b = CHR ''x'' \<or> b = CHR ''X'') \<and> digit_value c < 16
                 | _ \<Rightarrow> False);
          ds = (if hex then digits_of 16 (drop 2 s)
                else if s \<noteq> [] \<and> hd s = CHR ''0'' then digits_of 8 s
                else digits_of 10 s);
          n = digits_number (if hex then 16 else if s \<noteq> [] \<and> hd s = CHR ''0'' then 8 else 10) ds
      in if ds = [] then (0, False, False)
         else if n > 2 ^ 64 - 1 then (- 1, True, True)
         else (if neg then - of_nat n else of_nat n, False, True))"

text \<open>Decimal numbers, as \<^verbatim>\<open>snprintf\<close> writes them.\<close>

fun dec_of_nat :: "nat \<Rightarrow> string" where
  "dec_of_nat n = (if n < 10 then [char_of (48 + n)] else dec_of_nat (n div 10) @ [char_of (48 + n mod 10)])"

declare dec_of_nat.simps [simp del]

subsection \<open>The attributes of a cache\<close>

text \<open>\<open>rd path len\<close> is what opening \<open>path\<close> and reading at most \<open>len\<close> bytes from it gives, the reads that a signal
  interrupts being repeated; \<open>None\<close> is a failure of either.\<close>

type_synonym reader = "string \<Rightarrow> nat \<Rightarrow> string option"

definition jent_read_sysfs_attr :: "reader \<Rightarrow> string \<Rightarrow> nat \<Rightarrow> (nat \<times> string) option" where
  "jent_read_sysfs_attr rd file buflen =
     (case rd file buflen of
        None \<Rightarrow> None
      | Some bytes \<Rightarrow>
          let buf = memcpy_at (replicate buflen (CHR 0x00)) 0 (take buflen bytes)
          in if bytes = [] then None
             else Some (min (length bytes) buflen, buf[buflen - 1 := CHR 0x00]))"

definition jent_cache_type_is_data :: "string \<Rightarrow> bool" where
  "jent_cache_type_is_data buf \<longleftrightarrow> take 4 (cstr buf) = ''Data'' \<or> take 7 (cstr buf) = ''Unified''"

definition jent_parse_cache_level :: "string \<Rightarrow> int option" where
  "jent_parse_cache_level buf =
     (let (val, err, moved) = strtol10 (cstr buf)
      in if err \<or> \<not> moved \<or> val < 1 then None else Some val)"

text \<open>The suffix: the first K ends the string and counts kilobytes, else the first M megabytes.\<close>

definition cache_size_suffix :: "string \<Rightarrow> nat \<times> string" where
  "cache_size_suffix s =
     (if CHR ''K'' \<in> set s then (10, takeWhile (\<lambda>c. c \<noteq> CHR ''K'') s)
      else if CHR ''M'' \<in> set s then (20, takeWhile (\<lambda>c. c \<noteq> CHR ''M'') s)
      else (0, s))"

definition jent_parse_cache_size :: "string \<Rightarrow> nat \<Rightarrow> nat \<Rightarrow> u64 option" where
  "jent_parse_cache_size buf rlen buflen =
     (if rlen \<ge> buflen then None
      else let (shift, s) = cache_size_suffix (cstr buf);
               (val, err, moved) = strtol10 s
           in if err \<or> \<not> moved \<or> val \<le> 0 \<or> val = LONG_MAX then None
              else if (of_int val :: u64) > drop_bit shift (NOT 0) then None
              else Some (push_bit shift (of_int val)))"

subsection \<open>The scan of the processors\<close>

definition JENT_NCPU_SET_MAX :: nat where
  "JENT_NCPU_SET_MAX = 2 ^ 16"

definition sysfs_file :: "string \<Rightarrow> nat \<Rightarrow> nat \<Rightarrow> string \<Rightarrow> string" where
  "sysfs_file cpudir cpu idx attr =
     take 127 (cpudir @ ''/cpu'' @ dec_of_nat cpu @ ''/cache/index'' @ dec_of_nat idx @ ''/'' @ attr)"

definition sysfs_dir :: "string \<Rightarrow> nat \<Rightarrow> string" where
  "sysfs_dir cpudir cpu = take 127 (cpudir @ ''/cpu'' @ dec_of_nat cpu)"

text \<open>Keep the larger size at a level; a level above three is not one of the slots.\<close>

definition sysfs_raise :: "int \<Rightarrow> u64 \<Rightarrow> cache_sizes \<Rightarrow> cache_sizes" where
  "sysfs_raise level val sizes =
     (let (l1, l2, l3) = sizes
      in if level = 1 then (if val > l1 then val else l1, l2, l3)
         else if level = 2 then (l1, if val > l2 then val else l2, l3)
         else if level = 3 then (l1, l2, if val > l3 then val else l3)
         else (l1, l2, l3))"

text \<open>The level and size of one index, when it is a data cache whose attributes can be read.\<close>

definition sysfs_entry :: "reader \<Rightarrow> string \<Rightarrow> nat \<Rightarrow> nat \<Rightarrow> (int \<times> u64) option" where
  "sysfs_entry rd cpudir cpu idx = do {
     (_, buf) \<leftarrow> jent_read_sysfs_attr rd (sysfs_file cpudir cpu idx ''level'') 32;
     level \<leftarrow> jent_parse_cache_level buf;
     if level = 1 \<or> level = 2 \<or> level = 3
     then do {
       (rlen, buf) \<leftarrow> jent_read_sysfs_attr rd (sysfs_file cpudir cpu idx ''size'') 32;
       val \<leftarrow> jent_parse_cache_size buf rlen 32;
       Some (level, val)
     }
     else None
   }"

fun sysfs_indices :: "reader \<Rightarrow> string \<Rightarrow> nat \<Rightarrow> nat list \<Rightarrow> cache_sizes \<Rightarrow> cache_sizes" where
  "sysfs_indices rd cpudir cpu [] sizes = sizes"
| "sysfs_indices rd cpudir cpu (idx # rest) sizes =
     (case jent_read_sysfs_attr rd (sysfs_file cpudir cpu idx ''type'') 32 of
        None \<Rightarrow> sizes
      | Some (_, buf) \<Rightarrow>
          sysfs_indices rd cpudir cpu rest
            (if \<not> jent_cache_type_is_data buf then sizes
             else case sysfs_entry rd cpudir cpu idx of
                    None \<Rightarrow> sizes
                  | Some (level, val) \<Rightarrow> sysfs_raise level val sizes))"

text \<open>\<open>exists\<close> says whether a directory exists; up to \<open>conf\<close> it is not asked.\<close>

fun sysfs_cpus :: "reader \<Rightarrow> (string \<Rightarrow> bool) \<Rightarrow> string \<Rightarrow> nat \<Rightarrow> nat list \<Rightarrow> cache_sizes \<Rightarrow> cache_sizes" where
  "sysfs_cpus rd exists cpudir conf [] sizes = sizes"
| "sysfs_cpus rd exists cpudir conf (cpu # cpus) sizes =
     (if cpu \<ge> conf \<and> \<not> exists (sysfs_dir cpudir cpu) then sizes
      else sysfs_cpus rd exists cpudir conf cpus (sysfs_indices rd cpudir cpu [0..<16] sizes))"

definition jent_get_cachesize_sysfs_dir ::
  "reader \<Rightarrow> (string \<Rightarrow> bool) \<Rightarrow> int \<Rightarrow> string \<Rightarrow> cache_sizes" where
  "jent_get_cachesize_sysfs_dir rd exists nprocessors_conf cpudir =
     (let conf = (if nprocessors_conf \<le> 0 then 1 else nprocessors_conf);
          conf = (if conf > int JENT_NCPU_SET_MAX then int JENT_NCPU_SET_MAX else conf)
      in sysfs_cpus rd exists cpudir (nat conf) [0..<JENT_NCPU_SET_MAX] (0, 0, 0))"

definition jent_get_cachesize_sysfs :: "reader \<Rightarrow> (string \<Rightarrow> bool) \<Rightarrow> int \<Rightarrow> cache_sizes" where
  "jent_get_cachesize_sysfs rd exists nprocessors_conf =
     jent_get_cachesize_sysfs_dir rd exists nprocessors_conf ''/sys/devices/system/cpu''"

subsection \<open>The core types of Arm\<close>

record jent_arm_core_cache =
  cc_implementer :: u16
  cc_part :: u16
  cc_l1_kib :: u16
  cc_l2_kib :: u16
  cc_l3_kib :: u16

definition core_cache :: "u16 \<Rightarrow> u16 \<Rightarrow> u16 \<Rightarrow> u16 \<Rightarrow> u16 \<Rightarrow> jent_arm_core_cache" where
  "core_cache i p l1 l2 l3 = \<lparr>cc_implementer = i, cc_part = p, cc_l1_kib = l1, cc_l2_kib = l2, cc_l3_kib = l3\<rparr>"

definition jent_arm_core_caches :: "jent_arm_core_cache list" where
  "jent_arm_core_caches =
    [core_cache 0x41 0xc05 64 8192 0, core_cache 0x41 0xc07 64 1024 0, core_cache 0x41 0xc08 32 1024 0,
     core_cache 0x41 0xc09 64 8192 0, core_cache 0x41 0xc0e 32 8192 0, core_cache 0x41 0xc0f 32 4096 0,
     core_cache 0x41 0xd01 64 1024 0, core_cache 0x41 0xd02 64 1024 0, core_cache 0x41 0xd03 64 2048 0,
     core_cache 0x41 0xd04 64 1024 0, core_cache 0x41 0xd05 64 256 4096, core_cache 0x41 0xd06 64 256 4096,
     core_cache 0x41 0xd07 32 2048 0, core_cache 0x41 0xd08 32 4096 0, core_cache 0x41 0xd09 64 8192 0,
     core_cache 0x41 0xd0a 64 512 4096, core_cache 0x41 0xd0b 64 512 4096, core_cache 0x41 0xd0c 64 1024 4096,
     core_cache 0x41 0xd0d 64 512 4096, core_cache 0x41 0xd0e 64 512 4096, core_cache 0x41 0xd40 64 1024 4096,
     core_cache 0x41 0xd41 64 512 4096, core_cache 0x41 0xd42 64 512 4096, core_cache 0x41 0xd43 64 256 4096,
     core_cache 0x41 0xd44 64 1024 4096, core_cache 0x41 0xd46 64 512 16384, core_cache 0x41 0xd47 64 512 16384,
     core_cache 0x41 0xd48 64 1024 16384, core_cache 0x41 0xd49 64 1024 0, core_cache 0x41 0xd4a 64 256 4096,
     core_cache 0x41 0xd4b 64 512 4096, core_cache 0x41 0xd4c 64 1024 4096, core_cache 0x41 0xd4d 64 512 16384,
     core_cache 0x41 0xd4e 64 1024 16384, core_cache 0x41 0xd4f 64 2048 0, core_cache 0x41 0xd80 64 512 32768,
     core_cache 0x41 0xd81 64 512 32768, core_cache 0x41 0xd82 64 2048 32768, core_cache 0x41 0xd83 64 2048 32768,
     core_cache 0x41 0xd84 64 3072 32768, core_cache 0x41 0xd85 64 3072 32768, core_cache 0x41 0xd87 64 1024 32768,
     core_cache 0x41 0xd88 64 512 32768, core_cache 0x41 0xd89 64 1024 32768, core_cache 0x51 0x801 64 2048 0,
     core_cache 0x51 0x804 64 512 4096, core_cache 0x51 0x805 64 256 4096]"

text \<open>The key of a line: the text before the colon, without the blanks at its end.\<close>

definition cpuinfo_key :: "string \<Rightarrow> string" where
  "cpuinfo_key line =
     rev (dropWhile (\<lambda>c. c = CHR 0x20 \<or> c = CHR 0x09) (rev (takeWhile (\<lambda>c. c \<noteq> CHR '':'') line)))"

text \<open>The first entry of the table for a core type raises the levels.\<close>

definition arm_core_sizes :: "int \<Rightarrow> u64 \<Rightarrow> cache_sizes \<Rightarrow> cache_sizes" where
  "arm_core_sizes implementer v sizes =
     (case find (\<lambda>c. ucast (cc_implementer c) = (of_int implementer :: u64) \<and> ucast (cc_part c) = v) jent_arm_core_caches of
        None \<Rightarrow> sizes
      | Some c \<Rightarrow> jent_cache_sizes_merge sizes
          (push_bit 10 (ucast (cc_l1_kib c)), push_bit 10 (ucast (cc_l2_kib c)), push_bit 10 (ucast (cc_l3_kib c))))"

definition jent_cpuinfo_arm_line :: "string \<Rightarrow> int \<times> cache_sizes \<Rightarrow> int \<times> cache_sizes" where
  "jent_cpuinfo_arm_line buf st =
     (let line = cstr buf;
          (implementer, sizes) = st
      in if CHR '':'' \<notin> set line then st
         else let key = cpuinfo_key line
              in if key = ''processor'' then (- 1, sizes)
                 else let (v, err, moved) = strtoul0 (tl (dropWhile (\<lambda>c. c \<noteq> CHR '':'') line))
                      in if err \<or> \<not> moved then st
                         else if key = ''CPU implementer'' then (sint v, sizes)
                         else if key \<noteq> ''CPU part'' \<or> implementer < 0 then st
                         else (implementer, arm_core_sizes implementer v sizes))"

text \<open>The characters of the file: the line so far, whether it was too long, and what the lines gave.\<close>

fun cpuinfo_chars :: "string \<Rightarrow> string \<times> bool \<times> int \<times> cache_sizes \<Rightarrow> string \<times> bool \<times> int \<times> cache_sizes" where
  "cpuinfo_chars [] st = st"
| "cpuinfo_chars (c # cs) (line, overlong, st) =
     (if c \<noteq> CHR 0x0A
      then if length line < 63 then cpuinfo_chars cs (line @ [c], overlong, st)
           else cpuinfo_chars cs (line, True, st)
      else cpuinfo_chars cs ([], False, if \<not> overlong then jent_cpuinfo_arm_line line st else st))"

text \<open>\<open>content\<close> is what reading the file to its end gives, in however many pieces; \<open>None\<close> is a file that cannot be opened.\<close>

definition jent_get_cachesize_cpuinfo_file :: "string option \<Rightarrow> cache_sizes" where
  "jent_get_cachesize_cpuinfo_file content =
     (case content of
        None \<Rightarrow> (0, 0, 0)
      | Some cs \<Rightarrow>
          let (line, overlong, st) = cpuinfo_chars cs ([], False, - 1, (0, 0, 0));
              st = (if line \<noteq> [] \<and> \<not> overlong then jent_cpuinfo_arm_line line st else st)
          in snd st)"

subsection \<open>Reading back what is printed\<close>

lemma of_char_digit: "d < 10 \<Longrightarrow> of_char (char_of (48 + d) :: char) = (48 + d :: nat)"
  by (simp add: of_char_of)

lemma digit_value_char [simp]: "d < 10 \<Longrightarrow> digit_value (char_of (48 + d :: nat)) = d"
  by (simp add: digit_value_def of_char_digit)

lemma dec_digits: "c \<in> set (dec_of_nat n) \<Longrightarrow> \<exists>d < 10. c = char_of (48 + d :: nat)"
proof (induction n rule: dec_of_nat.induct)
  case (1 n)
  show ?case
  proof (cases "n < 10")
    case True
    then show ?thesis
      using 1(2) by (subst (asm) dec_of_nat.simps) auto
  next
    case False
    then have "c \<in> set (dec_of_nat (n div 10)) \<or> c = char_of (48 + n mod 10)"
      using 1(2) by (subst (asm) dec_of_nat.simps) auto
    then show ?thesis
      using 1(1) [OF False] by (auto intro: exI [of _ "n mod 10"])
  qed
qed

lemma dec_digit_value: "c \<in> set (dec_of_nat n) \<Longrightarrow> digit_value c < 10"
  using dec_digits by fastforce

lemma dec_nonempty [simp]: "dec_of_nat n \<noteq> []"
  by (subst dec_of_nat.simps) simp

lemma digits_number_append: "digits_number b (xs @ [c]) = digits_number b xs * b + digit_value c"
  by (simp add: digits_number_def)

lemma digits_number_dec: "digits_number 10 (dec_of_nat n) = n"
proof (induction n rule: dec_of_nat.induct)
  case (1 n)
  show ?case
  proof (cases "n < 10")
    case True
    then show ?thesis
      by (subst dec_of_nat.simps) (simp add: digits_number_def)
  next
    case False
    with 1 show ?thesis
      by (subst dec_of_nat.simps) (simp add: digits_number_append)
  qed
qed

lemma digits_of_dec:
  assumes "rest = [] \<or> \<not> digit_value (hd rest) < 10"
  shows "digits_of 10 (dec_of_nat n @ rest) = dec_of_nat n"
  using assms dec_digit_value [of _ n] unfolding digits_of_def
  by (subst takeWhile_append2) (auto simp: takeWhile_eq_Nil_iff)

lemma dec_hd: "\<exists>d < 10. hd (dec_of_nat n) = char_of (48 + d :: nat)"
  using dec_digits [of "hd (dec_of_nat n)" n] by simp

lemma digit_plain:
  fixes d :: nat
  assumes "d < 10"
  shows "\<not> is_space (char_of (48 + d))" "char_of (48 + d) \<noteq> CHR ''-''" "char_of (48 + d) \<noteq> CHR ''+''"
    "char_of (48 + d) \<noteq> CHR 0x00" "char_of (48 + d) \<noteq> CHR ''K''" "char_of (48 + d) \<noteq> CHR ''M''"
proof -
  have *: "of_char (char_of (48 + d) :: char) = (48 + d :: nat)"
    using assms by (rule of_char_digit)
  have ne [simp]: "char_of (48 + d) \<noteq> c" if "of_char c \<noteq> (48 + d :: nat)" for c
    using * that by auto
  show "\<not> is_space (char_of (48 + d))"
    unfolding is_space_def using assms by simp_all
  show "char_of (48 + d) \<noteq> CHR ''-''" "char_of (48 + d) \<noteq> CHR ''+''"
    "char_of (48 + d) \<noteq> CHR 0x00" "char_of (48 + d) \<noteq> CHR ''K''" "char_of (48 + d) \<noteq> CHR ''M''"
    using assms by simp_all
qed

lemma skip_sign_dec: "skip_sign (dec_of_nat n @ rest) = (False, dec_of_nat n @ rest)"
proof -
  obtain d :: nat and ds where d: "dec_of_nat n = char_of (48 + d) # ds" "d < 10"
    using dec_hd [of n] by (cases "dec_of_nat n") auto
  then show ?thesis
    by (simp add: skip_sign_def digit_plain)
qed

lemma strtol10_dec:
  assumes "rest = [] \<or> \<not> digit_value (hd rest) < 10" "int n \<le> LONG_MAX"
  shows "strtol10 (dec_of_nat n @ rest) = (int n, False, True)"
  using assms by (simp add: strtol10_def skip_sign_dec digits_of_dec digits_number_dec LONG_MAX_def Let_def)

lemma read_attr:
  assumes "rd path 32 = Some bytes" "bytes \<noteq> []" "length bytes < 32" "CHR 0x00 \<notin> set bytes"
  shows "\<exists>buf. jent_read_sysfs_attr rd path 32 = Some (length bytes, buf) \<and> cstr buf = bytes"
proof -
  define k where "k = 31 - length bytes"
  have k: "32 - length bytes = Suc k"
    using assms(3) by (simp add: k_def)
  have b: "(bytes @ replicate (Suc k) (CHR 0x00))[31 := CHR 0x00] = bytes @ replicate (Suc k) (CHR 0x00)"
    using assms(3) k_def by (intro nth_equalityI) (auto simp: nth_append nth_list_update simp del: replicate_Suc)
  have "cstr (bytes @ replicate (Suc k) (CHR 0x00)) = bytes"
    using assms(4) unfolding cstr_def by (subst takeWhile_append2) auto
  then show ?thesis
    using assms(1-3) b by (simp add: jent_read_sysfs_attr_def memcpy_at_def k Let_def)
qed

lemma suffix_dec:
  assumes "(shift, suffix) \<in> {(0, ''''), (10, ''K''), (20, ''M'')}"
  shows "\<exists>rest. cache_size_suffix (dec_of_nat n @ suffix @ [CHR 0x0A]) = (shift, dec_of_nat n @ rest) \<and> rest \<in> {[], [CHR 0x0A]}"
proof -
  have no: "CHR ''K'' \<notin> set (dec_of_nat n)" "CHR ''M'' \<notin> set (dec_of_nat n)"
    using dec_digits digit_plain(5,6) by metis+
  then have "takeWhile (\<lambda>c. c \<noteq> CHR ''K'') (dec_of_nat n @ ''K'' @ [CHR 0x0A]) = dec_of_nat n"
    "takeWhile (\<lambda>c. c \<noteq> CHR ''M'') (dec_of_nat n @ ''M'' @ [CHR 0x0A]) = dec_of_nat n"
    by (subst takeWhile_append2; fastforce)+
  then show ?thesis
    using assms no by (auto simp: cache_size_suffix_def)
qed

lemma parse_size_dec:
  assumes "0 < n" "n * 2 ^ shift < 2 ^ 64" "int n < LONG_MAX" "(shift, suffix) \<in> {(0, ''''), (10, ''K''), (20, ''M'')}"
    and "cstr buf = dec_of_nat n @ suffix @ [CHR 0x0A]" "rlen < buflen"
  shows "jent_parse_cache_size buf rlen buflen = Some (of_nat (n * 2 ^ shift))"
proof -
  obtain rest where r: "cache_size_suffix (cstr buf) = (shift, dec_of_nat n @ rest)" "rest \<in> {[], [CHR 0x0A]}"
    using suffix_dec [OF assms(4), of n] assms(5) by auto
  have "strtol10 (dec_of_nat n @ rest) = (int n, False, True)"
    using r(2) assms(3) by (intro strtol10_dec) (auto simp: digit_value_def)
  moreover have "\<not> (of_int (int n) :: u64) > drop_bit shift (NOT 0)"
  proof -
    have "unat (drop_bit shift (NOT 0) :: u64) = (2 ^ 64 - 1) div 2 ^ shift"
      using assms(4) by (auto simp: mask_eq_exp_minus_1)
    moreover have "n \<le> (2 ^ 64 - 1) div 2 ^ shift"
      using assms(2) by (simp add: less_eq_div_iff_mult_less_eq)
    moreover have "unat (of_nat n :: u64) = n"
      using assms(3) by (intro unat_of_nat_small) (simp add: LONG_MAX_def)
    ultimately show ?thesis
      by (simp only: word_less_nat_alt of_int_of_nat_eq not_less)
  qed
  ultimately show ?thesis
    using assms(1,3,6) r(1) by (simp add: jent_parse_cache_size_def push_bit_eq_mult)
qed

subsection \<open>The scan keeps the largest cache of each level\<close>

definition type_read :: "reader \<Rightarrow> string \<Rightarrow> nat \<Rightarrow> nat \<Rightarrow> bool" where
  "type_read rd cpudir cpu idx \<longleftrightarrow> jent_read_sysfs_attr rd (sysfs_file cpudir cpu idx ''type'') 32 \<noteq> None"

definition data_type :: "reader \<Rightarrow> string \<Rightarrow> nat \<Rightarrow> nat \<Rightarrow> bool" where
  "data_type rd cpudir cpu idx \<longleftrightarrow>
     (\<exists>n buf. jent_read_sysfs_attr rd (sysfs_file cpudir cpu idx ''type'') 32 = Some (n, buf) \<and> jent_cache_type_is_data buf)"

text \<open>The sizes of level \<open>i\<close> among the indices from \<open>a\<close> to \<open>b\<close>, up to the first one that is missing.\<close>

definition index_sizes :: "reader \<Rightarrow> string \<Rightarrow> nat \<Rightarrow> nat \<Rightarrow> nat \<Rightarrow> nat \<Rightarrow> u64 set" where
  "index_sizes rd cpudir cpu a b i =
     {v. \<exists>idx. a \<le> idx \<and> idx < b \<and> (\<forall>j. a \<le> j \<and> j \<le> idx \<longrightarrow> type_read rd cpudir cpu j) \<and>
         data_type rd cpudir cpu idx \<and> sysfs_entry rd cpudir cpu idx = Some (int i, v)}"

definition gathers :: "nat \<Rightarrow> cache_sizes \<Rightarrow> u64 set \<Rightarrow> cache_sizes \<Rightarrow> bool" where
  "gathers i s S r \<longleftrightarrow> level_of i s \<le> level_of i r \<and> (\<forall>v \<in> S. v \<le> level_of i r) \<and>
     (level_of i r = level_of i s \<or> level_of i r \<in> S)"

lemma gathers_none [simp]: "gathers i s {} s"
  by (simp add: gathers_def)

lemma gathers_trans: "gathers i s S r \<Longrightarrow> gathers i r T q \<Longrightarrow> gathers i s (S \<union> T) q"
  unfolding gathers_def by (auto intro: order.trans)

lemma gathers_raise:
  assumes "i \<in> {1, 2, 3}"
  shows "gathers i s {w. v = w \<and> level = int i} (sysfs_raise level v s)"
  using assms by (cases s) (auto simp: gathers_def sysfs_raise_def level_of_def)

lemma ex_from_Suc:
  "a < b \<Longrightarrow> (\<exists>n. a \<le> n \<and> n < b \<and> R n) \<longleftrightarrow> R a \<or> (\<exists>n. Suc a \<le> n \<and> n < (b :: nat) \<and> R n)"
  by (metis Suc_leD Suc_leI le_neq_implies_less order_refl)

lemma index_sizes_Suc:
  assumes "a < b" "type_read rd cpudir cpu a"
  shows "index_sizes rd cpudir cpu a b i =
    {v. data_type rd cpudir cpu a \<and> sysfs_entry rd cpudir cpu a = Some (int i, v)} \<union> index_sizes rd cpudir cpu (Suc a) b i"
proof -
  have "(\<forall>j. a \<le> j \<and> j \<le> idx \<longrightarrow> type_read rd cpudir cpu j) \<longleftrightarrow>
      (\<forall>j. Suc a \<le> j \<and> j \<le> idx \<longrightarrow> type_read rd cpudir cpu j)" for idx
  proof (intro iffI allI impI)
    fix j
    assume "\<forall>j. Suc a \<le> j \<and> j \<le> idx \<longrightarrow> type_read rd cpudir cpu j" "a \<le> j \<and> j \<le> idx"
    then show "type_read rd cpudir cpu j"
      using assms(2) by (cases "j = a") simp_all
  qed simp
  then show ?thesis
    unfolding index_sizes_def ex_from_Suc [OF assms(1)] by auto
qed

lemma indices_gather:
  assumes "i \<in> {1, 2, 3}"
  shows "gathers i s (index_sizes rd cpudir cpu a b i) (sysfs_indices rd cpudir cpu [a..<b] s)"
proof (induction "b - a" arbitrary: a s)
  case 0
  then have "index_sizes rd cpudir cpu a b i = {}"
    by (auto simp: index_sizes_def)
  then show ?case
    using 0 by simp
next
  case (Suc n)
  then have ab: "a < b" "n = b - Suc a"
    by auto
  show ?case
  proof (cases "jent_read_sysfs_attr rd (sysfs_file cpudir cpu a ''type'') 32")
    case None
    then have "index_sizes rd cpudir cpu a b i = {}"
      by (auto simp: index_sizes_def type_read_def)
    then show ?thesis
      using None ab by (simp add: upt_conv_Cons)
  next
    case (Some p)
    obtain m buf where p: "p = (m, buf)"
      by (cases p)
    define s' where "s' = (if \<not> jent_cache_type_is_data buf then s else case sysfs_entry rd cpudir cpu a of
        None \<Rightarrow> s | Some (level, val) \<Rightarrow> sysfs_raise level val s)"
    have "gathers i s {v. data_type rd cpudir cpu a \<and> sysfs_entry rd cpudir cpu a = Some (int i, v)} s'"
      using Some p gathers_raise [OF assms, of s]
      by (auto simp: s'_def data_type_def split: option.splits if_splits)
    from gathers_trans [OF this Suc(1) [OF ab(2)]] show ?thesis
      using Some p ab by (simp add: upt_conv_Cons s'_def index_sizes_Suc type_read_def)
  qed
qed

text \<open>The sizes of level \<open>i\<close> among the processors from \<open>a\<close> to \<open>b\<close>, up to the first one beyond \<open>conf\<close> that has no
  directory.\<close>

definition cpu_sizes :: "reader \<Rightarrow> (string \<Rightarrow> bool) \<Rightarrow> string \<Rightarrow> nat \<Rightarrow> nat \<Rightarrow> nat \<Rightarrow> nat \<Rightarrow> u64 set" where
  "cpu_sizes rd exists cpudir conf a b i =
     {v. \<exists>cpu. a \<le> cpu \<and> cpu < b \<and> (\<forall>c. a \<le> c \<and> c \<le> cpu \<longrightarrow> c < conf \<or> exists (sysfs_dir cpudir c)) \<and>
         v \<in> index_sizes rd cpudir cpu 0 16 i}"

lemma cpu_sizes_Suc:
  assumes "a < b" "a < conf \<or> exists (sysfs_dir cpudir a)"
  shows "cpu_sizes rd exists cpudir conf a b i =
    index_sizes rd cpudir a 0 16 i \<union> cpu_sizes rd exists cpudir conf (Suc a) b i"
proof -
  have "(\<forall>c. a \<le> c \<and> c \<le> cpu \<longrightarrow> c < conf \<or> exists (sysfs_dir cpudir c)) \<longleftrightarrow>
      (\<forall>c. Suc a \<le> c \<and> c \<le> cpu \<longrightarrow> c < conf \<or> exists (sysfs_dir cpudir c))" for cpu
  proof (intro iffI allI impI)
    fix c
    assume "\<forall>c. Suc a \<le> c \<and> c \<le> cpu \<longrightarrow> c < conf \<or> exists (sysfs_dir cpudir c)" "a \<le> c \<and> c \<le> cpu"
    then show "c < conf \<or> exists (sysfs_dir cpudir c)"
      using assms(2) by (cases "c = a") simp_all
  qed simp
  then show ?thesis
    unfolding cpu_sizes_def ex_from_Suc [OF assms(1)] by auto
qed

lemma cpus_gather:
  assumes "i \<in> {1, 2, 3}"
  shows "gathers i s (cpu_sizes rd exists cpudir conf a b i) (sysfs_cpus rd exists cpudir conf [a..<b] s)"
proof (induction "b - a" arbitrary: a s)
  case 0
  then have "cpu_sizes rd exists cpudir conf a b i = {}"
    by (auto simp: cpu_sizes_def)
  then show ?case
    using 0 by simp
next
  case (Suc n)
  then have ab: "a < b" "n = b - Suc a"
    by auto
  show ?case
  proof (cases "a < conf \<or> exists (sysfs_dir cpudir a)")
    case False
    then have "cpu_sizes rd exists cpudir conf a b i = {}"
      by (auto simp: cpu_sizes_def)
    then show ?thesis
      using False ab by (simp add: upt_conv_Cons)
  next
    case True
    then have "\<not> (conf \<le> a \<and> \<not> exists (sysfs_dir cpudir a))"
      by auto
    with gathers_trans [OF indices_gather [OF assms, of s rd cpudir a 0 16] Suc(1) [OF ab(2)]] show ?thesis
      by (simp only: upt_conv_Cons [OF ab(1)] cpu_sizes_Suc [of a b conf exists cpudir rd i, OF ab(1) True] sysfs_cpus.simps if_False)
  qed
qed

subsection \<open>The properties of the text sources\<close>

text \<open>C40: a size attribute of the kernel is read back exactly: a decimal number of bytes, of kilobytes with the
  suffix K or of megabytes with the suffix M, with its newline, gives the number of bytes, whenever it is
  shorter than the buffer and the number fits.\<close>

theorem sysfs_size_round_trip:
  assumes "0 < n" "n * 2 ^ shift < 2 ^ 64" "int n < LONG_MAX" "(shift, suffix) \<in> {(0, ''''), (10, ''K''), (20, ''M'')}"
    and "rd path 32 = Some (dec_of_nat n @ suffix @ [CHR 0x0A])" "length (dec_of_nat n @ suffix) < 31"
  shows "\<exists>rlen buf. jent_read_sysfs_attr rd path 32 = Some (rlen, buf) \<and>
    jent_parse_cache_size buf rlen 32 = Some (of_nat (n * 2 ^ shift))"
proof -
  have "CHR 0x00 \<notin> set (dec_of_nat n)"
    using dec_digits digit_plain(4) by metis
  then have "CHR 0x00 \<notin> set (dec_of_nat n @ suffix @ [CHR 0x0A])"
    using assms(4) by auto
  then obtain buf where "jent_read_sysfs_attr rd path 32 = Some (length (dec_of_nat n @ suffix @ [CHR 0x0A]), buf)"
    "cstr buf = dec_of_nat n @ suffix @ [CHR 0x0A]"
    using read_attr [of rd path "dec_of_nat n @ suffix @ [CHR 0x0A]"] assms(5,6) by auto
  then show ?thesis
    using parse_size_dec [OF assms(1-4)] assms(6) by auto
qed

theorem sysfs_size_round_trip_witness:
  "\<exists>rlen buf. jent_read_sysfs_attr (\<lambda>_ _. Some (''48K'' @ [CHR 0x0A])) ''size'' 32 = Some (rlen, buf) \<and>
     jent_parse_cache_size buf rlen 32 = Some 49152"
proof -
  have d: "dec_of_nat 48 = ''48''"
    by code_simp
  show ?thesis
    using sysfs_size_round_trip [of 48 10 "''K''" "\<lambda>_ _. Some (''48K'' @ [CHR 0x0A])" "''size''"]
    by (simp add: LONG_MAX_def d)
qed

text \<open>What the scan may see of level \<open>i\<close>.\<close>

definition sysfs_seen :: "reader \<Rightarrow> (string \<Rightarrow> bool) \<Rightarrow> int \<Rightarrow> string \<Rightarrow> nat \<Rightarrow> u64 \<Rightarrow> bool" where
  "sysfs_seen rd exists conf cpudir i v \<longleftrightarrow>
     (\<exists>cpu idx. cpu < 2 ^ 16 \<and> (\<forall>c \<le> cpu. int c < max 1 conf \<or> exists (sysfs_dir cpudir c)) \<and>
        idx < 16 \<and> (\<forall>j \<le> idx. type_read rd cpudir cpu j) \<and> data_type rd cpudir cpu idx \<and>
        sysfs_entry rd cpudir cpu idx = Some (int i, v))"

lemma sysfs_seen_sizes:
  assumes "\<And>c. c < 2 ^ 16 \<Longrightarrow> c < k \<longleftrightarrow> int c < max 1 conf"
  shows "v \<in> cpu_sizes rd exists cpudir k 0 (2 ^ 16) i \<longleftrightarrow> sysfs_seen rd exists conf cpudir i v"
proof -
  have "(\<forall>c \<le> cpu. c < k \<or> exists (sysfs_dir cpudir c)) \<longleftrightarrow> (\<forall>c \<le> cpu. int c < max 1 conf \<or> exists (sysfs_dir cpudir c))"
    if "cpu < 2 ^ 16" for cpu
    using assms le_less_trans [OF _ that] by simp
  then show ?thesis
    unfolding cpu_sizes_def index_sizes_def sysfs_seen_def by auto
qed

text \<open>C39: the scan of the processors reports for each level the largest data cache of any scanned processor, whichever
  processor and index has it: every processor up to the configured number and beyond it as long as there is a
  directory, and every index up to the first missing one. A level without such a cache stays 0.\<close>

theorem sysfs_largest:
  assumes "i \<in> {1, 2, 3}"
  shows "(\<forall>v. sysfs_seen rd exists conf cpudir i v \<longrightarrow> v \<le> level_of i (jent_get_cachesize_sysfs_dir rd exists conf cpudir)) \<and>
    (level_of i (jent_get_cachesize_sysfs_dir rd exists conf cpudir) \<noteq> 0 \<longrightarrow>
     sysfs_seen rd exists conf cpudir i (level_of i (jent_get_cachesize_sysfs_dir rd exists conf cpudir)))"
proof -
  define k where "k = nat (let c = (if conf \<le> 0 then 1 else conf) in
    if c > int JENT_NCPU_SET_MAX then int JENT_NCPU_SET_MAX else c)"
  have "c < k \<longleftrightarrow> int c < max 1 conf" if "c < 2 ^ 16" for c
    using that by (auto simp: k_def JENT_NCPU_SET_MAX_def max_def Let_def)
  then have S: "v \<in> cpu_sizes rd exists cpudir k 0 (2 ^ 16) i \<longleftrightarrow> sysfs_seen rd exists conf cpudir i v" for v
    by (rule sysfs_seen_sizes)
  have "gathers i (0, 0, 0) (cpu_sizes rd exists cpudir k 0 (2 ^ 16) i) (jent_get_cachesize_sysfs_dir rd exists conf cpudir)"
    using cpus_gather [OF assms, of "(0, 0, 0)" rd exists cpudir k 0 "2 ^ 16"]
    unfolding jent_get_cachesize_sysfs_dir_def k_def JENT_NCPU_SET_MAX_def Let_def by simp
  moreover have "level_of i (0, 0, 0) = 0"
    by (simp add: level_of_def)
  ultimately show ?thesis
    unfolding gathers_def Ball_def S by auto
qed

definition sample_sysfs :: reader where
  "sample_sysfs path n =
     (if path = ''/sys/cpu0/cache/index0/type'' then Some (''Data'' @ [CHR 0x0A])
      else if path = ''/sys/cpu0/cache/index0/level'' then Some (''1'' @ [CHR 0x0A])
      else if path = ''/sys/cpu0/cache/index0/size'' then Some (''48K'' @ [CHR 0x0A])
      else None)"

theorem sysfs_largest_witness:
  "49152 \<le> level_of 1 (jent_get_cachesize_sysfs_dir sample_sysfs (\<lambda>_. False) 4 ''/sys'')"
proof -
  have "jent_read_sysfs_attr sample_sysfs (sysfs_file ''/sys'' 0 0 ''type'') 32 =
      Some (5, ''Data'' @ [CHR 0x0A] @ replicate 27 (CHR 0x00))" "jent_cache_type_is_data (''Data'' @ [CHR 0x0A] @ replicate 27 (CHR 0x00))"
    by code_simp+
  moreover have "sysfs_entry sample_sysfs ''/sys'' 0 0 = Some (1, 49152)"
    by code_simp
  ultimately have "sysfs_seen sample_sysfs (\<lambda>_. False) 4 ''/sys'' 1 49152"
    unfolding sysfs_seen_def type_read_def data_type_def by (intro exI [of _ 0]) auto
  then show ?thesis
    using sysfs_largest [of 1 sample_sysfs "\<lambda>_. False" 4 "''/sys''"] by simp
qed

end
