(* ===== verification/Spec2Isabelle.thy ===== *)
theory Spec2Isabelle
  imports Jent_Kat Jent_Health_Props Jent_Memory Jent_Api Jent_Sysfs
begin

text \<open>
  A model of the Jitter RNG library, the CPU jitter based noise source in \<^verbatim>\<open>src/src\<close>, and the properties
  that make it correct.

  \<^bold>\<open>The program.\<close> An entropy collector (\<^verbatim>\<open>struct rand_data\<close>) measures the time that memory accesses and
  hash operations take. Every measurement passes the health tests and is hashed into a SHAKE256 state, from
  which an output block is drawn with the XDRBG-256 construction after enough measurements that were not
  stuck. Around this core the library tests the clock before use, finds the divisor of its time stamps,
  can replace the clock by a counting thread, allocates and starts collectors, and replaces a collector by
  one with a higher oversampling rate when a health test fails.

  \<^bold>\<open>The build.\<close> The model is the 64-bit little-endian hosted Linux build, with the lag predictor, the internal
  timer and pseudorandom memory access. C integers are words of their width, so every wrap-around
  is the one of C; buffers are lists, \<^verbatim>\<open>size_t\<close> has 64 bits. \<^const>\<open>None\<close> as the result of an operation
  means a loop that has used up its fuel, an access out of bounds or a division by zero; the theorems that
  an operation returns therefore also exclude those. What the library reads from the outside and its static
  variables form the record \<^typ>\<open>jent_env\<close> (theory \<^verbatim>\<open>Jent_Rand_Data\<close>): the stream of time stamps, the outcomes of
  allocations, the cache sizes, the FIPS switch of the platform, the random bytes and the processor count are
  arbitrary functions or values, the statics (divisor table, forced internal timer, configuration windows,
  callback) have the names of the C variables. Every \<^verbatim>\<open>jent_zalloc\<close> and \<^verbatim>\<open>jent_zfree\<close> of the library is in the model:
  the record keeps the multiset of the live blocks by size, and a mark that a block which is not
  live was freed or a size was wrong. The size of a structure is a symbol. No theorem assumes anything about the clock except where
  its statement says so.

  \<^bold>\<open>Theories and sources.\<close>
  \<^item> \<^verbatim>\<open>Jent_Prelude\<close>: machine words, byte buffers, the collections of simplification rules, general lemmas.
  \<^item> \<^verbatim>\<open>Jent_Sha3\<close>, \<^verbatim>\<open>Jent_Keccak\<close>, \<^verbatim>\<open>Jent_Sponge\<close>: \<^verbatim>\<open>jitterentropy-sha3.c\<close>. The unrolled permutation on 25 lanes in place equals
    the five step mappings of FIPS 202 written over coordinates; the incremental sponge equals the padded
    sponge over the whole message, for every way to cut the message; the generate function is XDRBG-256 and
    leaves no output in the context. \<^verbatim>\<open>Jent_Bits\<close> and \<^verbatim>\<open>Jent_Kat\<close> compute the known answer tests of the file: they pass.
  \<^item> \<^verbatim>\<open>Jent_Header\<close>, \<^verbatim>\<open>Jent_Rand_Data\<close>: the constants of \<^verbatim>\<open>jitterentropy.h\<close>, the collector and the environment.
  \<^item> \<^verbatim>\<open>Jent_Gcd\<close>: \<^verbatim>\<open>jitterentropy-gcd.c\<close>. The verdict on a history of deltas, the write-once divisor of each clock,
    the memory of a history, the self test.
  \<^item> \<^verbatim>\<open>Jent_Health\<close>, \<^verbatim>\<open>Jent_Health_Laws\<close>, \<^verbatim>\<open>Jent_Health_Props\<close>: \<^verbatim>\<open>jitterentropy-health.c\<close>. The repetition count test, the
    adaptive proportion test, the lag predictor and the repetition count test with memory over arbitrary
    sequences of measurements, against declarative descriptions of what they count.
  \<^item> \<^verbatim>\<open>Jent_Timer\<close>: \<^verbatim>\<open>jitterentropy-timer.c\<close>. The counting thread through the sequence of values its counter shows, the CPU it
    is pinned to, its context and its handler.
  \<^item> \<^verbatim>\<open>Jent_Noise\<close>, \<^verbatim>\<open>Jent_Noise_Laws\<close>, \<^verbatim>\<open>Jent_Progress\<close>, \<^verbatim>\<open>Jent_Collect\<close>, \<^verbatim>\<open>Jent_Memory\<close>: \<^verbatim>\<open>jitterentropy-noise.c\<close>. The noise sources,
    the three kinds of measurement and the collection of a block. The interface between the collection loop
    and a measurement is the locale \<^verbatim>\<open>noise_source\<close>, interpreted by the three measurements.
  \<^item> \<^verbatim>\<open>Jent_Uuid\<close>, \<^verbatim>\<open>Jent_Flags\<close>: \<^verbatim>\<open>jitterentropy-uuid.c\<close> and the flag arithmetic of \<^verbatim>\<open>jitterentropy-base.c\<close>.
  \<^item> \<^verbatim>\<open>Jent_Cache\<close>, \<^verbatim>\<open>Jent_Sysfs\<close>: \<^verbatim>\<open>arch/jitterentropy-arch-cache.c\<close>. The data cache sizes from sysfs, sysconf, CPUID and
    \<^verbatim>\<open>/proc/cpuinfo\<close>, their rounding, and the size of the memory block that results from them.
  \<^item> \<^verbatim>\<open>Jent_Base\<close>: the life cycle in \<^verbatim>\<open>jitterentropy-base.c\<close>: \<^verbatim>\<open>jent_entropy_init\<close>, \<^verbatim>\<open>jent_entropy_init_ex\<close>,
    \<^verbatim>\<open>jent_time_entropy_init\<close>, allocation, startup, \<^verbatim>\<open>jent_health_failure_reset\<close>, \<^verbatim>\<open>jent_read_entropy\<close> and
    \<^verbatim>\<open>jent_read_entropy_safe\<close>.
  \<^item> \<^verbatim>\<open>Jent_Frame\<close>, \<^verbatim>\<open>Jent_World\<close>, \<^verbatim>\<open>Jent_Alloc\<close>, \<^verbatim>\<open>Jent_Reset\<close>, \<^verbatim>\<open>Jent_Safe\<close>: which fields each operation may change, which
    blocks it takes over and hands on in any surrounding memory (\<^const>\<open>steps\<close>), what an allocation establishes, what
    a replacement inherits and how its noise sources grow.
  \<^item> \<^verbatim>\<open>Jent_Read\<close>, \<^verbatim>\<open>Jent_Total\<close>: the contract of a read and its agreement with the failure callback, and that reads,
    safe reads and allocations return.
  \<^item> \<^verbatim>\<open>Jent_Api\<close>: an application as a sequence of calls of the public interface: the invariant of all states it
    can reach, with the live memory and the frozen configuration, and sessions in FIPS mode that are served
    to their end.

  \<^bold>\<open>Fuel.\<close> The C loops without a static bound take a fuel argument: the collection loop, the startup loop, the
  retries of the safe read, the mutual recursion of allocation, initialization and startup, and the wait for a
  tick of the internal timer. One number bounds both the rounds of each single loop and the depth of the calls
  that pass it on. In FIPS mode the repetition count test ends the collection loop: between
  two measurements that are not stuck at most the permanent cutoff of stuck ones can pass, and a collection
  asks for at most 6,420 that are not stuck, while that cutoff is at most 1,200, so 9,000,002 rounds suffice for
  every oversampling rate, the recovery of the test with memory included. Each
  replacement raises the oversampling rate, which is at least 3 and at most 20, so 19 rounds suffice for the retries. The theorems
  state these bounds and that the operation returns, whatever the clock does. Outside of FIPS mode
  the health tests do not stop the loop, and a clock that is always stuck keeps it running: there is no such
  theorem there.

  \<^bold>\<open>Not modelled.\<close> Threads other than the counter of the internal timer, and the memory orders of the atomic
  operations: an operation runs without interleaving. The wrappers of the operating system in
  \<^verbatim>\<open>src/arch\<close> are the environment. The Linux kernel module, the daemon \<^verbatim>\<open>rngd\<close> and the tests are system calls around the
  library. The statistical claim that the measurements contain entropy is outside of logic.
\<close>

end
